(* ===== verification/Prelude.thy ===== *)
theory Prelude
  imports Complex_Main
begin

text \<open>
  Shared vocabulary of the Cosmic Economy model (\<open>src/script.js\<close>).
  \<^item> JavaScript numbers are IEEE doubles; the model reads them as \<^typ>\<open>real\<close>
    (exact arithmetic, no rounding) except where the code can produce \<open>NaN\<close>:
    there a value is a \<open>jsnum\<close>, \<open>Num r\<close> or \<open>NaN\<close>, with the arithmetic of
    ECMAScript (any operand \<open>NaN\<close> gives \<open>NaN\<close>, \<open>ToNumber(undefined)\<close> is
    \<open>NaN\<close>).
  \<^item> \<open>Math.random()\<close> is an explicit source of draws: an \<open>rng\<close> holds the whole
    sequence of values the calls return and the position of the next call, so every
    operation that draws random numbers takes an \<open>rng\<close> and returns it advanced.
    \<open>draws_ok g n\<close> says the next \<open>n\<close> draws lie in \<open>[0, 1)\<close>, which is
    what \<open>Math.random\<close> guarantees.
  \<^item> \<open>setTimeout\<close>/\<open>clearTimeout\<close> are a virtual-time scheduler: a clock in
    milliseconds, a counter for timer ids and the queue of pending callbacks
    (\<open>sched\<close>); firing takes the earliest due timer, the first scheduled among
    equal due times, as the browser's event loop does.
\<close>

named_theorems model_simps "equations of the model evaluated in component proofs"

section \<open>JavaScript numbers where NaN matters\<close>

datatype jsnum = Num real | NaN

fun js_add :: "jsnum \<Rightarrow> jsnum \<Rightarrow> jsnum" where
  "js_add (Num a) (Num b) = Num (a + b)"
| "js_add _ _ = NaN"

fun js_sub :: "jsnum \<Rightarrow> jsnum \<Rightarrow> jsnum" where
  "js_sub (Num a) (Num b) = Num (a - b)"
| "js_sub _ _ = NaN"

fun js_mul :: "jsnum \<Rightarrow> jsnum \<Rightarrow> jsnum" where
  "js_mul (Num a) (Num b) = Num (a * b)"
| "js_mul _ _ = NaN"

text \<open>\<open>ToNumber\<close> of a property that may be \<open>undefined\<close> (\<open>None\<close>).\<close>

fun to_number :: "real option \<Rightarrow> jsnum" where
  "to_number None = NaN"
| "to_number (Some x) = Num x"

section \<open>Math.random as an explicit draw sequence\<close>

record rng =
  draws :: "nat \<Rightarrow> real"
  pos :: nat

definition math_random :: "rng \<Rightarrow> real \<times> rng" where
  "math_random g = (draws g (pos g), g\<lparr>pos := Suc (pos g)\<rparr>)"

definition draws_ok :: "rng \<Rightarrow> nat \<Rightarrow> bool" where
  "draws_ok g n \<longleftrightarrow> (\<forall>i<n. 0 \<le> draws g (pos g + i) \<and> draws g (pos g + i) < 1)"

text \<open>A source that returns the same value on every call, for concrete runs.\<close>

definition const_rng :: "real \<Rightarrow> rng" where
  "const_rng c = \<lparr>draws = (\<lambda>_. c), pos = 0\<rparr>"

section \<open>Virtual-time timers (setTimeout / clearTimeout)\<close>

record 'cb sched =
  now :: nat
  next_tid :: nat
  queue :: "(nat \<times> nat \<times> 'cb) list"

definition sched_init :: "'cb sched" where
  "sched_init = \<lparr>now = 0, next_tid = 1, queue = []\<rparr>"

definition set_timeout :: "'cb \<Rightarrow> nat \<Rightarrow> 'cb sched \<Rightarrow> nat \<times> 'cb sched" where
  "set_timeout cb delay s =
     (next_tid s, s\<lparr>next_tid := Suc (next_tid s),
                     queue := queue s @ [(next_tid s, now s + delay, cb)]\<rparr>)"

text \<open>\<open>clearTimeout(undefined)\<close> and \<open>clearTimeout\<close> of a fired id do nothing.\<close>

definition clear_timeout :: "nat option \<Rightarrow> 'cb sched \<Rightarrow> 'cb sched" where
  "clear_timeout t s =
     (case t of None \<Rightarrow> s | Some i \<Rightarrow> s\<lparr>queue := filter (\<lambda>e. fst e \<noteq> i) (queue s)\<rparr>)"

fun earliest :: "(nat \<times> nat \<times> 'cb) list \<Rightarrow> nat \<times> nat \<times> 'cb" where
  "earliest [e] = e"
| "earliest (e # es) = (let m = earliest es in if fst (snd m) < fst (snd e) then m else e)"
| "earliest [] = undefined"

text \<open>The next callback to run and the scheduler after it left the queue; the clock
  moves to its due time. \<open>None\<close>: nothing is pending.\<close>

definition pop_timer :: "'cb sched \<Rightarrow> ('cb \<times> 'cb sched) option" where
  "pop_timer s =
     (case queue s of
        [] \<Rightarrow> None
      | q \<Rightarrow> (let e = earliest q
              in Some (snd (snd e), s\<lparr>now := max (now s) (fst (snd e)), queue := remove1 e q\<rparr>)))"

text \<open>No pending timer is due before the current time.\<close>

definition sched_wf :: "'cb sched \<Rightarrow> bool" where
  "sched_wf s \<longleftrightarrow> (\<forall>e \<in> set (queue s). now s \<le> fst (snd e))"

section \<open>Real intervals\<close>

text \<open>\<open>v\<close> lies on the segment from \<open>a\<close> to \<open>b\<close>, in either order.\<close>

definition between :: "real \<Rightarrow> real \<Rightarrow> real \<Rightarrow> bool" where
  "between a b v \<longleftrightarrow> min a b \<le> v \<and> v \<le> max a b"

section \<open>Lemmas on JavaScript numbers\<close>

lemma js_nan_absorbs [simp]:
  "js_add NaN x = NaN" "js_add x NaN = NaN"
  "js_sub NaN x = NaN" "js_sub x NaN = NaN"
  "js_mul NaN x = NaN" "js_mul x NaN = NaN"
  by (cases x; simp)+

section \<open>Lemmas on the draw sequence\<close>

lemma math_random_fst [simp]: "fst (math_random g) = draws g (pos g)"
  by (simp add: math_random_def)

lemma math_random_snd_pos [simp]: "pos (snd (math_random g)) = Suc (pos g)"
  by (simp add: math_random_def)

lemma math_random_snd_draws [simp]: "draws (snd (math_random g)) = draws g"
  by (simp add: math_random_def)

lemma draws_ok_Suc:
  "draws_ok g (Suc n) \<longleftrightarrow>
     0 \<le> draws g (pos g) \<and> draws g (pos g) < 1 \<and> draws_ok (snd (math_random g)) n"
  unfolding draws_ok_def
  by (auto simp: less_Suc_eq_0_disj)

lemma draws_ok_mono: "draws_ok g n \<Longrightarrow> m \<le> n \<Longrightarrow> draws_ok g m"
  by (simp add: draws_ok_def)

lemma draws_ok_const [simp]: "draws_ok (const_rng c) n \<longleftrightarrow> n = 0 \<or> (0 \<le> c \<and> c < 1)"
  by (auto simp: draws_ok_def const_rng_def)

lemma draws_ok_nth:
  "draws_ok g n \<Longrightarrow> i < n \<Longrightarrow> 0 \<le> draws g (pos g + i) \<and> draws g (pos g + i) < 1"
  by (simp add: draws_ok_def)

lemma draws_ok_add:
  "draws_ok g (m + n) \<longleftrightarrow> draws_ok g m \<and> draws_ok (g\<lparr>pos := pos g + m\<rparr>) n"
proof
  assume "draws_ok g (m + n)"
  then show "draws_ok g m \<and> draws_ok (g\<lparr>pos := pos g + m\<rparr>) n"
    by (auto simp: draws_ok_def add.assoc)
next
  assume A: "draws_ok g m \<and> draws_ok (g\<lparr>pos := pos g + m\<rparr>) n"
  show "draws_ok g (m + n)"
    unfolding draws_ok_def
  proof (intro allI impI)
    fix i assume i: "i < m + n"
    show "0 \<le> draws g (pos g + i) \<and> draws g (pos g + i) < 1"
    proof (cases "i < m")
      case True
      with A show ?thesis by (simp add: draws_ok_def)
    next
      case False
      then obtain j where "i = m + j" "j < n"
        using i by (metis add_diff_inverse_nat nat_add_left_cancel_less)
      with A show ?thesis by (simp add: draws_ok_def add.assoc)
    qed
  qed
qed

section \<open>Lemmas on the timer queue\<close>

lemma earliest_in: "es \<noteq> [] \<Longrightarrow> earliest es \<in> set es"
  by (induction es rule: earliest.induct) (auto simp: Let_def)

lemma earliest_min: "e \<in> set es \<Longrightarrow> fst (snd (earliest es)) \<le> fst (snd e)"
  by (induction es rule: earliest.induct) (auto simp: Let_def)

lemma pop_timer_None [simp]: "pop_timer s = None \<longleftrightarrow> queue s = []"
  by (simp add: pop_timer_def Let_def split: list.splits)

lemma pop_timer_empty: "queue s = [] \<Longrightarrow> pop_timer s = None"
  by (simp add: pop_timer_def)

lemma pop_timer_eq:
  "queue s \<noteq> [] \<Longrightarrow>
     pop_timer s = Some (snd (snd (earliest (queue s))),
       s\<lparr>now := max (now s) (fst (snd (earliest (queue s)))),
         queue := remove1 (earliest (queue s)) (queue s)\<rparr>)"
  by (simp add: pop_timer_def Let_def split: list.split)

lemma pop_timer_queue_length:
  "pop_timer s = Some (cb, s') \<Longrightarrow> length (queue s') = length (queue s) - 1"
proof -
  assume pop: "pop_timer s = Some (cb, s')"
  then have ne: "queue s \<noteq> []" by (cases "queue s") (auto simp: pop_timer_def)
  with pop have "queue s' = remove1 (earliest (queue s)) (queue s)"
    by (auto simp: pop_timer_eq)
  with ne show ?thesis by (simp add: length_remove1 earliest_in)
qed

lemma set_timeout_queue [simp]:
  "queue (snd (set_timeout cb d s)) = queue s @ [(next_tid s, now s + d, cb)]"
  by (simp add: set_timeout_def)

lemma set_timeout_now [simp]: "now (snd (set_timeout cb d s)) = now s"
  by (simp add: set_timeout_def)

lemma pop_timer_SomeE:
  assumes "pop_timer s = Some (cb, s')"
  obtains e where "e \<in> set (queue s)" "cb = snd (snd e)" "queue s' = remove1 e (queue s)"
    "now s' = max (now s) (fst (snd e))" "\<forall>e' \<in> set (queue s). fst (snd e) \<le> fst (snd e')"
    "next_tid s' = next_tid s"
proof -
  have ne: "queue s \<noteq> []" using assms by (cases "queue s") (auto simp: pop_timer_def)
  have m: "\<forall>e' \<in> set (queue s). fst (snd (earliest (queue s))) \<le> fst (snd e')"
    using earliest_min by blast
  show ?thesis
    using that [OF earliest_in [OF ne] _ _ _ m] assms
    by (auto simp: pop_timer_eq [OF ne])
qed

lemma sched_wf_set_timeout [intro]: "sched_wf s \<Longrightarrow> sched_wf (snd (set_timeout cb d s))"
  by (auto simp: sched_wf_def)

lemma sched_wf_pop_timer:
  assumes "sched_wf s" and "pop_timer s = Some (cb, s')"
  shows "sched_wf s'"
proof -
  obtain e where "e \<in> set (queue s)" "queue s' = remove1 e (queue s)"
    "now s' = max (now s) (fst (snd e))" "\<forall>e' \<in> set (queue s). fst (snd e) \<le> fst (snd e')"
    using assms(2) by (rule pop_timer_SomeE)
  with assms(1) show ?thesis
    by (auto simp: sched_wf_def dest: set_remove1_subset [THEN subsetD])
qed

lemma filter_remove1_other: "\<not> P x \<Longrightarrow> filter P (remove1 x xs) = filter P xs"
  by (induction xs) auto

lemma filter_remove1_same: "P x \<Longrightarrow> filter P (remove1 x xs) = remove1 x (filter P xs)"
  by (induction xs) auto

section \<open>Lemmas on real intervals\<close>

lemma between_interp: "0 \<le> e \<Longrightarrow> e \<le> 1 \<Longrightarrow> between a b (a + (b - a) * e)"
proof (cases "a \<le> b")
  case True
  assume e: "0 \<le> e" "e \<le> 1"
  have "(b - a) * e \<le> b - a" using True e mult_left_le [of e "b - a"] by simp
  moreover have "0 \<le> (b - a) * e" using True e by simp
  ultimately show ?thesis using True by (simp add: between_def)
next
  case False
  assume e: "0 \<le> e" "e \<le> 1"
  have "(a - b) * e \<le> a - b" using False e mult_left_le [of e "a - b"] by simp
  moreover have "0 \<le> (a - b) * e" using False e by simp
  ultimately show ?thesis using False by (simp add: between_def algebra_simps)
qed

lemma between_right [simp]: "between a b b"
  by (simp add: between_def)

end
