(* ===== verification/Canvas.thy ===== *)
theory Canvas
  imports Prelude
begin

text \<open>
  The browser's \<open>CanvasRenderingContext2D\<close>, the drawing surface the chart
  renderers of \<open>src/script.js\<close> write to. It is not code of the repository: it is
  modelled from the HTML canvas specification, for the part the renderers use. A
  renderer's effect is the list of \<open>cmd\<close>s it issues (\<open>ctx.moveTo(x, y)\<close> is
  \<open>MoveTo x y\<close>, and so on); \<open>run_canvas\<close> executes them against a context
  that holds the drawing state (styles, line width, shadow, current path) and the
  \<open>picture\<close>: the list of primitives painted so far, each with the style it was
  painted with. Theorems about a chart are stated on that picture.
\<close>

datatype cmd =
    ClearRect real real real real
  | SetStrokeStyle string
  | SetFillStyle string
  | SetLineWidth real
  | SetShadowColor string
  | SetShadowBlur real
  | BeginPath
  | MoveTo real real
  | LineTo real real
  | Arc real real real real real
  | Stroke
  | Fill
  | FillRect real real real real

text \<open>A subpath of the current path: a polyline, or a circular arc (centre, radius,
  start and end angle).\<close>

datatype subpath = Poly "(real \<times> real) list" | ArcPath real real real real real

text \<open>Painted primitives. A stroke or fill records its colour, the line width (strokes),
  the shadow (colour and blur) in force, and the path it painted.\<close>

datatype prim =
    Cleared real real real real
  | Stroked string real "string \<times> real" "subpath list"
  | Filled string "string \<times> real" "subpath list"
  | FilledRect string "string \<times> real" real real real real

record ctx =
  stroke_style :: string
  fill_style :: string
  line_width :: real
  shadow_color :: string
  shadow_blur :: real
  cpath :: "subpath list"
  picture :: "prim list"

definition ctx_init :: ctx where
  "ctx_init = \<lparr>stroke_style = ''#000000'', fill_style = ''#000000'', line_width = 1,
     shadow_color = ''rgba(0, 0, 0, 0)'', shadow_blur = 0, cpath = [], picture = []\<rparr>"

text \<open>\<open>lineTo\<close> extends the last polyline of the path; with no polyline to extend it
  starts one at the point, as the canvas specification's "ensure there is a subpath"
  step does.\<close>

fun line_to :: "subpath list \<Rightarrow> real \<times> real \<Rightarrow> subpath list" where
  "line_to [] p = [Poly [p]]"
| "line_to [Poly ps] p = [Poly (ps @ [p])]"
| "line_to [ArcPath cx cy r a b] p = [ArcPath cx cy r a b, Poly [p]]"
| "line_to (s # ss) p = s # line_to ss p"

fun exec_cmd :: "ctx \<Rightarrow> cmd \<Rightarrow> ctx" where
  "exec_cmd c (ClearRect x y w h) = c\<lparr>picture := picture c @ [Cleared x y w h]\<rparr>"
| "exec_cmd c (SetStrokeStyle s) = c\<lparr>stroke_style := s\<rparr>"
| "exec_cmd c (SetFillStyle s) = c\<lparr>fill_style := s\<rparr>"
| "exec_cmd c (SetLineWidth w) = c\<lparr>line_width := w\<rparr>"
| "exec_cmd c (SetShadowColor s) = c\<lparr>shadow_color := s\<rparr>"
| "exec_cmd c (SetShadowBlur b) = c\<lparr>shadow_blur := b\<rparr>"
| "exec_cmd c BeginPath = c\<lparr>cpath := []\<rparr>"
| "exec_cmd c (MoveTo x y) = c\<lparr>cpath := cpath c @ [Poly [(x, y)]]\<rparr>"
| "exec_cmd c (LineTo x y) = c\<lparr>cpath := line_to (cpath c) (x, y)\<rparr>"
| "exec_cmd c (Arc x y r a b) = c\<lparr>cpath := cpath c @ [ArcPath x y r a b]\<rparr>"
| "exec_cmd c Stroke =
     c\<lparr>picture := picture c @ [Stroked (stroke_style c) (line_width c)
                                 (shadow_color c, shadow_blur c) (cpath c)]\<rparr>"
| "exec_cmd c Fill =
     c\<lparr>picture := picture c @ [Filled (fill_style c) (shadow_color c, shadow_blur c) (cpath c)]\<rparr>"
| "exec_cmd c (FillRect x y w h) =
     c\<lparr>picture := picture c @ [FilledRect (fill_style c) (shadow_color c, shadow_blur c) x y w h]\<rparr>"

fun run_canvas :: "ctx \<Rightarrow> cmd list \<Rightarrow> ctx" where
  "run_canvas c [] = c"
| "run_canvas c (x # xs) = run_canvas (exec_cmd c x) xs"

lemma run_canvas_append [simp]:
  "run_canvas c (xs @ ys) = run_canvas (run_canvas c xs) ys"
  by (induction xs arbitrary: c) auto

lemma line_to_snoc_poly [simp]: "line_to (ss @ [Poly ps]) p = ss @ [Poly (ps @ [p])]"
proof (induction ss)
  case Nil
  then show ?case by simp
next
  case (Cons s ss)
  then show ?case by (cases ss) auto
qed

text \<open>A polyline issued as one \<open>moveTo\<close> and a run of \<open>lineTo\<close>s on a fresh path
  becomes one polyline subpath holding exactly its points, in order.\<close>

lemma run_line_tos:
  "cpath c = ss @ [Poly qs] \<Longrightarrow>
     run_canvas c (map (\<lambda>(x, y). LineTo x y) ps) =
     c\<lparr>cpath := ss @ [Poly (qs @ ps)]\<rparr>"
proof (induction ps arbitrary: c qs)
  case Nil
  then show ?case by simp
next
  case (Cons p ps)
  obtain x y where p: "p = (x, y)" by fastforce
  have "cpath (exec_cmd c (LineTo x y)) = ss @ [Poly (qs @ [p])]"
    using Cons.prems p by simp
  from Cons.IH [OF this] p show ?case by simp
qed

end
