(* ===== verification/Charts.thy ===== *)
theory Charts
  imports Canvas
begin

text \<open>
  The two canvas chart renderers of \<open>src/script.js\<close>: \<open>renderChart\<close> (a line
  chart of 20 random values with a grid, a glowing polyline and point markers) and
  \<open>renderTradingChart\<close> (50 candlesticks from a random walk starting at price 100,
  on a fixed scale of 150), and \<open>initCharts\<close>, which runs them over the page's
  canvases. Each renderer is a function from the canvas size and the random source to
  the list of canvas commands it issues and the advanced source; the loops of the code
  are recursive functions that draw in the code's order. The lemmas give the picture
  each renderer paints (through \<open>Canvas.run_canvas\<close>), the bounds of its coordinates
  and the well-formedness of the generated candles.
\<close>

record canvas =
  cv_width :: real
  cv_height :: real

section \<open>renderChart\<close>

definition chart_data_points :: nat where
  "chart_data_points = 20"

text \<open>\<open>for (i = 0; i < n; i++) data.push(Math.random() * 0.8 + 0.1)\<close>.\<close>

fun gen_data :: "nat \<Rightarrow> rng \<Rightarrow> real list \<times> rng" where
  "gen_data 0 g = ([], g)"
| "gen_data (Suc n) g =
     (let (r, g1) = math_random g; (ds, g2) = gen_data n g1 in ((r * 0.8 + 0.1) # ds, g2))"

text \<open>The grid: \<open>for (i = 0; i <= 4; i++)\<close> a full-width line at \<open>(height / 4) * i\<close>.\<close>

definition grid_cmds :: "real \<Rightarrow> real \<Rightarrow> cmd list" where
  "grid_cmds w h =
     concat (map (\<lambda>i. let y = (h / 4) * real i in [BeginPath, MoveTo 0 y, LineTo w y, Stroke])
                 [0..<5])"

text \<open>The coordinates both point loops compute for value \<open>i\<close> of \<open>data\<close>.\<close>

definition chart_x :: "real \<Rightarrow> nat \<Rightarrow> nat \<Rightarrow> real" where
  "chart_x w n i = (w / (real n - 1)) * real i"

definition chart_y :: "real \<Rightarrow> real \<Rightarrow> real" where
  "chart_y h d = h - d * h"

definition line_cmds :: "real \<Rightarrow> real \<Rightarrow> real list \<Rightarrow> cmd list" where
  "line_cmds w h data =
     map (\<lambda>i. let x = chart_x w (length data) i; y = chart_y h (data ! i)
              in if i = 0 then MoveTo x y else LineTo x y)
         [0..<length data]"

definition dot_cmds :: "real \<Rightarrow> real \<Rightarrow> real list \<Rightarrow> cmd list" where
  "dot_cmds w h data =
     concat (map (\<lambda>i. let x = chart_x w (length data) i; y = chart_y h (data ! i)
                      in [BeginPath, Arc x y 3 0 (pi * 2), Fill])
                 [0..<length data])"

text \<open>The drawing of \<open>renderChart\<close> for given \<open>data\<close>: clear, grid, polyline,
  glow re-stroke, shadow reset, point markers. The random values are drawn before any of
  it in the model and between \<open>clearRect\<close> and the grid in the code; the draws do not
  touch the canvas, so the order is not observable.\<close>

definition chart_cmds :: "real \<Rightarrow> real \<Rightarrow> real list \<Rightarrow> cmd list" where
  "chart_cmds w h data =
     [ClearRect 0 0 w h,
      SetStrokeStyle ''rgba(0, 212, 255, 0.1)'', SetLineWidth 1]
     @ grid_cmds w h
     @ [SetStrokeStyle ''#00d4ff'', SetLineWidth 2, BeginPath]
     @ line_cmds w h data
     @ [Stroke,
        SetShadowColor ''#00d4ff'', SetShadowBlur 10, Stroke,
        SetShadowBlur 0,
        SetFillStyle ''#00d4ff'']
     @ dot_cmds w h data"

definition renderChart :: "canvas \<Rightarrow> rng \<Rightarrow> cmd list \<times> rng" where
  "renderChart cv g =
     (let (data, g') = gen_data chart_data_points g
      in (chart_cmds (cv_width cv) (cv_height cv) data, g'))"

section \<open>renderTradingChart\<close>

record candle =
  c_open :: real
  c_high :: real
  c_low :: real
  c_close :: real

text \<open>One iteration's data: the three \<open>Math.random()\<close> calls in the code's order
  (change, then the high's wick, then the low's wick).\<close>

definition next_candle :: "real \<Rightarrow> rng \<Rightarrow> candle \<times> rng" where
  "next_candle price g =
     (let (r1, g1) = math_random g;
          change = (r1 - 0.5) * 10;
          opn = price;
          cls = price + change;
          (r2, g2) = math_random g1;
          high = max opn cls + r2 * 5;
          (r3, g3) = math_random g2;
          low = min opn cls - r3 * 5
      in (\<lparr>c_open = opn, c_high = high, c_low = low, c_close = cls\<rparr>, g3))"

text \<open>One iteration's drawing, for candle \<open>i\<close> of width \<open>cw\<close> on a canvas of
  height \<open>h\<close>.\<close>

definition candle_color :: "candle \<Rightarrow> string" where
  "candle_color c = (if c_close c > c_open c then ''#4ade80'' else ''#f87171'')"

definition price_y :: "real \<Rightarrow> real \<Rightarrow> real" where
  "price_y h p = (1 - p / 150) * h"

definition candle_cmds :: "real \<Rightarrow> real \<Rightarrow> nat \<Rightarrow> candle \<Rightarrow> cmd list" where
  "candle_cmds cw h i c =
     (let x = real i * cw + cw / 2;
          col = candle_color c;
          body_top = (1 - max (c_open c) (c_close c) / 150) * h;
          body_height = \<bar>(c_close c - c_open c) / 150\<bar> * h
      in [SetStrokeStyle col, SetFillStyle col, SetLineWidth 1,
          BeginPath, MoveTo x (price_y h (c_high c)), LineTo x (price_y h (c_low c)), Stroke,
          FillRect (x - cw / 4) body_top (cw / 2) body_height])"

text \<open>The loop \<open>for (i = 0; i < candleCount; i++)\<close>: \<open>k\<close> iterations are left,
  \<open>price\<close> is the running price (\<open>price = close\<close> at the end of each).\<close>

fun trading_loop :: "nat \<Rightarrow> nat \<Rightarrow> real \<Rightarrow> real \<Rightarrow> real \<Rightarrow> rng \<Rightarrow> cmd list \<times> rng" where
  "trading_loop i 0 cw h price g = ([], g)"
| "trading_loop i (Suc k) cw h price g =
     (let (c, g1) = next_candle price g;
          (cs, g2) = trading_loop (Suc i) k cw h (c_close c) g1
      in (candle_cmds cw h i c @ cs, g2))"

definition candle_count :: nat where
  "candle_count = 50"

definition renderTradingChart :: "canvas \<Rightarrow> rng \<Rightarrow> cmd list \<times> rng" where
  "renderTradingChart cv g =
     (let w = cv_width cv; h = cv_height cv;
          cw = w / real candle_count;
          (cs, g') = trading_loop 0 candle_count cw h 100 g
      in (ClearRect 0 0 w h # cs, g'))"

section \<open>initCharts\<close>

text \<open>Every \<open>.chart-canvas\<close> in document order, then \<open>#main-chart\<close> if the
  page has one; the random source is shared, so each chart draws fresh values. The
  result is each canvas's commands.\<close>

fun render_all :: "canvas list \<Rightarrow> rng \<Rightarrow> cmd list list \<times> rng" where
  "render_all [] g = ([], g)"
| "render_all (cv # cvs) g =
     (let (cs, g1) = renderChart cv g; (css, g2) = render_all cvs g1 in (cs # css, g2))"

definition initCharts :: "canvas list \<Rightarrow> canvas option \<Rightarrow> rng \<Rightarrow>
    cmd list list \<times> cmd list option \<times> rng" where
  "initCharts cvs main g =
     (let (css, g1) = render_all cvs g
      in case main of
           None \<Rightarrow> (css, None, g1)
         | Some m \<Rightarrow> (let (tc, g2) = renderTradingChart m g1 in (css, Some tc, g2)))"

section \<open>Reference definitions for the chart properties\<close>

text \<open>The points both loops of \<open>renderChart\<close> visit, in order.\<close>

definition chart_points :: "real \<Rightarrow> real \<Rightarrow> real list \<Rightarrow> (real \<times> real) list" where
  "chart_points w h data =
     map (\<lambda>i. (chart_x w (length data) i, chart_y h (data ! i))) [0..<length data]"

definition chart_polyline :: "canvas \<Rightarrow> rng \<Rightarrow> (real \<times> real) list" where
  "chart_polyline cv g = chart_points (cv_width cv) (cv_height cv) (fst (gen_data chart_data_points g))"

definition hline_cmds :: "real \<Rightarrow> real list \<Rightarrow> cmd list" where
  "hline_cmds w ys = concat (map (\<lambda>y. [BeginPath, MoveTo 0 y, LineTo w y, Stroke]) ys)"

definition marker_cmds :: "(real \<times> real) list \<Rightarrow> cmd list" where
  "marker_cmds pts = concat (map (\<lambda>(x, y). [BeginPath, Arc x y 3 0 (pi * 2), Fill]) pts)"

text \<open>The candle data of \<open>renderTradingChart\<close> without the drawing, and the drawing
  of a given candle list: the loop of the code fuses the two.\<close>

fun gen_candles :: "nat \<Rightarrow> real \<Rightarrow> rng \<Rightarrow> candle list \<times> rng" where
  "gen_candles 0 price g = ([], g)"
| "gen_candles (Suc k) price g =
     (let (c, g1) = next_candle price g; (cs, g2) = gen_candles k (c_close c) g1 in (c # cs, g2))"

fun draw_candles :: "real \<Rightarrow> real \<Rightarrow> nat \<Rightarrow> candle list \<Rightarrow> cmd list" where
  "draw_candles cw h i [] = []"
| "draw_candles cw h i (c # cs) = candle_cmds cw h i c @ draw_candles cw h (Suc i) cs"

definition trading_candles :: "rng \<Rightarrow> candle list" where
  "trading_candles g = fst (gen_candles candle_count 100 g)"

text \<open>A candle is well formed when its wick reaches past both ends of its body and
  the body is at most one maximal change (5) high.\<close>

definition candle_wf :: "candle \<Rightarrow> bool" where
  "candle_wf c \<longleftrightarrow>
     max (c_open c) (c_close c) \<le> c_high c \<and> c_low c \<le> min (c_open c) (c_close c)
     \<and> \<bar>c_close c - c_open c\<bar> \<le> 5"

text \<open>Each candle opens at the previous close, the first at the start price.\<close>

fun chained :: "real \<Rightarrow> candle list \<Rightarrow> bool" where
  "chained p [] = True"
| "chained p (c # cs) = (c_open c = p \<and> chained (c_close c) cs)"

section \<open>renderChart: data, path and picture\<close>

lemma gen_data_eq:
  "gen_data n g = (map (\<lambda>i. draws g (pos g + i) * 0.8 + 0.1) [0..<n], g\<lparr>pos := pos g + n\<rparr>)"
proof (induction n arbitrary: g)
  case 0
  then show ?case by simp
next
  case (Suc n)
  show ?case
    by (simp add: Suc math_random_def map_upt_Suc del: upt_Suc)
qed

lemma line_cmds_eq:
  "line_cmds w h data =
     (case chart_points w h data of
        [] \<Rightarrow> []
      | (x, y) # ps \<Rightarrow> MoveTo x y # map (\<lambda>(x, y). LineTo x y) ps)"
  by (cases data) (simp_all add: line_cmds_def chart_points_def map_upt_Suc Let_def del: upt_Suc)

lemma dot_cmds_eq: "dot_cmds w h data = marker_cmds (chart_points w h data)"
  by (simp add: dot_cmds_def marker_cmds_def chart_points_def comp_def Let_def)

lemma grid_cmds_hlines: "grid_cmds w h = hline_cmds w (map (\<lambda>i. h / 4 * real i) [0..<5])"
  by (simp add: grid_cmds_def hline_cmds_def comp_def Let_def del: upt_Suc)

lemma run_hline_cmds:
  "run_canvas c (hline_cmds w ys) =
     c\<lparr>cpath := (if ys = [] then cpath c else [Poly [(0, last ys), (w, last ys)]]),
       picture := picture c @ map (\<lambda>y. Stroked (stroke_style c) (line_width c)
                                         (shadow_color c, shadow_blur c) [Poly [(0, y), (w, y)]]) ys\<rparr>"
  by (induction ys arbitrary: c) (auto simp: hline_cmds_def)

lemma run_marker_cmds:
  "run_canvas c (marker_cmds pts) =
     c\<lparr>cpath := (if pts = [] then cpath c
                  else [ArcPath (fst (last pts)) (snd (last pts)) 3 0 (pi * 2)]),
       picture := picture c @ map (\<lambda>(x, y). Filled (fill_style c) (shadow_color c, shadow_blur c)
                                              [ArcPath x y 3 0 (pi * 2)]) pts\<rparr>"
  by (induction pts arbitrary: c) (auto simp: marker_cmds_def)

lemma run_polyline:
  "run_canvas c (BeginPath # (case pts of
                                [] \<Rightarrow> []
                              | (x, y) # ps \<Rightarrow> MoveTo x y # map (\<lambda>(x, y). LineTo x y) ps)) =
     c\<lparr>cpath := (if pts = [] then [] else [Poly pts])\<rparr>"
proof (cases pts)
  case Nil
  then show ?thesis by simp
next
  case (Cons p ps)
  obtain x y where p: "p = (x, y)" by fastforce
  let ?c1 = "c\<lparr>cpath := [Poly [(x, y)]]\<rparr>"
  have "run_canvas ?c1 (map (\<lambda>(x, y). LineTo x y) ps) = ?c1\<lparr>cpath := [] @ [Poly ([(x, y)] @ ps)]\<rparr>"
    by (rule run_line_tos) simp
  with Cons p show ?thesis by simp
qed

lemma chart_cmds_picture:
  assumes "data \<noteq> []"
  shows "picture (run_canvas c (chart_cmds w h data)) =
     picture c @ [Cleared 0 0 w h]
     @ map (\<lambda>i. Stroked ''rgba(0, 212, 255, 0.1)'' 1 (shadow_color c, shadow_blur c)
                   [Poly [(0, h / 4 * real i), (w, h / 4 * real i)]]) [0..<5]
     @ [Stroked ''#00d4ff'' 2 (shadow_color c, shadow_blur c) [Poly (chart_points w h data)],
        Stroked ''#00d4ff'' 2 (''#00d4ff'', 10) [Poly (chart_points w h data)]]
     @ map (\<lambda>(x, y). Filled ''#00d4ff'' (''#00d4ff'', 0) [ArcPath x y 3 0 (pi * 2)])
           (chart_points w h data)"
proof -
  have "chart_points w h data \<noteq> []"
    using assms by (simp add: chart_points_def)
  then show ?thesis
    unfolding chart_cmds_def grid_cmds_hlines line_cmds_eq dot_cmds_eq
    by (simp add: run_hline_cmds run_marker_cmds run_polyline [simplified] comp_def del: upt_Suc)
qed

lemma chart_polyline_nth:
  "i < chart_data_points \<Longrightarrow>
     chart_polyline cv g ! i =
       (cv_width cv / 19 * real i, chart_y (cv_height cv) (draws g (pos g + i) * 0.8 + 0.1))"
  by (simp add: chart_polyline_def chart_points_def gen_data_eq chart_x_def chart_data_points_def)

lemma chart_polyline_length [simp]: "length (chart_polyline cv g) = chart_data_points"
  by (simp add: chart_polyline_def chart_points_def gen_data_eq)

lemma chart_y_bounds:
  assumes "0 \<le> h" "0 \<le> r" "r \<le> 1"
  shows "h / 10 \<le> chart_y h (r * 0.8 + 0.1) \<and> chart_y h (r * 0.8 + 0.1) \<le> 9 / 10 * h"
proof -
  have eq: "chart_y h (r * 0.8 + 0.1) = h * (9 / 10 - 8 / 10 * r)"
    by (simp add: chart_y_def algebra_simps)
  have "h * (1 / 10) \<le> h * (9 / 10 - 8 / 10 * r)"
    using assms by (intro mult_left_mono) auto
  moreover have "h * (9 / 10 - 8 / 10 * r) \<le> h * (9 / 10)"
    using assms by (intro mult_left_mono) auto
  ultimately show ?thesis unfolding eq by linarith
qed

section \<open>renderTradingChart: candles and their drawing\<close>

lemma trading_loop_gen:
  "trading_loop i k cw h price g =
     (draw_candles cw h i (fst (gen_candles k price g)), snd (gen_candles k price g))"
  by (induction i k cw h price g rule: trading_loop.induct) (simp_all add: split_beta)

lemma renderTradingChart_draws:
  "fst (renderTradingChart cv g) =
     ClearRect 0 0 (cv_width cv) (cv_height cv)
     # draw_candles (cv_width cv / 50) (cv_height cv) 0 (trading_candles g)"
  by (simp add: renderTradingChart_def trading_loop_gen trading_candles_def split_beta
                candle_count_def Let_def)

lemma next_candle_eq:
  "next_candle price g =
     (let r1 = draws g (pos g); r2 = draws g (Suc (pos g)); r3 = draws g (Suc (Suc (pos g)));
          cls = price + (r1 - 0.5) * 10
      in (\<lparr>c_open = price, c_high = max price cls + r2 * 5,
           c_low = min price cls - r3 * 5, c_close = cls\<rparr>, g\<lparr>pos := pos g + 3\<rparr>))"
  by (simp add: next_candle_def math_random_def Let_def)

lemma next_candle_wf:
  assumes "draws_ok g 3"
  shows "candle_wf (fst (next_candle price g))"
  using draws_ok_nth [OF assms, of 0] draws_ok_nth [OF assms, of 1] draws_ok_nth [OF assms, of 2]
  by (auto simp: next_candle_eq Let_def candle_wf_def abs_le_iff)

lemma gen_candles_pos: "pos (snd (gen_candles k price g)) = pos g + 3 * k"
  by (induction k arbitrary: price g) (simp_all add: split_beta next_candle_eq Let_def)

lemma gen_candles_draws [simp]: "draws (snd (gen_candles k price g)) = draws g"
  by (induction k arbitrary: price g) (simp_all add: split_beta next_candle_eq Let_def)

lemma gen_candles_props:
  "draws_ok g (3 * k) \<Longrightarrow>
     length (fst (gen_candles k price g)) = k
     \<and> (\<forall>c \<in> set (fst (gen_candles k price g)). candle_wf c)
     \<and> chained price (fst (gen_candles k price g))"
proof (induction k arbitrary: price g)
  case 0
  then show ?case by simp
next
  case (Suc k)
  have ok: "draws_ok g 3" "draws_ok (g\<lparr>pos := pos g + 3\<rparr>) (3 * k)"
    using Suc.prems draws_ok_add [of g 3 "3 * k"] by simp_all
  have snd_nc: "snd (next_candle price g) = g\<lparr>pos := pos g + 3\<rparr>"
    by (simp add: next_candle_eq Let_def)
  have "c_open (fst (next_candle price g)) = price"
    by (simp add: next_candle_eq Let_def)
  then show ?case
    using Suc.IH [OF ok(2)] next_candle_wf [OF ok(1)] snd_nc
    by (simp add: split_beta)
qed

lemma price_y_antimono: "0 \<le> h \<Longrightarrow> p \<le> q \<Longrightarrow> price_y h q \<le> price_y h p"
  unfolding price_y_def by (intro mult_right_mono) (auto simp: divide_right_mono)

section \<open>Chart properties\<close>

text \<open>
  C1. For the 50 candles \<open>renderTradingChart\<close> generates from draws in \<open>[0, 1)\<close>
  (150 calls of \<open>Math.random\<close>), every candle has \<open>high \<ge> max(open, close)\<close>,
  \<open>low \<le> min(open, close)\<close> and a body of at most 5, and the candles form a
  chain: the first opens at 100 and each opens at the previous close.
\<close>

theorem trading_candles_wf:
  assumes "draws_ok g (3 * candle_count)"
  shows "length (trading_candles g) = 50
    \<and> (\<forall>c \<in> set (trading_candles g). candle_wf c)
    \<and> chained 100 (trading_candles g)"
  using gen_candles_props [OF assms, of 100]
  by (simp add: trading_candles_def candle_count_def)

theorem trading_candles_wf_witness:
  "draws_ok (const_rng (1 / 2)) (3 * candle_count)
   \<and> length (trading_candles (const_rng (1 / 2))) = 50
   \<and> chained 100 (trading_candles (const_rng (1 / 2)))"
proof -
  have ok: "draws_ok (const_rng (1 / 2)) (3 * candle_count)" by simp
  show ?thesis using trading_candles_wf [OF ok] ok by simp
qed

text \<open>
  C2. The polyline \<open>renderChart\<close> strokes has exactly 20 points; their
  x-coordinates run from 0 to the canvas width in equal steps of \<open>width / 19\<close>, and
  for draws in \<open>[0, 1)\<close> every y-coordinate lies between a tenth and nine tenths of
  the height, so within the canvas.
\<close>

theorem chart_polyline_bounds:
  assumes "draws_ok g chart_data_points" and "0 \<le> cv_width cv" and "0 \<le> cv_height cv"
  shows "length (chart_polyline cv g) = 20
    \<and> fst (chart_polyline cv g ! 0) = 0 \<and> fst (chart_polyline cv g ! 19) = cv_width cv
    \<and> (\<forall>i<19. fst (chart_polyline cv g ! Suc i) - fst (chart_polyline cv g ! i) = cv_width cv / 19)
    \<and> (\<forall>(x, y) \<in> set (chart_polyline cv g).
          0 \<le> x \<and> x \<le> cv_width cv \<and> cv_height cv / 10 \<le> y \<and> y \<le> 9 / 10 * cv_height cv)"
proof -
  have pt: "0 \<le> fst (chart_polyline cv g ! i) \<and> fst (chart_polyline cv g ! i) \<le> cv_width cv
      \<and> cv_height cv / 10 \<le> snd (chart_polyline cv g ! i)
      \<and> snd (chart_polyline cv g ! i) \<le> 9 / 10 * cv_height cv" if i: "i < 20" for i
  proof -
    have r: "0 \<le> draws g (pos g + i)" "draws g (pos g + i) < 1"
      using draws_ok_nth [OF assms(1)] i by (auto simp: chart_data_points_def)
    have "cv_width cv / 19 * real i \<le> cv_width cv / 19 * 19"
      using i assms(2) by (intro mult_left_mono) auto
    then show ?thesis
      using i assms(2,3) r chart_y_bounds [OF assms(3) r(1)]
      by (simp add: chart_polyline_nth chart_data_points_def)
  qed
  show ?thesis
  proof (intro conjI)
    show "\<forall>(x, y) \<in> set (chart_polyline cv g).
          0 \<le> x \<and> x \<le> cv_width cv \<and> cv_height cv / 10 \<le> y \<and> y \<le> 9 / 10 * cv_height cv"
      using pt by (fastforce simp: in_set_conv_nth chart_data_points_def)
    show "\<forall>i<19. fst (chart_polyline cv g ! Suc i) - fst (chart_polyline cv g ! i) = cv_width cv / 19"
      by (simp add: chart_polyline_nth chart_data_points_def algebra_simps)
  qed (simp_all add: chart_polyline_nth chart_data_points_def)
qed

theorem chart_polyline_bounds_witness:
  "draws_ok (const_rng (1 / 2)) chart_data_points
   \<and> length (chart_polyline \<lparr>cv_width = 380, cv_height = 200\<rparr> (const_rng (1 / 2))) = 20
   \<and> fst (chart_polyline \<lparr>cv_width = 380, cv_height = 200\<rparr> (const_rng (1 / 2)) ! 19) = 380"
proof -
  have ok: "draws_ok (const_rng (1 / 2)) chart_data_points" by simp
  show ?thesis
    using chart_polyline_bounds [OF ok, of "\<lparr>cv_width = 380, cv_height = 200\<rparr>"] ok by simp
qed

text \<open>
  C3. What \<open>renderChart\<close> paints on a canvas in any prior state: a clear of the
  whole canvas; five (not four) faint full-width grid lines at \<open>0, h/4, h/2, 3h/4, h\<close>;
  the data polyline stroked twice, the second time with a blur-10 glow; and one filled
  radius-3 marker per point. The grid lines and the first stroke keep whatever shadow
  the canvas had.
\<close>

theorem renderChart_picture:
  "picture (run_canvas c (fst (renderChart cv g))) =
     picture c @ [Cleared 0 0 (cv_width cv) (cv_height cv)]
     @ map (\<lambda>i. Stroked ''rgba(0, 212, 255, 0.1)'' 1 (shadow_color c, shadow_blur c)
                   [Poly [(0, cv_height cv / 4 * real i), (cv_width cv, cv_height cv / 4 * real i)]])
           [0..<5]
     @ [Stroked ''#00d4ff'' 2 (shadow_color c, shadow_blur c) [Poly (chart_polyline cv g)],
        Stroked ''#00d4ff'' 2 (''#00d4ff'', 10) [Poly (chart_polyline cv g)]]
     @ map (\<lambda>(x, y). Filled ''#00d4ff'' (''#00d4ff'', 0) [ArcPath x y 3 0 (pi * 2)])
           (chart_polyline cv g)"
proof -
  have "fst (gen_data chart_data_points g) \<noteq> []"
    by (simp add: gen_data_eq chart_data_points_def)
  then show ?thesis
    by (simp add: renderChart_def chart_polyline_def split_beta chart_cmds_picture)
qed

text \<open>
  C4. Each candle \<open>renderTradingChart\<close> draws is drawn consistently: for a well-formed
  candle on a canvas of non-negative height, the high-low line is vertical and spans the
  whole body rectangle, and the body lies inside the candle's column
  \<open>[i * cw, (i + 1) * cw]\<close>, centred on the line.
\<close>

theorem candle_wick_spans_body:
  assumes "candle_wf k" and "0 \<le> h" and "0 \<le> cw"
    and "candle_cmds cw h i k =
           [s1, s2, s3, BeginPath, MoveTo x1 y1, LineTo x2 y2, Stroke, FillRect rx ry rw rh]"
  shows "x1 = x2 \<and> y1 \<le> ry \<and> ry + rh \<le> y2
    \<and> real i * cw \<le> rx \<and> rx + rw \<le> real (Suc i) * cw \<and> x1 - rx = rx + rw - x1"
proof -
  from assms(4) have
    x: "x1 = real i * cw + cw / 2" "x2 = x1" and
    y: "y1 = price_y h (c_high k)" "y2 = price_y h (c_low k)" and
    r: "rx = x1 - cw / 4" "rw = cw / 2" and
    top: "ry = price_y h (max (c_open k) (c_close k))" and
    hgt: "rh = \<bar>(c_close k - c_open k) / 150\<bar> * h"
    by (auto simp: candle_cmds_def Let_def price_y_def)
  have "ry + rh = price_y h (min (c_open k) (c_close k))"
    using assms(2) unfolding top hgt price_y_def
    by (cases "c_open k \<le> c_close k") (auto simp: field_simps abs_div_pos)
  moreover have "y1 \<le> ry" "price_y h (min (c_open k) (c_close k)) \<le> y2"
    using assms(1,2) unfolding y top candle_wf_def by (auto intro: price_y_antimono)
  ultimately show ?thesis
    using assms(3) x r by (simp add: algebra_simps)
qed

theorem candle_wick_spans_body_witness:
  "candle_wf \<lparr>c_open = 100, c_high = 104, c_low = 97, c_close = 102\<rparr>
   \<and> price_y 300 104 \<le> price_y 300 102 \<and> price_y 300 102 + 4 \<le> price_y 300 97"
proof -
  let ?k = "\<lparr>c_open = 100, c_high = 104, c_low = 97, c_close = 102\<rparr>"
  have wf: "candle_wf ?k" by (simp add: candle_wf_def)
  have eq: "candle_cmds 10 300 0 ?k =
    [SetStrokeStyle ''#4ade80'', SetFillStyle ''#4ade80'', SetLineWidth 1, BeginPath,
     MoveTo 5 (price_y 300 104), LineTo 5 (price_y 300 97), Stroke,
     FillRect 2.5 (price_y 300 102) 5 4]"
    by (simp add: candle_cmds_def candle_color_def price_y_def Let_def)
  from candle_wick_spans_body [OF wf _ _ eq] wf show ?thesis by simp
qed

end
