(* ===== verification/Scene.thy ===== *)
theory Scene
  imports Prelude
begin

text \<open>
  The 3D background of \<open>src/script.js\<close>: \<open>init3DScene\<close> with \<open>createStarfield\<close>,
  \<open>createPlanets\<close> and \<open>createNebula\<close>, the per-frame \<open>animate\<close>, the
  \<open>mousemove\<close> listener, \<open>onWindowResize\<close>, and the scene half of
  \<open>optimizePerformance\<close>.

  The scene graph holds references to meshes and the global \<open>planets\<close> array holds
  references to some of the same meshes; \<open>optimizePerformance\<close> replaces the array by
  a slice while the scene keeps every mesh. The model therefore has an explicit store:
  \<open>meshes\<close> maps an address (list index) to a planet mesh, \<open>planets\<close> is the JS array
  as a list of addresses, and \<open>children\<close> is the scene's child list, whose planet
  entries are addresses too. The camera coordinates that the parallax writes are
  \<open>jsnum\<close>s, because \<open>window.mouseX\<close> is \<open>undefined\<close> until the first
  \<open>mousemove\<close> and the arithmetic then yields \<open>NaN\<close>. Three.js itself (geometry,
  materials, the renderer's drawing) is outside the model: \<open>frames\<close> counts the
  \<open>renderer.render\<close> calls.
\<close>

section \<open>State\<close>

record mesh =
  radius :: real
  color :: nat
  rot_x :: real
  rot_y :: real
  pos_x :: real
  pos_y :: real
  pos_z :: real
  speed :: real
  original_y :: real

record star_field =
  srot_x :: real
  srot_y :: real
  spositions :: "real list"
  ssize :: real

text \<open>The kinds of the scene's children; a planet names its mesh's address. Only the
  nebula's shader material has a \<open>time\<close> uniform.\<close>

datatype obj = StarsObj | PlanetObj nat | NebulaObj | AmbientLightObj | DirectionalLightObj

record camera =
  cam_x :: jsnum
  cam_y :: jsnum
  cam_z :: real
  aspect :: real

record scene_state =
  is_loading :: bool
  stars :: "star_field option"
  meshes :: "mesh list"
  planets :: "nat list"
  children :: "obj list"
  nebula_time :: real
  cam :: camera
  renderer_size :: "real \<times> real"
  frames :: nat
  win_w :: real
  win_h :: real
  mouse_x :: "real option"
  mouse_y :: "real option"

section \<open>Scene construction\<close>

record planet_spec =
  pd_radius :: real
  pd_color :: nat
  pd_position :: "real \<times> real \<times> real"
  pd_speed :: real

definition planet_data :: "planet_spec list" where
  "planet_data =
     [\<lparr>pd_radius = 0.8, pd_color = 54527, pd_position = (-15, 5, -10), pd_speed = 0.01\<rparr>,
      \<lparr>pd_radius = 1.2, pd_color = 16739179, pd_position = (15, -5, -15), pd_speed = 0.008\<rparr>,
      \<lparr>pd_radius = 0.6, pd_color = 16766720, pd_position = (-8, -8, -5), pd_speed = 0.012\<rparr>,
      \<lparr>pd_radius = 1.0, pd_color = 9055202, pd_position = (12, 8, -8), pd_speed = 0.009\<rparr>]"

text \<open>One planet mesh: \<open>position.set(...data.position)\<close>, rotation zero, and
  \<open>userData = { speed, originalY: position[1] }\<close>.\<close>

definition make_planet :: "planet_spec \<Rightarrow> mesh" where
  "make_planet d =
     (case pd_position d of (x, y, z) \<Rightarrow>
        \<lparr>radius = pd_radius d, color = pd_color d, rot_x = 0, rot_y = 0,
         pos_x = x, pos_y = y, pos_z = z, speed = pd_speed d, original_y = y\<rparr>)"

text \<open>\<open>createPlanets\<close>: each mesh is pushed to \<open>planets\<close> and added to the scene,
  in order. The new meshes get the next free addresses of the store.\<close>

definition createPlanets :: "scene_state \<Rightarrow> scene_state" where
  "createPlanets s =
     (let n = length (meshes s); k = length planet_data
      in s\<lparr>meshes := meshes s @ map make_planet planet_data,
           planets := planets s @ [n..<n + k],
           children := children s @ map PlanetObj [n..<n + k]\<rparr>)"

fun gen_positions :: "nat \<Rightarrow> rng \<Rightarrow> real list \<times> rng" where
  "gen_positions 0 g = ([], g)"
| "gen_positions (Suc n) g =
     (let (r, g1) = math_random g; (ps, g2) = gen_positions n g1 in ((r - 0.5) * 2000 # ps, g2))"

definition star_count :: nat where
  "star_count = 10000"

text \<open>\<open>createStarfield\<close>: \<open>3 * starCount\<close> coordinates, then the point size.\<close>

definition createStarfield :: "rng \<Rightarrow> scene_state \<Rightarrow> scene_state \<times> rng" where
  "createStarfield g s =
     (let (ps, g1) = gen_positions (star_count * 3) g;
          (r, g2) = math_random g1
      in (s\<lparr>stars := Some \<lparr>srot_x = 0, srot_y = 0, spositions = ps, ssize = r * 2 + 0.5\<rparr>,
            children := children s @ [StarsObj]\<rparr>, g2))"

definition createNebula :: "scene_state \<Rightarrow> scene_state" where
  "createNebula s = s\<lparr>nebula_time := 0, children := children s @ [NebulaObj]\<rparr>"

text \<open>\<open>init3DScene\<close> on a window of \<open>w \<times> h\<close>: a fresh scene, the camera at
  \<open>z = 5\<close> with aspect \<open>w / h\<close>, the renderer sized to the window, then stars,
  planets, nebula and the two lights, in this order. The resize listener it registers
  is \<open>onWindowResize\<close> below.\<close>

definition scene_empty :: "real \<Rightarrow> real \<Rightarrow> scene_state" where
  "scene_empty w h =
     \<lparr>is_loading = True, stars = None, meshes = [], planets = [], children = [],
      nebula_time = 0,
      cam = \<lparr>cam_x = Num 0, cam_y = Num 0, cam_z = 0, aspect = 1\<rparr>,
      renderer_size = (0, 0), frames = 0, win_w = w, win_h = h,
      mouse_x = None, mouse_y = None\<rparr>"

definition init3DScene :: "rng \<Rightarrow> scene_state \<Rightarrow> scene_state \<times> rng" where
  "init3DScene g s0 =
     (let s1 = s0\<lparr>children := [],
                  cam := \<lparr>cam_x = Num 0, cam_y = Num 0, cam_z = 5, aspect = win_w s0 / win_h s0\<rparr>,
                  renderer_size := (win_w s0, win_h s0)\<rparr>;
          (s2, g1) = createStarfield g s1;
          s3 = createNebula (createPlanets s2)
      in (s3\<lparr>children := children s3 @ [AmbientLightObj, DirectionalLightObj]\<rparr>, g1))"

section \<open>Events and the frame update\<close>

definition onWindowResize :: "real \<Rightarrow> real \<Rightarrow> scene_state \<Rightarrow> scene_state" where
  "onWindowResize w h s =
     s\<lparr>win_w := w, win_h := h, cam := (cam s)\<lparr>aspect := w / h\<rparr>, renderer_size := (w, h)\<rparr>"

definition mousemove :: "real \<Rightarrow> real \<Rightarrow> scene_state \<Rightarrow> scene_state" where
  "mousemove x y s = s\<lparr>mouse_x := Some x, mouse_y := Some y\<rparr>"

text \<open>One body of \<open>planets.forEach((planet, index) => ...)\<close> at time \<open>t\<close>
  (\<open>Date.now()\<close>, in milliseconds).\<close>

definition update_planet :: "real \<Rightarrow> nat \<Rightarrow> mesh \<Rightarrow> mesh" where
  "update_planet t idx m =
     (let m1 = m\<lparr>rot_y := rot_y m + speed m\<rparr>;
          m2 = m1\<lparr>rot_x := rot_x m1 + speed m1 * 0.5\<rparr>
      in m2\<lparr>pos_y := original_y m2 + sin (t * 0.001 + real idx) * 2\<rparr>)"

text \<open>The loop over the array: element \<open>idx\<close> of \<open>planets\<close> updates the mesh it
  references, in the store.\<close>

fun animate_planets :: "real \<Rightarrow> nat \<Rightarrow> nat list \<Rightarrow> mesh list \<Rightarrow> mesh list" where
  "animate_planets t idx [] ms = ms"
| "animate_planets t idx (a # as) ms =
     animate_planets t (Suc idx) as (ms[a := update_planet t idx (ms ! a)])"

definition has_time_uniform :: "obj \<Rightarrow> bool" where
  "has_time_uniform x \<longleftrightarrow> x = NebulaObj"

text \<open>The parallax of one camera coordinate: \<open>target = (inner / 2 - mouse) * 0.0001\<close>,
  \<open>position += (target - position) * 0.05\<close>, in JavaScript arithmetic.\<close>

definition parallax :: "real \<Rightarrow> real option \<Rightarrow> jsnum \<Rightarrow> jsnum" where
  "parallax inner m p =
     (let target = js_mul (js_sub (Num (inner / 2)) (to_number m)) (Num 0.0001)
      in js_add p (js_mul (js_sub target p) (Num 0.05)))"

text \<open>\<open>animate\<close> at time \<open>t\<close>, without its \<open>requestAnimationFrame\<close> call (the
  scheduling is modelled in \<open>Frames\<close>). While loading, only the render happens.\<close>

definition animate :: "real \<Rightarrow> scene_state \<Rightarrow> scene_state" where
  "animate t s =
     (let s1 =
        (if is_loading s then s
         else
           (let s_st = (case stars s of
                          None \<Rightarrow> s
                        | Some st \<Rightarrow> s\<lparr>stars := Some (st\<lparr>srot_x := srot_x st + 0.0005,
                                                          srot_y := srot_y st + 0.0002\<rparr>)\<rparr>);
                s_pl = s_st\<lparr>meshes := animate_planets t 0 (planets s_st) (meshes s_st)\<rparr>;
                s_nb = (case find has_time_uniform (children s_pl) of
                          None \<Rightarrow> s_pl
                        | Some _ \<Rightarrow> s_pl\<lparr>nebula_time := t * 0.001\<rparr>);
                c = cam s_nb
            in s_nb\<lparr>cam := c\<lparr>cam_x := parallax (win_w s_nb) (mouse_x s_nb) (cam_x c),
                               cam_y := parallax (win_h s_nb) (mouse_y s_nb) (cam_y c)\<rparr>\<rparr>))
      in s1\<lparr>frames := Suc (frames s1)\<rparr>)"

text \<open>Frames at the given times, in order.\<close>

fun animate_run :: "real list \<Rightarrow> scene_state \<Rightarrow> scene_state" where
  "animate_run [] s = s"
| "animate_run (t # ts) s = animate_run ts (animate t s)"

text \<open>The events that reach the scene: a frame at time \<open>t\<close>, a \<open>mousemove\<close>, a
  \<open>resize\<close> to a new window size, and the end of loading (\<open>isLoading = false\<close>
  in \<open>hideLoadingScreen\<close>'s inner timer).\<close>

datatype scene_event = Frame real | MouseMove real real | Resize real real | EndLoading

fun scene_step :: "scene_state \<Rightarrow> scene_event \<Rightarrow> scene_state" where
  "scene_step s (Frame t) = animate t s"
| "scene_step s (MouseMove x y) = mousemove x y s"
| "scene_step s (Resize w h) = onWindowResize w h s"
| "scene_step s EndLoading = s\<lparr>is_loading := False\<rparr>"

fun scene_run :: "scene_state \<Rightarrow> scene_event list \<Rightarrow> scene_state" where
  "scene_run s [] = s"
| "scene_run s (e # es) = scene_run (scene_step s e) es"

section \<open>optimizePerformance, scene part\<close>

text \<open>\<open>reducedPositions[i] = positions[i * 2]\<close> for \<open>i < positions.length / 2\<close>
  (the length is even here, so the JS division is exact).\<close>

definition reduce_positions :: "real list \<Rightarrow> real list" where
  "reduce_positions ps = map (\<lambda>i. ps ! (i * 2)) [0..<length ps div 2]"

definition optimize_scene :: "scene_state \<Rightarrow> scene_state" where
  "optimize_scene s =
     (if win_w s < 768 then
        (let s1 = (case stars s of
                     None \<Rightarrow> s
                   | Some st \<Rightarrow> s\<lparr>stars := Some (st\<lparr>spositions := reduce_positions (spositions st)\<rparr>)\<rparr>)
         in s1\<lparr>planets := take 2 (planets s1)\<rparr>)
      else s)"

section \<open>Well-formedness\<close>

text \<open>The store invariant: \<open>planets\<close> references distinct meshes of the store, and
  every planet child of the scene references a mesh of the store.\<close>

definition scene_wf :: "scene_state \<Rightarrow> bool" where
  "scene_wf s \<longleftrightarrow>
     distinct (planets s) \<and> (\<forall>a \<in> set (planets s). a < length (meshes s))
     \<and> (\<forall>a. PlanetObj a \<in> set (children s) \<longrightarrow> a < length (meshes s))"

section \<open>Lemmas on the frame update\<close>

lemma gen_positions_rng [simp]: "snd (gen_positions n g) = g\<lparr>pos := pos g + n\<rparr>"
  by (induction n arbitrary: g) (simp_all add: split_beta math_random_def)

lemma init3DScene_rng [simp]: "snd (init3DScene g s) = g\<lparr>pos := Suc (pos g + star_count * 3)\<rparr>"
  by (simp add: init3DScene_def createStarfield_def split_beta Let_def math_random_def)

lemma animate_loading: "is_loading s \<Longrightarrow> animate t s = s\<lparr>frames := Suc (frames s)\<rparr>"
  by (simp add: animate_def)

lemma animate_planets_length [simp]: "length (animate_planets t idx as ms) = length ms"
  by (induction as arbitrary: idx ms) auto

lemma animate_planets_other:
  "a \<notin> set as \<Longrightarrow> animate_planets t idx as ms ! a = ms ! a"
  by (induction as arbitrary: idx ms) auto

lemma animate_planets_nth:
  "distinct as \<Longrightarrow> \<forall>a \<in> set as. a < length ms \<Longrightarrow> k < length as \<Longrightarrow>
     animate_planets t idx as ms ! (as ! k) = update_planet t (idx + k) (ms ! (as ! k))"
proof (induction as arbitrary: idx ms k)
  case Nil
  then show ?case by simp
next
  case (Cons b as)
  show ?case
  proof (cases k)
    case 0
    with Cons.prems show ?thesis by (simp add: animate_planets_other)
  next
    case (Suc j)
    with Cons.prems have "as ! j \<noteq> b" "j < length as"
      by (auto simp: nth_mem)
    with Cons.IH [of "ms[b := update_planet t idx (ms ! b)]" j "Suc idx"] Cons.prems Suc
    show ?thesis by simp
  qed
qed

lemma animate_fields [simp]:
  "planets (animate t s) = planets s"
  "children (animate t s) = children s"
  "is_loading (animate t s) = is_loading s"
  "win_w (animate t s) = win_w s"
  "win_h (animate t s) = win_h s"
  "mouse_x (animate t s) = mouse_x s"
  "mouse_y (animate t s) = mouse_y s"
  "length (meshes (animate t s)) = length (meshes s)"
  by (simp_all add: animate_def Let_def split: option.splits)

lemma animate_meshes:
  "meshes (animate t s) =
     (if is_loading s then meshes s else animate_planets t 0 (planets s) (meshes s))"
  by (simp add: animate_def Let_def split: option.splits)

lemma animate_cam_x:
  "cam_x (cam (animate t s)) =
     (if is_loading s then cam_x (cam s) else parallax (win_w s) (mouse_x s) (cam_x (cam s)))"
  by (simp add: animate_def Let_def split: option.splits)

lemma parallax_Some:
  "parallax inner (Some m) (Num p) = Num (p + ((inner / 2 - m) * 0.0001 - p) * 0.05)"
  by (simp add: parallax_def)

lemma parallax_None [simp]: "parallax inner None p = NaN"
  by (simp add: parallax_def)

lemma parallax_NaN [simp]: "parallax inner m NaN = NaN"
  by (simp add: parallax_def)

lemma scene_wf_animate: "scene_wf s \<Longrightarrow> scene_wf (animate t s)"
  by (simp add: scene_wf_def)

lemma animate_run_fields [simp]:
  "planets (animate_run ts s) = planets s"
  "children (animate_run ts s) = children s"
  "win_w (animate_run ts s) = win_w s"
  "length (meshes (animate_run ts s)) = length (meshes s)"
  by (induction ts arbitrary: s) simp_all

lemma animate_run_other:
  "a \<notin> set (planets s) \<Longrightarrow> meshes (animate_run ts s) ! a = meshes s ! a"
  by (induction ts arbitrary: s) (simp_all add: animate_meshes animate_planets_other)

lemma scene_step_nan:
  "cam_x (cam s) = NaN \<Longrightarrow> cam_x (cam (scene_step s e)) = NaN"
  by (cases e) (simp_all add: animate_cam_x mousemove_def onWindowResize_def)

lemma scene_run_nan:
  "cam_x (cam s) = NaN \<Longrightarrow> cam_x (cam (scene_run s es)) = NaN"
  by (induction es arbitrary: s) (simp_all add: scene_step_nan)

lemma optimize_scene_fields:
  "win_w s < 768 \<Longrightarrow>
     planets (optimize_scene s) = take 2 (planets s) \<and> meshes (optimize_scene s) = meshes s
     \<and> children (optimize_scene s) = children s \<and> is_loading (optimize_scene s) = is_loading s"
  by (simp add: optimize_scene_def Let_def split: option.splits)

lemma createPlanets_wf: "scene_wf s \<Longrightarrow> scene_wf (createPlanets s)"
  unfolding scene_wf_def createPlanets_def Let_def
  by (auto simp: less_imp_le)

lemma init3DScene_shape:
  "planets (fst (init3DScene g (scene_empty w h))) = [0, 1, 2, 3]
   \<and> children (fst (init3DScene g (scene_empty w h))) =
       [StarsObj, PlanetObj 0, PlanetObj 1, PlanetObj 2, PlanetObj 3, NebulaObj,
        AmbientLightObj, DirectionalLightObj]
   \<and> meshes (fst (init3DScene g (scene_empty w h))) = map make_planet planet_data
   \<and> is_loading (fst (init3DScene g (scene_empty w h)))
   \<and> mouse_x (fst (init3DScene g (scene_empty w h))) = None"
  by (simp add: init3DScene_def createStarfield_def createPlanets_def createNebula_def
                scene_empty_def planet_data_def split_beta Let_def upt_rec)

section \<open>Scene properties\<close>

text \<open>
  C5. While \<open>isLoading\<close> is set, any number of frames leaves the whole scene as it
  was (stars, planet rotations and positions, nebula time, camera) and only renders:
  the render count grows by the number of frames.
\<close>

theorem animate_run_loading:
  "is_loading s \<Longrightarrow> animate_run ts s = s\<lparr>frames := frames s + length ts\<rparr>"
  by (induction ts arbitrary: s) (simp_all add: animate_loading)

theorem animate_run_loading_witness:
  "is_loading (scene_empty 1280 720)
   \<and> animate_run [0, 16, 33] (scene_empty 1280 720) = (scene_empty 1280 720)\<lparr>frames := 3\<rparr>"
proof -
  have l: "is_loading (scene_empty 1280 720)" by (simp add: scene_empty_def)
  show ?thesis using animate_run_loading [OF l, of "[0, 16, 33]"] l
    by (simp add: scene_empty_def)
qed

text \<open>
  C6. Once loading is over, a frame at time \<open>t\<close> updates the \<open>k\<close>-th planet of the
  \<open>planets\<close> array exactly as the loop body says: its y-rotation grows by its speed,
  its x-rotation by half its speed (so each rotation moves in the direction of the
  speed's sign), and its height is \<open>originalY + 2 sin(t / 1000 + k)\<close>; a mesh that
  the array does not reference is left unchanged.
\<close>

theorem animate_planet_update:
  assumes "scene_wf s" and "\<not> is_loading s" and "k < length (planets s)"
  shows "let a = planets s ! k; m = meshes s ! a; m' = meshes (animate t s) ! a
    in rot_y m' = rot_y m + speed m \<and> rot_x m' = rot_x m + speed m * 0.5
     \<and> pos_y m' = original_y m + sin (t * 0.001 + real k) * 2
     \<and> speed m' = speed m \<and> original_y m' = original_y m
     \<and> (\<forall>b. b \<notin> set (planets s) \<longrightarrow> meshes (animate t s) ! b = meshes s ! b)"
  using assms animate_planets_nth [of "planets s" "meshes s" k t 0]
  by (simp add: scene_wf_def animate_meshes update_planet_def Let_def animate_planets_other)

theorem animate_planet_update_witness:
  "let s = (createPlanets (scene_empty 1280 720))\<lparr>is_loading := False\<rparr>
   in rot_y (meshes (animate 0 s) ! 1) = 0.008 \<and> rot_x (meshes (animate 0 s) ! 1) = 0.004"
proof -
  let ?s = "(createPlanets (scene_empty 1280 720))\<lparr>is_loading := False\<rparr>"
  have wf: "scene_wf ?s"
    by (simp add: scene_wf_def createPlanets_def scene_empty_def planet_data_def upt_rec)
  have nl: "\<not> is_loading ?s" by simp
  have k: "1 < length (planets ?s)"
    by (simp add: createPlanets_def scene_empty_def planet_data_def)
  have p1: "planets ?s ! 1 = 1"
    by (simp add: createPlanets_def scene_empty_def planet_data_def upt_rec)
  have m1: "meshes ?s ! 1 = make_planet (planet_data ! 1)"
    by (simp add: createPlanets_def scene_empty_def planet_data_def)
  show ?thesis
    using animate_planet_update [OF wf nl k, of 0] p1 m1
    by (simp add: Let_def make_planet_def planet_data_def)
qed

text \<open>
  C7. Defect: a frame after loading has ended, run before the first \<open>mousemove\<close>
  (\<open>window.mouseX\<close> still \<open>undefined\<close>, as on a touch device or a page the
  pointer never entered), sets the camera's x to \<open>NaN\<close>, and no later frame, pointer
  move, resize or end of loading ever makes it a number again.
\<close>

theorem camera_nan_forever:
  assumes "\<not> is_loading s" and "mouse_x s = None"
  shows "cam_x (cam (scene_run (animate t s) es)) = NaN"
proof -
  have "cam_x (cam (animate t s)) = NaN"
    using assms by (simp add: animate_cam_x)
  then show ?thesis by (rule scene_run_nan)
qed

theorem camera_nan_forever_witness:
  "\<not> is_loading ((scene_empty 1280 720)\<lparr>is_loading := False\<rparr>)
   \<and> mouse_x ((scene_empty 1280 720)\<lparr>is_loading := False\<rparr>) = None
   \<and> cam_x (cam (scene_run (animate 3600 ((scene_empty 1280 720)\<lparr>is_loading := False\<rparr>))
                    [MouseMove 640 360, Frame 3616])) = NaN"
  using camera_nan_forever [of "(scene_empty 1280 720)\<lparr>is_loading := False\<rparr>" 3600
                               "[MouseMove 640 360, Frame 3616]"]
  by (simp add: scene_empty_def)

text \<open>
  C8. With a pointer position known and a finite camera, the parallax is an
  exponential pursuit: after \<open>n\<close> frames at a fixed pointer position the camera's x
  is \<open>target + 0.95^n (x0 - target)\<close>, where
  \<open>target = (innerWidth / 2 - mouseX) * 0.0001\<close>; so it converges to the target.
\<close>

theorem camera_pursuit:
  assumes "\<not> is_loading s" and "mouse_x s = Some m" and "cam_x (cam s) = Num p"
  shows "cam_x (cam (animate_run ts s)) =
    Num ((win_w s / 2 - m) * 0.0001 + 0.95 ^ length ts * (p - (win_w s / 2 - m) * 0.0001))"
  using assms
proof (induction ts arbitrary: s p)
  case Nil
  then show ?case by simp
next
  case (Cons t ts)
  let ?T = "(win_w s / 2 - m) * 0.0001"
  have "cam_x (cam (animate t s)) = Num (?T + 0.95 * (p - ?T))"
    using Cons.prems by (simp add: animate_cam_x parallax_Some field_simps)
  from Cons.IH [OF _ _ this] Cons.prems
  have "cam_x (cam (animate_run ts (animate t s))) =
          Num (?T + 0.95 ^ length ts * (?T + 0.95 * (p - ?T) - ?T))"
    by simp
  then show ?case by (simp add: mult_ac)
qed

theorem camera_pursuit_witness:
  "cam_x (cam (animate_run [0, 16]
     ((scene_empty 1280 720)\<lparr>is_loading := False, mouse_x := Some 640, mouse_y := Some 360\<rparr>)))
   = Num 0"
  using camera_pursuit [of "(scene_empty 1280 720)\<lparr>is_loading := False, mouse_x := Some 640,
                                                    mouse_y := Some 360\<rparr>" 640 0 "[0, 16]"]
  by (simp add: scene_empty_def)

text \<open>
  C9. Defect: on a narrow window \<open>optimizePerformance\<close> cuts the \<open>planets\<close> array
  to its first two entries but leaves every planet in the scene; a planet that was cut
  is still rendered and never moves again, whatever frames follow.
\<close>

theorem truncated_planets_frozen:
  assumes "scene_wf s" and "win_w s < 768"
    and "a \<in> set (planets s)" and "a \<notin> set (take 2 (planets s))"
  shows "meshes (animate_run ts (optimize_scene s)) ! a = meshes s ! a
    \<and> children (animate_run ts (optimize_scene s)) = children s"
proof -
  have "a \<notin> set (planets (optimize_scene s))"
    using optimize_scene_fields [OF assms(2)] assms(4) by simp
  then show ?thesis
    using animate_run_other optimize_scene_fields [OF assms(2)] by simp
qed

theorem truncated_planets_frozen_witness:
  "let s = (createPlanets (scene_empty 375 667))\<lparr>is_loading := False\<rparr>
   in PlanetObj 2 \<in> set (children (animate_run [3600, 3616] (optimize_scene s)))
    \<and> meshes (animate_run [3600, 3616] (optimize_scene s)) ! 2 = make_planet (planet_data ! 2)"
proof -
  let ?s = "(createPlanets (scene_empty 375 667))\<lparr>is_loading := False\<rparr>"
  have wf: "scene_wf ?s"
    by (simp add: scene_wf_def createPlanets_def scene_empty_def planet_data_def upt_rec)
  have w: "win_w ?s < 768" by (simp add: createPlanets_def scene_empty_def Let_def)
  have a: "2 \<in> set (planets ?s)" "2 \<notin> set (take 2 (planets ?s))"
    by (simp_all add: createPlanets_def scene_empty_def planet_data_def upt_rec)
  show ?thesis
    using truncated_planets_frozen [OF wf w a, of "[3600, 3616]"]
    by (simp add: createPlanets_def scene_empty_def planet_data_def upt_rec Let_def)
qed

text \<open>
  A resize sets the camera's aspect to \<open>newWidth / newHeight\<close> and the renderer
  to exactly the new size, and touches nothing else of the scene.
\<close>

theorem onWindowResize_spec:
  "aspect (cam (onWindowResize w h s)) = w / h
   \<and> renderer_size (onWindowResize w h s) = (w, h)
   \<and> cam_x (cam (onWindowResize w h s)) = cam_x (cam s)
   \<and> cam_y (cam (onWindowResize w h s)) = cam_y (cam s)
   \<and> meshes (onWindowResize w h s) = meshes s \<and> planets (onWindowResize w h s) = planets s
   \<and> stars (onWindowResize w h s) = stars s \<and> is_loading (onWindowResize w h s) = is_loading s"
  by (simp add: onWindowResize_def)

text \<open>
  C11. \<open>init3DScene\<close> on any well-formed scene whose store holds \<open>n\<close> meshes: the
  \<open>planets\<close> array gains exactly the four addresses \<open>n\<close> to \<open>n + 3\<close>, which hold the
  four planet meshes of \<open>planetData\<close> in order (each spinning forwards), the existing
  meshes are untouched, the scene's children are the stars, those four planets, the
  nebula and two lights in this order, the nebula is the child whose \<open>time\<close> uniform
  each frame finds, and the result is well formed.
\<close>

theorem init3DScene_wf:
  assumes "scene_wf s"
  shows "planets (fst (init3DScene g s)) = planets s @ [length (meshes s) ..< length (meshes s) + 4]
   \<and> meshes (fst (init3DScene g s)) = meshes s @ map make_planet planet_data
   \<and> children (fst (init3DScene g s)) =
       [StarsObj] @ map PlanetObj [length (meshes s) ..< length (meshes s) + 4]
       @ [NebulaObj, AmbientLightObj, DirectionalLightObj]
   \<and> find has_time_uniform (children (fst (init3DScene g s))) = Some NebulaObj
   \<and> (\<forall>j < 4. 0 < speed (meshes (fst (init3DScene g s)) ! (length (meshes s) + j)))
   \<and> scene_wf (fst (init3DScene g s))"
proof -
  let ?n = "length (meshes s)"
  have l: "length planet_data = 4" by (simp add: planet_data_def)
  have shape: "planets (fst (init3DScene g s)) = planets s @ [?n ..< ?n + 4]"
    "meshes (fst (init3DScene g s)) = meshes s @ map make_planet planet_data"
    "children (fst (init3DScene g s)) =
       [StarsObj] @ map PlanetObj [?n ..< ?n + 4] @ [NebulaObj, AmbientLightObj, DirectionalLightObj]"
    by (simp_all add: init3DScene_def createStarfield_def createPlanets_def createNebula_def
        split_beta Let_def l)
  have pos: "\<forall>d \<in> set planet_data. 0 < pd_speed d" by (simp add: planet_data_def)
  have sp: "\<forall>j < 4. 0 < speed (meshes (fst (init3DScene g s)) ! (?n + j))"
  proof (intro allI impI)
    fix j :: nat assume "j < 4"
    then have "planet_data ! j \<in> set planet_data" using l by simp
    then show "0 < speed (meshes (fst (init3DScene g s)) ! (?n + j))"
      using shape(2) pos \<open>j < 4\<close> l by (simp add: nth_append make_planet_def split: prod.splits)
  qed
  have wf: "scene_wf (fst (init3DScene g s))"
    using assms shape by (auto simp: scene_wf_def l)
  have "find has_time_uniform (map PlanetObj xs @ ys) = find has_time_uniform ys" for xs ys
    by (induction xs) (simp_all add: has_time_uniform_def)
  then show ?thesis using shape sp wf by (simp add: has_time_uniform_def)
qed

theorem init3DScene_wf_witness:
  "planets (fst (init3DScene (const_rng 0) (scene_empty 1280 720))) = [0, 1, 2, 3]
   \<and> scene_wf (fst (init3DScene (const_rng 0) (scene_empty 1280 720)))"
proof -
  have "scene_wf (scene_empty 1280 720)" by (simp add: scene_wf_def scene_empty_def)
  from init3DScene_wf [OF this, of "const_rng 0"] show ?thesis
    by (simp add: scene_empty_def upt_rec)
qed

end
