(* ===== verification/Frames.thy ===== *)
theory Frames
  imports Prelude
begin

text \<open>
  How often \<open>animate\<close> runs. Three drivers exist in \<open>src/script.js\<close>:
  \<open>initializeApp\<close> calls \<open>animate()\<close> once; every call of \<open>animate\<close> starts with
  \<open>requestAnimationFrame(animate)\<close>, so each call queues one call for the next frame;
  and the \<open>visibilitychange\<close> listener calls \<open>renderer.setAnimationLoop(null)\<close> when
  the page is hidden and \<open>renderer.setAnimationLoop(animate)\<close> when it is shown again,
  which makes three.js call \<open>animate\<close> once per frame on top of the queued calls.
  The state counts the queued \<open>animate\<close> callbacks and whether the renderer's loop is
  set; the browser runs no animation frame while the document is hidden. A frame
  returns the number of \<open>animate\<close> calls it makes.
\<close>

record frame_sched =
  raf_pending :: nat
  anim_loop :: bool
  doc_hidden :: bool

text \<open>After \<open>initializeApp\<close>'s direct \<open>animate()\<close>: one callback queued.\<close>

definition frames_init :: frame_sched where
  "frames_init = \<lparr>raf_pending = 1, anim_loop = False, doc_hidden = False\<rparr>"

definition animation_frame :: "frame_sched \<Rightarrow> nat \<times> frame_sched" where
  "animation_frame s =
     (if doc_hidden s then (0, s)
      else (let calls = raf_pending s + (if anim_loop s then 1 else 0)
            in (calls, s\<lparr>raf_pending := calls\<rparr>)))"

definition visibility_change :: "bool \<Rightarrow> frame_sched \<Rightarrow> frame_sched" where
  "visibility_change hidden s =
     (if hidden then s\<lparr>doc_hidden := True, anim_loop := False\<rparr>
      else s\<lparr>doc_hidden := False, anim_loop := True\<rparr>)"

datatype page_event = AnimationFrame | VisibilityChange bool

text \<open>A run of page events; the result lists the \<open>animate\<close> calls of each frame.\<close>

fun frames_run :: "frame_sched \<Rightarrow> page_event list \<Rightarrow> nat list \<times> frame_sched" where
  "frames_run s [] = ([], s)"
| "frames_run s (AnimationFrame # es) =
     (let (c, s1) = animation_frame s; (cs, s2) = frames_run s1 es in (c # cs, s2))"
| "frames_run s (VisibilityChange h # es) = frames_run (visibility_change h s) es"

section \<open>Lemmas\<close>

lemma animation_frame_no_loop:
  "\<not> doc_hidden s \<Longrightarrow> \<not> anim_loop s \<Longrightarrow> animation_frame s = (raf_pending s, s)"
  by (simp add: animation_frame_def)

lemma animation_frame_loop:
  "\<not> doc_hidden s \<Longrightarrow> anim_loop s \<Longrightarrow>
     animation_frame s = (Suc (raf_pending s), s\<lparr>raf_pending := Suc (raf_pending s)\<rparr>)"
  by (simp add: animation_frame_def)

lemma frames_run_loop:
  "\<not> doc_hidden s \<Longrightarrow> anim_loop s \<Longrightarrow>
     fst (frames_run s (replicate n AnimationFrame)) = map (\<lambda>k. raf_pending s + k + 1) [0..<n]"
proof (induction n arbitrary: s)
  case 0
  then show ?case by simp
next
  case (Suc n)
  let ?s1 = "s\<lparr>raf_pending := Suc (raf_pending s)\<rparr>"
  have "fst (frames_run ?s1 (replicate n AnimationFrame)) = map (\<lambda>k. Suc (raf_pending s) + k + 1) [0..<n]"
    using Suc.IH [of ?s1] Suc.prems by simp
  then show ?case
    using Suc.prems by (simp add: animation_frame_loop split_beta map_upt_Suc del: upt_Suc)
qed

section \<open>Properties\<close>

text \<open>
  C12. As long as the page's visibility never changes, every animation frame calls
  \<open>animate\<close> exactly once: the self-rescheduling chain started by
  \<open>initializeApp\<close> is the only driver.
\<close>

theorem frames_steady:
  "frames_run frames_init (replicate n AnimationFrame) = (replicate n 1, frames_init)"
proof (induction n)
  case 0
  then show ?case by simp
next
  case (Suc n)
  then show ?case
    by (simp add: animation_frame_no_loop frames_init_def)
qed

text \<open>
  C13. Defect: hiding the page does not cancel the queued \<open>animate\<close> callbacks, and
  showing it again attaches the renderer's loop on top of them, which queues one more
  callback every frame. After one hide/show cycle from a state with \<open>p\<close> queued
  callbacks, frame \<open>k\<close> calls \<open>animate\<close> \<open>p + k + 1\<close> times: the work per frame
  grows without bound.
\<close>

theorem frames_after_hide_show:
  "fst (frames_run s (VisibilityChange True # VisibilityChange False # replicate n AnimationFrame))
     = map (\<lambda>k. raf_pending s + k + 1) [0..<n]"
  using frames_run_loop [of "visibility_change False (visibility_change True s)" n]
  by (simp add: visibility_change_def)

end
