(* ===== verification/Particles.thy ===== *)
theory Particles
  imports Prelude
begin

text \<open>
  The particle effects of \<open>src/script.js\<close>: \<open>createParticleExplosion\<close> (20 cyan
  particles, 4px, pushed 100 to 150px outwards in one second) and
  \<open>createSuccessParticles\<close> (15 green particles, 6px, 80 to 120px, 1.2 seconds after a
  random delay of up to 0.3 seconds). Both create \<open>div\<close>s, append them to
  \<open>document.body\<close> and start one GSAP tween per particle whose \<open>onComplete\<close>
  removes it.

  The document is a node store: \<open>body\<close> lists the ids of the body's children in
  order (page content as well as particles), \<open>nodes\<close> maps the id of every particle
  ever created to its inline style, and \<open>tweens\<close> lists the running tweens, each with
  its target id, its destination offset, duration and delay. GSAP's interpolation is
  not modelled: a tween either runs or has completed, and \<open>complete_tween j\<close> is the
  completion of the \<open>j\<close>-th running tween, in any order the library chooses.
  \<open>element.remove()\<close> on a node that is not attached does nothing.
\<close>

record particle =
  p_left :: real
  p_top :: real
  p_size :: real
  p_color :: string

record tween =
  tw_target :: nat
  tw_x :: real
  tw_y :: real
  tw_duration :: real
  tw_delay :: real

record dom =
  body :: "nat list"
  nodes :: "nat \<rightharpoonup> particle"
  next_node :: nat
  tweens :: "tween list"

record rect =
  r_left :: real
  r_top :: real
  r_width :: real
  r_height :: real

text \<open>The constants that differ between the two emitters; \<open>ec_delay\<close> is the bound
  of the random delay, for the emitter that draws one.\<close>

record emit_cfg =
  ec_count :: nat
  ec_size :: real
  ec_color :: string
  ec_base :: real
  ec_spread :: real
  ec_duration :: real
  ec_delay :: "real option"

text \<open>Iteration \<open>i\<close> of the \<open>for\<close> loop, \<open>k\<close> iterations left: create the node at
  the element's centre, append it, draw the distance (and the delay), start the tween.\<close>

fun emit_loop :: "emit_cfg \<Rightarrow> real \<Rightarrow> real \<Rightarrow> nat \<Rightarrow> nat \<Rightarrow> rng \<Rightarrow> dom \<Rightarrow> dom \<times> rng" where
  "emit_loop c cx cy i 0 g d = (d, g)"
| "emit_loop c cx cy i (Suc k) g d =
     (let n = next_node d;
          d1 = d\<lparr>nodes := (nodes d)(n \<mapsto> \<lparr>p_left = cx, p_top = cy, p_size = ec_size c,
                                          p_color = ec_color c\<rparr>),
                 next_node := Suc n, body := body d @ [n]\<rparr>;
          angle = (real i / real (ec_count c)) * pi * 2;
          (r, g1) = math_random g;
          distance = ec_base c + r * ec_spread c;
          (dl, g2) = (case ec_delay c of
                        None \<Rightarrow> (0, g1)
                      | Some m \<Rightarrow> (let (r2, g2) = math_random g1 in (r2 * m, g2)));
          tw = \<lparr>tw_target = n, tw_x = cos angle * distance, tw_y = sin angle * distance,
                tw_duration = ec_duration c, tw_delay = dl\<rparr>
      in emit_loop c cx cy (Suc i) k g2 (d1\<lparr>tweens := tweens d1 @ [tw]\<rparr>))"

definition emit :: "emit_cfg \<Rightarrow> rect \<Rightarrow> rng \<Rightarrow> dom \<Rightarrow> dom \<times> rng" where
  "emit c r g d =
     emit_loop c (r_left r + r_width r / 2) (r_top r + r_height r / 2) 0 (ec_count c) g d"

definition explosion_cfg :: emit_cfg where
  "explosion_cfg = \<lparr>ec_count = 20, ec_size = 4, ec_color = ''#00d4ff'', ec_base = 100,
     ec_spread = 50, ec_duration = 1, ec_delay = None\<rparr>"

definition success_cfg :: emit_cfg where
  "success_cfg = \<lparr>ec_count = 15, ec_size = 6, ec_color = ''#4ade80'', ec_base = 80,
     ec_spread = 40, ec_duration = 1.2, ec_delay = Some 0.3\<rparr>"

definition createParticleExplosion :: "rect \<Rightarrow> rng \<Rightarrow> dom \<Rightarrow> dom \<times> rng" where
  "createParticleExplosion r g d = emit explosion_cfg r g d"

definition createSuccessParticles :: "rect \<Rightarrow> rng \<Rightarrow> dom \<Rightarrow> dom \<times> rng" where
  "createSuccessParticles r g d = emit success_cfg r g d"

text \<open>The \<open>j\<close>-th running tween completes: it leaves the list and its
  \<open>onComplete\<close> removes its target from the body.\<close>

definition complete_tween :: "nat \<Rightarrow> dom \<Rightarrow> dom" where
  "complete_tween j d =
     (if j < length (tweens d) then
        (let t = tw_target (tweens d ! j)
         in d\<lparr>tweens := take j (tweens d) @ drop (Suc j) (tweens d),
              body := filter (\<lambda>n. n \<noteq> t) (body d)\<rparr>)
      else d)"

fun complete_run :: "nat list \<Rightarrow> dom \<Rightarrow> dom" where
  "complete_run [] d = d"
| "complete_run (j # js) d = complete_run js (complete_tween j d)"

text \<open>A completion order for \<open>n\<close> running tweens: the \<open>k\<close>-th completion picks one
  of the \<open>n - k\<close> tweens still running.\<close>

definition valid_order :: "nat \<Rightarrow> nat list \<Rightarrow> bool" where
  "valid_order n js \<longleftrightarrow> length js = n \<and> (\<forall>k < n. js ! k < n - k)"

text \<open>The body's page content (children that are not particles) and its particles.\<close>

definition page_nodes :: "dom \<Rightarrow> nat list" where
  "page_nodes d = filter (\<lambda>n. n \<notin> dom (nodes d)) (body d)"

definition attached_particles :: "dom \<Rightarrow> nat list" where
  "attached_particles d = filter (\<lambda>n. n \<in> dom (nodes d)) (body d)"

text \<open>The store invariant: ids are fresh below \<open>next_node\<close>, the body has no
  duplicates, and the running tweens target exactly the attached particles, one each.\<close>

definition dom_wf :: "dom \<Rightarrow> bool" where
  "dom_wf d \<longleftrightarrow>
     distinct (body d) \<and> (\<forall>n \<in> set (body d). n < next_node d)
     \<and> (\<forall>n \<in> dom (nodes d). n < next_node d)
     \<and> distinct (map tw_target (tweens d))
     \<and> set (map tw_target (tweens d)) = set (attached_particles d)"

text \<open>The tween iteration \<open>i + j\<close> of an emitter starts, in closed form: the
  \<open>Math.random\<close> calls per particle are one (distance) or two (distance, delay).\<close>

definition draws_per_particle :: "emit_cfg \<Rightarrow> nat" where
  "draws_per_particle c = (case ec_delay c of None \<Rightarrow> 1 | Some _ \<Rightarrow> 2)"

definition emitted_tween :: "emit_cfg \<Rightarrow> nat \<Rightarrow> rng \<Rightarrow> nat \<Rightarrow> nat \<Rightarrow> tween" where
  "emitted_tween c n g i j =
     (let angle = (real (i + j) / real (ec_count c)) * pi * 2;
          distance = ec_base c + draws g (pos g + draws_per_particle c * j) * ec_spread c
      in \<lparr>tw_target = n + j, tw_x = cos angle * distance, tw_y = sin angle * distance,
          tw_duration = ec_duration c,
          tw_delay = (case ec_delay c of
                        None \<Rightarrow> 0
                      | Some m \<Rightarrow> draws g (pos g + draws_per_particle c * j + 1) * m)\<rparr>)"

section \<open>Lemmas\<close>

lemma emit_loop_struct:
  "body (fst (emit_loop c cx cy i k g d)) = body d @ [next_node d..<next_node d + k]
   \<and> next_node (fst (emit_loop c cx cy i k g d)) = next_node d + k
   \<and> nodes (fst (emit_loop c cx cy i k g d)) =
       (\<lambda>n. if next_node d \<le> n \<and> n < next_node d + k
            then Some \<lparr>p_left = cx, p_top = cy, p_size = ec_size c, p_color = ec_color c\<rparr>
            else nodes d n)
   \<and> map tw_target (tweens (fst (emit_loop c cx cy i k g d))) =
       map tw_target (tweens d) @ [next_node d..<next_node d + k]"
proof (induction k arbitrary: i g d)
  case 0
  then show ?case by (auto simp: fun_eq_iff)
next
  case (Suc k)
  show ?case
    by (simp add: Suc split_beta Let_def upt_conv_Cons fun_eq_iff split: option.split)
qed

lemma attached_emit_loop:
  assumes "\<forall>n \<in> set (body d). n < next_node d"
  shows "attached_particles (fst (emit_loop c cx cy i k g d)) =
           attached_particles d @ [next_node d..<next_node d + k]"
  and "page_nodes (fst (emit_loop c cx cy i k g d)) = page_nodes d"
  using assms emit_loop_struct [of c cx cy i k g d]
  by (auto simp: attached_particles_def page_nodes_def dom_def intro!: filter_cong)

lemma dom_wf_emit_loop:
  assumes "dom_wf d"
  shows "dom_wf (fst (emit_loop c cx cy i k g d))"
proof -
  have lt: "\<forall>n \<in> set (body d). n < next_node d" using assms by (simp add: dom_wf_def)
  have tg: "set (map tw_target (tweens d)) \<subseteq> {..<next_node d}"
    using assms by (auto simp: dom_wf_def attached_particles_def)
  show ?thesis
    using assms emit_loop_struct [of c cx cy i k g d] attached_emit_loop(1) [OF lt, of c cx cy i k g] tg
    unfolding dom_wf_def
    by (auto simp: dom_def split: if_splits)
qed

lemma set_take_drop_nth:
  assumes "distinct xs" "j < length xs"
  shows "set (take j xs @ drop (Suc j) xs) = set xs - {xs ! j}"
  and "distinct (take j xs @ drop (Suc j) xs)"
proof -
  let ?a = "take j xs" and ?b = "drop (Suc j) xs" and ?x = "xs ! j"
  have xs: "xs = ?a @ ?x # ?b"
    using assms(2) by (rule id_take_nth_drop)
  have d: "distinct (?a @ ?x # ?b)"
    using assms(1) xs by metis
  have "set xs = set (?a @ ?x # ?b)"
    using xs by metis
  with d show "set (?a @ ?b) = set xs - {?x}" by auto
  from d show "distinct (?a @ ?b)" by simp
qed

lemma complete_tween_props:
  assumes wf: "dom_wf d" and j: "j < length (tweens d)"
  shows "dom_wf (complete_tween j d)"
    and "length (tweens (complete_tween j d)) = length (tweens d) - 1"
    and "page_nodes (complete_tween j d) = page_nodes d"
proof -
  let ?t = "tw_target (tweens d ! j)"
  let ?ts = "map tw_target (tweens d)"
  have ts: "distinct ?ts" "j < length ?ts" using wf j by (simp_all add: dom_wf_def)
  have tgt: "map tw_target (tweens (complete_tween j d)) = take j ?ts @ drop (Suc j) ?ts"
    using j by (simp add: complete_tween_def Let_def take_map drop_map)
  have t_att: "?t \<in> set (attached_particles d)"
    using wf j by (auto simp: dom_wf_def)
  then have t_dom: "?t \<in> dom (nodes d)" by (simp add: attached_particles_def)
  have body': "body (complete_tween j d) = filter (\<lambda>n. n \<noteq> ?t) (body d)"
    and nodes': "nodes (complete_tween j d) = nodes d"
    and next': "next_node (complete_tween j d) = next_node d"
    using j by (simp_all add: complete_tween_def Let_def)
  have att': "set (attached_particles (complete_tween j d)) = set (attached_particles d) - {?t}"
    using body' nodes' by (auto simp: attached_particles_def)
  show "dom_wf (complete_tween j d)"
    using wf set_take_drop_nth [OF ts] tgt att' body' nodes' next'
    by (simp add: dom_wf_def nth_map [OF j])
  show "length (tweens (complete_tween j d)) = length (tweens d) - 1"
    using j by (simp add: complete_tween_def Let_def)
  show "page_nodes (complete_tween j d) = page_nodes d"
    using body' nodes' t_dom by (auto simp: page_nodes_def intro!: filter_cong)
qed

lemma valid_order_Cons:
  "valid_order n (j # js) \<longleftrightarrow> n = Suc (length js) \<and> j < n \<and> valid_order (n - 1) js"
  unfolding valid_order_def
  by (auto simp: less_Suc_eq_0_disj all_conj_distrib nth_Cons' split: if_splits)

lemma complete_run_props:
  "dom_wf d \<Longrightarrow> valid_order (length (tweens d)) js \<Longrightarrow>
     dom_wf (complete_run js d) \<and> tweens (complete_run js d) = []
     \<and> page_nodes (complete_run js d) = page_nodes d"
proof (induction js arbitrary: d)
  case Nil
  then show ?case by (simp add: valid_order_def)
next
  case (Cons j js)
  have vo: "length (tweens d) = Suc (length js) \<and> j < length (tweens d)
      \<and> valid_order (length (tweens d) - 1) js"
    using Cons.prems(2) unfolding valid_order_Cons .
  then have j: "j < length (tweens d)" and rest: "valid_order (length (tweens d) - 1) js"
    by blast+
  let ?d1 = "complete_tween j d"
  have "valid_order (length (tweens ?d1)) js"
    using rest complete_tween_props(2) [OF Cons.prems(1) j] by simp
  from Cons.IH [OF complete_tween_props(1) [OF Cons.prems(1) j] this]
       complete_tween_props(3) [OF Cons.prems(1) j]
  show ?case by simp
qed

lemma dom_wf_quiet_body:
  "dom_wf d \<Longrightarrow> tweens d = [] \<Longrightarrow> body d = page_nodes d"
  unfolding dom_wf_def page_nodes_def attached_particles_def
  by (auto simp: filter_id_conv filter_empty_conv)

lemma emit_loop_step:
  "emit_loop c cx cy i (Suc k) g d =
     emit_loop c cx cy (Suc i) k (g\<lparr>pos := pos g + draws_per_particle c\<rparr>)
       (d\<lparr>nodes := (nodes d)(next_node d \<mapsto> \<lparr>p_left = cx, p_top = cy, p_size = ec_size c,
                                               p_color = ec_color c\<rparr>),
          next_node := Suc (next_node d), body := body d @ [next_node d],
          tweens := tweens d @ [emitted_tween c (next_node d) g i 0]\<rparr>)"
  by (cases "ec_delay c")
     (simp_all add: Let_def split_beta math_random_def emitted_tween_def draws_per_particle_def)

lemma emitted_tween_shift:
  "emitted_tween c (Suc n) (g\<lparr>pos := pos g + draws_per_particle c\<rparr>) (Suc i) j =
     emitted_tween c n g i (Suc j)"
proof -
  have "pos g + draws_per_particle c + draws_per_particle c * j = pos g + draws_per_particle c * Suc j"
    by simp
  then show ?thesis
    unfolding emitted_tween_def Let_def by (cases "ec_delay c") (simp_all add: add.assoc)
qed

lemma emit_loop_tweens:
  "tweens (fst (emit_loop c cx cy i k g d)) =
     tweens d @ map (emitted_tween c (next_node d) g i) [0..<k]
   \<and> snd (emit_loop c cx cy i k g d) = g\<lparr>pos := pos g + draws_per_particle c * k\<rparr>"
proof (induction k arbitrary: i g d)
  case 0
  then show ?case by simp
next
  case (Suc k)
  show ?case
    unfolding emit_loop_step
    using Suc.IH
    by (simp add: emitted_tween_shift map_upt_Suc del: upt_Suc)
qed

lemma emit_particles_removed:
  assumes "dom_wf d" and "tweens d = []" and "valid_order (ec_count c) js"
  shows "length (attached_particles (fst (emit c r g d))) = ec_count c
    \<and> length (body (fst (emit c r g d))) = length (body d) + ec_count c
    \<and> body (complete_run js (fst (emit c r g d))) = body d
    \<and> tweens (complete_run js (fst (emit c r g d))) = []"
proof -
  let ?d1 = "fst (emit c r g d)"
  have lt: "\<forall>n \<in> set (body d). n < next_node d" using assms(1) by (simp add: dom_wf_def)
  have att0: "attached_particles d = []"
    using assms(1,2) by (simp add: dom_wf_def)
  have wf1: "dom_wf ?d1" unfolding emit_def by (rule dom_wf_emit_loop [OF assms(1)])
  have len1: "length (tweens ?d1) = ec_count c"
    using emit_loop_struct [of c _ _ 0 "ec_count c" g d] assms(2)
    by (simp add: emit_def flip: length_map [of tw_target])
  have run: "dom_wf (complete_run js ?d1) \<and> tweens (complete_run js ?d1) = []
      \<and> page_nodes (complete_run js ?d1) = page_nodes ?d1"
    using complete_run_props [OF wf1] assms(3) len1 by simp
  have "body (complete_run js ?d1) = page_nodes d"
    using run dom_wf_quiet_body [of "complete_run js ?d1"] attached_emit_loop(2) [OF lt]
    by (simp add: emit_def)
  moreover have "body d = page_nodes d"
    using dom_wf_quiet_body [OF assms(1,2)] .
  ultimately show ?thesis
    using run attached_emit_loop(1) [OF lt] att0 emit_loop_struct
    by (simp add: emit_def)
qed

lemma emit_tween_nth:
  "j < ec_count c \<Longrightarrow>
     tweens (fst (emit c r g d)) ! (length (tweens d) + j) = emitted_tween c (next_node d) g 0 j"
  using emit_loop_tweens [of c _ _ 0 "ec_count c" g d] by (simp add: emit_def nth_append)

section \<open>Properties\<close>

text \<open>
  C14. \<open>createParticleExplosion\<close> on a quiet page (no tween running) attaches
  exactly 20 new particles to the body, and whatever order their 20 tweens complete
  in, once all have completed the body is exactly what it was before: every particle
  created is removed, and nothing else is.
\<close>

theorem explosion_particles_removed:
  assumes "dom_wf d" and "tweens d = []" and "valid_order 20 js"
  shows "length (attached_particles (fst (createParticleExplosion r g d))) = 20
    \<and> length (body (fst (createParticleExplosion r g d))) = length (body d) + 20
    \<and> body (complete_run js (fst (createParticleExplosion r g d))) = body d
    \<and> tweens (complete_run js (fst (createParticleExplosion r g d))) = []"
  using emit_particles_removed [of d explosion_cfg js r g] assms
  by (simp add: createParticleExplosion_def explosion_cfg_def)

theorem explosion_particles_removed_witness:
  "let d = \<lparr>body = [0, 1], nodes = Map.empty, next_node = 2, tweens = []\<rparr>;
       r = \<lparr>r_left = 100, r_top = 200, r_width = 120, r_height = 40\<rparr>
   in body (complete_run (replicate 20 0) (fst (createParticleExplosion r (const_rng 0.5) d))) = [0, 1]"
proof -
  let ?d = "\<lparr>body = [0, 1], nodes = Map.empty, next_node = 2, tweens = []\<rparr> :: dom"
  have wf: "dom_wf ?d" by (simp add: dom_wf_def attached_particles_def)
  have vo: "valid_order 20 (replicate 20 0)"
    by (simp add: valid_order_def)
  show ?thesis
    using explosion_particles_removed [OF wf _ vo] by (simp add: Let_def)
qed

text \<open>
  C15. Particle destinations: the \<open>j\<close>-th particle of an explosion is sent to angle
  \<open>(j / 20) 2\<pi>\<close> at a distance in \<open>[100, 150)\<close> over one second with no delay;
  the \<open>j\<close>-th success particle to angle \<open>(j / 15) 2\<pi>\<close> at a distance in
  \<open>[80, 120)\<close> over 1.2 seconds after a delay in \<open>[0, 0.3)\<close>; each tween targets the
  node created in its own iteration.
\<close>

theorem emitter_destinations:
  assumes "draws_ok g 30" and "j < 20" and "j' < 15"
  shows "(let tw = tweens (fst (createParticleExplosion r g d)) ! (length (tweens d) + j)
          in \<exists>D. 100 \<le> D \<and> D < 150
             \<and> tw_x tw = cos ((real j / 20) * pi * 2) * D \<and> tw_y tw = sin ((real j / 20) * pi * 2) * D
             \<and> tw_duration tw = 1 \<and> tw_delay tw = 0 \<and> tw_target tw = next_node d + j)
    \<and> (let tw = tweens (fst (createSuccessParticles r g d)) ! (length (tweens d) + j')
          in \<exists>D. 80 \<le> D \<and> D < 120
             \<and> tw_x tw = cos ((real j' / 15) * pi * 2) * D \<and> tw_y tw = sin ((real j' / 15) * pi * 2) * D
             \<and> tw_duration tw = 1.2 \<and> 0 \<le> tw_delay tw \<and> tw_delay tw < 0.3
             \<and> tw_target tw = next_node d + j')"
proof -
  have r1: "0 \<le> draws g (pos g + j)" "draws g (pos g + j) < 1"
    using draws_ok_nth [OF assms(1)] assms(2) by auto
  have r2: "0 \<le> draws g (pos g + 2 * j')" "draws g (pos g + 2 * j') < 1"
    "0 \<le> draws g (pos g + 2 * j' + 1)" "draws g (pos g + 2 * j' + 1) < 1"
    using draws_ok_nth [OF assms(1), of "2 * j'"] draws_ok_nth [OF assms(1), of "2 * j' + 1"] assms(3)
    by (simp_all add: add.assoc)
  have e: "tweens (fst (createParticleExplosion r g d)) ! (length (tweens d) + j)
             = emitted_tween explosion_cfg (next_node d) g 0 j"
    using emit_tween_nth [of j explosion_cfg] assms(2)
    by (simp add: createParticleExplosion_def explosion_cfg_def)
  have s: "tweens (fst (createSuccessParticles r g d)) ! (length (tweens d) + j')
             = emitted_tween success_cfg (next_node d) g 0 j'"
    using emit_tween_nth [of j' success_cfg] assms(3)
    by (simp add: createSuccessParticles_def success_cfg_def)
  let ?D1 = "100 + draws g (pos g + j) * 50" and ?D2 = "80 + draws g (pos g + 2 * j') * 40"
  have "100 \<le> ?D1 \<and> ?D1 < 150" and "80 \<le> ?D2 \<and> ?D2 < 120"
    using r1 r2 by simp_all
  then show ?thesis
    unfolding e s Let_def
    using r2(3,4)
    by (simp add: emitted_tween_def explosion_cfg_def success_cfg_def draws_per_particle_def Let_def)
       (intro conjI exI [of _ ?D1] exI [of _ ?D2]; simp)
qed

theorem emitter_destinations_witness:
  "draws_ok (const_rng 0.5) 30
   \<and> tw_duration (tweens (fst (createSuccessParticles
        \<lparr>r_left = 0, r_top = 0, r_width = 10, r_height = 10\<rparr> (const_rng 0.5)
        \<lparr>body = [], nodes = Map.empty, next_node = 0, tweens = []\<rparr>)) ! 3) = 1.2"
proof -
  have ok: "draws_ok (const_rng 0.5) 30" by simp
  have j: "(0::nat) < 20" and j': "(3::nat) < 15" by simp_all
  note E = emitter_destinations [OF ok j j', of "\<lparr>r_left = 0, r_top = 0, r_width = 10, r_height = 10\<rparr>"
             "\<lparr>body = [], nodes = Map.empty, next_node = 0, tweens = []\<rparr>"]
  from conjunct2 [OF E] ok show ?thesis
    unfolding Let_def by auto
qed

end
