(* ===== verification/Forms.thy ===== *)
theory Forms
  imports Particles
begin

text \<open>
  \<open>initFormHandling\<close> of \<open>src/script.js\<close>: focus and blur animations of the form
  fields, and the simulated submission: on \<open>submit\<close> the button's label becomes
  \<open>Transmitting...\<close>; 2 seconds later it becomes \<open>Message Sent! \<close> followed by a
  rocket emoji and success particles are emitted; 3 seconds after that the form is reset
  and the label restored to the text it had when the button was pressed.

  A field group is its input's value and the two things its tweens set: whether the label
  is raised (\<open>y: -20, scale: 0.8\<close>, cyan) and whether the underline is full width. The
  tweens are modelled by their end states. The two timer callbacks are values of
  \<open>form_cb\<close> carrying the \<open>originalText\<close> their closure captured, queued on the
  virtual-time scheduler of \<open>Prelude\<close>. The press pulse tween on the button
  (\<open>scale: 0.95\<close>, yoyo) ends where it started and is not modelled. Text is a HOL
  \<open>string\<close>; the emoji is written as its UTF-8 bytes.

  A run is a list of events: user actions at the current time, \<open>Wait d\<close> (the user
  does nothing for \<open>d\<close> ms, which is only possible if no timer falls due before),
  \<open>Fire\<close> (the earliest pending timer runs, the clock moves to its due time) and
  \<open>TweenDone j\<close> (a particle tween completes). A run that waits past a due timer or
  fires with none pending is not a run of the page: \<open>form_run\<close> returns \<open>None\<close>.
\<close>

record form_group =
  fg_value :: string
  fg_label_raised :: bool
  fg_border_full :: bool

datatype form_cb = ShowSent string | ResetForm string

record form_state =
  groups :: "form_group list"
  submit_label :: string
  timers :: "form_cb sched"
  fdom :: dom
  frng :: rng
  btn_rect :: rect

definition transmitting_text :: string where
  "transmitting_text = ''Transmitting...''"

definition sent_text :: string where
  "sent_text = ''Message Sent! '' @ [CHR 0xF0, CHR 0x9F, CHR 0x9A, CHR 0x80]"

definition send_text :: string where
  "send_text = ''Send Message''"

section \<open>Handlers\<close>

text \<open>\<open>input.addEventListener('focus', ...)\<close>: underline to 100%, label raised.\<close>

definition on_focus :: "form_group \<Rightarrow> form_group" where
  "on_focus g = g\<lparr>fg_border_full := True, fg_label_raised := True\<rparr>"

text \<open>\<open>blur\<close>: only an empty field lowers its label and clears its underline.\<close>

definition on_blur :: "form_group \<Rightarrow> form_group" where
  "on_blur g = (if fg_value g = [] then g\<lparr>fg_border_full := False, fg_label_raised := False\<rparr> else g)"

text \<open>The user types into a field (not code of the script: the environment).\<close>

definition on_input :: "string \<Rightarrow> form_group \<Rightarrow> form_group" where
  "on_input v g = g\<lparr>fg_value := v\<rparr>"

text \<open>\<open>form.reset()\<close> empties the field; the reset tweens lower the label and clear
  the underline.\<close>

definition reset_group :: "form_group \<Rightarrow> form_group" where
  "reset_group g = g\<lparr>fg_value := [], fg_label_raised := False, fg_border_full := False\<rparr>"

text \<open>The \<open>submit\<close> listener: capture the label, show the sending text, start the
  2-second timer.\<close>

definition on_submit :: "form_state \<Rightarrow> form_state" where
  "on_submit s =
     (let original = submit_label s
      in s\<lparr>submit_label := transmitting_text,
           timers := snd (set_timeout (ShowSent original) 2000 (timers s))\<rparr>)"

text \<open>The two timer callbacks.\<close>

fun run_cb :: "form_cb \<Rightarrow> form_state \<Rightarrow> form_state" where
  "run_cb (ShowSent original) s =
     (let (d, g) = createSuccessParticles (btn_rect s) (frng s) (fdom s)
      in s\<lparr>submit_label := sent_text, fdom := d, frng := g,
           timers := snd (set_timeout (ResetForm original) 3000 (timers s))\<rparr>)"
| "run_cb (ResetForm original) s =
     s\<lparr>groups := map reset_group (groups s), submit_label := original\<rparr>"

datatype form_event =
    Focus nat | Blur nat | Input nat string | Submit
  | Wait nat | Fire | TweenDone nat

definition update_group :: "nat \<Rightarrow> (form_group \<Rightarrow> form_group) \<Rightarrow> form_state \<Rightarrow> form_state" where
  "update_group i f s =
     (if i < length (groups s) then s\<lparr>groups := (groups s)[i := f (groups s ! i)]\<rparr> else s)"

fun form_step :: "form_state \<Rightarrow> form_event \<Rightarrow> form_state option" where
  "form_step s (Focus i) = Some (update_group i on_focus s)"
| "form_step s (Blur i) = Some (update_group i on_blur s)"
| "form_step s (Input i v) = Some (update_group i (on_input v) s)"
| "form_step s Submit = Some (on_submit s)"
| "form_step s (Wait d) =
     (if (\<forall>e \<in> set (queue (timers s)). now (timers s) + d \<le> fst (snd e))
      then Some (s\<lparr>timers := (timers s)\<lparr>now := now (timers s) + d\<rparr>\<rparr>) else None)"
| "form_step s Fire =
     (case pop_timer (timers s) of
        None \<Rightarrow> None
      | Some (cb, q) \<Rightarrow> Some (run_cb cb (s\<lparr>timers := q\<rparr>)))"
| "form_step s (TweenDone j) = Some (s\<lparr>fdom := complete_tween j (fdom s)\<rparr>)"

fun form_run :: "form_state \<Rightarrow> form_event list \<Rightarrow> form_state option" where
  "form_run s [] = Some s"
| "form_run s (e # es) = (case form_step s e of None \<Rightarrow> None | Some s' \<Rightarrow> form_run s' es)"


section \<open>The submission as an abstract state machine\<close>

text \<open>The machine the spec describes: \<open>Idle \<rightarrow> Sending \<rightarrow> Sent \<rightarrow> Idle\<close>. A
  concrete state is in phase \<open>p\<close> for the resting label \<open>L\<close> when its label and its
  timer queue are those of \<open>p\<close>.\<close>

datatype phase = Idle | Sending | Sent

definition phase_of :: "string \<Rightarrow> form_state \<Rightarrow> phase option" where
  "phase_of L s =
     (case map (snd \<circ> snd) (queue (timers s)) of
        [] \<Rightarrow> (if submit_label s = L then Some Idle else None)
      | [ShowSent l] \<Rightarrow> (if l = L \<and> submit_label s = transmitting_text then Some Sending else None)
      | [ResetForm l] \<Rightarrow> (if l = L \<and> submit_label s = sent_text then Some Sent else None)
      | _ \<Rightarrow> None)"

fun phase_step :: "phase \<Rightarrow> form_event \<Rightarrow> phase" where
  "phase_step Idle Submit = Sending"
| "phase_step Sending Fire = Sent"
| "phase_step Sent Fire = Idle"
| "phase_step p _ = p"

text \<open>The discipline under which the page behaves as the machine: the button is
  pressed only while the machine is idle.\<close>

definition allowed :: "phase \<Rightarrow> form_event \<Rightarrow> bool" where
  "allowed p e \<longleftrightarrow> (e = Submit \<longrightarrow> p = Idle)"

definition groups_consistent :: "form_state \<Rightarrow> bool" where
  "groups_consistent s \<longleftrightarrow> (\<forall>g \<in> set (groups s). fg_border_full g = fg_label_raised g)"

definition form_init :: "nat \<Rightarrow> dom \<Rightarrow> rng \<Rightarrow> rect \<Rightarrow> form_state" where
  "form_init n d g r =
     \<lparr>groups = replicate n \<lparr>fg_value = [], fg_label_raised = False, fg_border_full = False\<rparr>,
      submit_label = send_text, timers = sched_init, fdom = d, frng = g, btn_rect = r\<rparr>"

section \<open>Lemmas\<close>

lemma pop_timer_single:
  "queue s = [e] \<Longrightarrow>
     pop_timer s = Some (snd (snd e), s\<lparr>now := max (now s) (fst (snd e)), queue := []\<rparr>)"
  by (simp add: pop_timer_eq)

lemma update_group_fields [simp]:
  "submit_label (update_group i f s) = submit_label s"
  "timers (update_group i f s) = timers s"
  by (simp_all add: update_group_def)

lemma phase_of_Idle: "phase_of L s = Some Idle \<longleftrightarrow> queue (timers s) = [] \<and> submit_label s = L"
  by (auto simp: phase_of_def split: list.splits form_cb.splits if_splits)

lemma phase_of_Sending:
  "phase_of L s = Some Sending \<longleftrightarrow>
     (\<exists>i t. queue (timers s) = [(i, t, ShowSent L)]) \<and> submit_label s = transmitting_text"
  by (auto simp: phase_of_def split: list.splits form_cb.splits if_splits)

lemma phase_of_Sent:
  "phase_of L s = Some Sent \<longleftrightarrow>
     (\<exists>i t. queue (timers s) = [(i, t, ResetForm L)]) \<and> submit_label s = sent_text"
  by (auto simp: phase_of_def split: list.splits form_cb.splits if_splits)

lemma phase_of_frame:
  assumes "submit_label s' = submit_label s" and "queue (timers s') = queue (timers s)"
  shows "phase_of L s' = phase_of L s"
  unfolding phase_of_def assms ..

lemma phase_frame_step:
  assumes "phase_of L s = Some p"
    and "submit_label s' = submit_label s" and "queue (timers s') = queue (timers s)"
  shows "phase_of L s' = Some p"
  using assms(1) phase_of_frame [OF assms(2,3), of L] by simp

lemma form_step_no_submit_idle:
  assumes "queue (timers s) = []" and "e \<noteq> Submit" and "form_step s e = Some s'"
  shows "submit_label s' = submit_label s \<and> queue (timers s') = []"
  using assms by (cases e) (auto simp: pop_timer_empty split: if_splits)

lemma form_run_no_submit_idle:
  "queue (timers s) = [] \<Longrightarrow> Submit \<notin> set es \<Longrightarrow> form_run s es = Some s' \<Longrightarrow>
     submit_label s' = submit_label s \<and> queue (timers s') = []"
proof (induction es arbitrary: s)
  case Nil
  then show ?case by simp
next
  case (Cons e es)
  then obtain s1 where s1: "form_step s e = Some s1" and r: "form_run s1 es = Some s'"
    by (auto split: option.splits)
  from form_step_no_submit_idle [OF Cons.prems(1) _ s1] Cons.prems(2)
  have "submit_label s1 = submit_label s \<and> queue (timers s1) = []" by auto
  with Cons.IH [of s1] Cons.prems(2) r show ?case by simp
qed

lemma group_consistent_update:
  assumes "\<forall>g \<in> set gs. fg_border_full g = fg_label_raised g"
    and "\<forall>g. fg_border_full g = fg_label_raised g \<longrightarrow> fg_border_full (f g) = fg_label_raised (f g)"
  shows "\<forall>g \<in> set (gs[i := f (gs ! i)]). fg_border_full g = fg_label_raised g"
proof (cases "i < length gs")
  case True
  then have "gs ! i \<in> set gs" by simp
  with assms show ?thesis by (auto dest: set_update_subset_insert [THEN subsetD])
next
  case False
  with assms(1) show ?thesis by (simp add: list_update_beyond)
qed

lemma update_group_consistent:
  assumes "groups_consistent s"
    and "\<forall>g. fg_border_full g = fg_label_raised g \<longrightarrow> fg_border_full (f g) = fg_label_raised (f g)"
  shows "groups_consistent (update_group i f s)"
  using group_consistent_update [OF assms(1) [unfolded groups_consistent_def] assms(2), of i]
    assms(1)
  by (simp add: groups_consistent_def update_group_def)

lemma handlers_consistent:
  "\<forall>g. fg_border_full g = fg_label_raised g \<longrightarrow> fg_border_full (on_focus g) = fg_label_raised (on_focus g)"
  "\<forall>g. fg_border_full g = fg_label_raised g \<longrightarrow> fg_border_full (on_blur g) = fg_label_raised (on_blur g)"
  "\<forall>g. fg_border_full g = fg_label_raised g \<longrightarrow> fg_border_full (on_input v g) = fg_label_raised (on_input v g)"
  by (simp_all add: on_focus_def on_blur_def on_input_def)

lemma form_step_consistent:
  assumes "groups_consistent s" and "form_step s e = Some s'"
  shows "groups_consistent s'"
proof (cases e)
  case Fire
  with assms obtain cb q where "pop_timer (timers s) = Some (cb, q)" "s' = run_cb cb (s\<lparr>timers := q\<rparr>)"
    by (auto split: option.splits)
  with assms(1) show ?thesis
    by (cases cb) (auto simp: groups_consistent_def split_beta reset_group_def)
next
  case (Focus i)
  with assms(2) have "s' = update_group i on_focus s" by simp
  then show ?thesis using update_group_consistent [OF assms(1) handlers_consistent(1)] by simp
next
  case (Blur i)
  with assms(2) have "s' = update_group i on_blur s" by simp
  then show ?thesis using update_group_consistent [OF assms(1) handlers_consistent(2)] by simp
next
  case (Input i v)
  with assms(2) have "s' = update_group i (on_input v) s" by simp
  then show ?thesis using update_group_consistent [OF assms(1) handlers_consistent(3)] by simp
next
  case Submit
  with assms show ?thesis by (auto simp: groups_consistent_def on_submit_def)
next
  case (Wait d)
  with assms show ?thesis by (auto simp: groups_consistent_def split: if_splits)
next
  case (TweenDone j)
  with assms show ?thesis by (auto simp: groups_consistent_def)
qed

section \<open>Properties\<close>



text \<open>
  C17. Refinement: as long as the button is pressed only while idle, the form
  implements the spec's state machine \<open>Idle \<rightarrow> Sending \<rightarrow> Sent \<rightarrow> Idle\<close>: every
  event maps a state in phase \<open>p\<close> to a state in phase \<open>phase_step p e\<close>, where
  the phases are read off the button label and the pending timer.
\<close>

theorem form_refines_phases:
  assumes "phase_of L s = Some p" and "allowed p e" and "form_step s e = Some s'"
  shows "phase_of L s' = Some (phase_step p e)"
proof (cases e)
  case Submit
  with assms(1,2) have "queue (timers s) = [] \<and> submit_label s = L"
    by (simp add: allowed_def phase_of_Idle)
  with assms(3) Submit show ?thesis
    using assms(2) by (auto simp: allowed_def on_submit_def set_timeout_def phase_of_Sending)
next
  case Fire
  show ?thesis
  proof (cases p)
    case Idle
    with assms(1,3) Fire show ?thesis by (simp add: phase_of_Idle pop_timer_empty)
  next
    case Sending
    with assms(1) obtain i t where "queue (timers s) = [(i, t, ShowSent L)]"
      "submit_label s = transmitting_text" by (auto simp: phase_of_Sending)
    with assms(3) Fire Sending show ?thesis
      by (auto simp: pop_timer_single split_beta set_timeout_def phase_of_Sent)
  next
    case Sent
    with assms(1) obtain i t where "queue (timers s) = [(i, t, ResetForm L)]"
      "submit_label s = sent_text" by (auto simp: phase_of_Sent)
    with assms(3) Fire Sent show ?thesis
      by (auto simp: pop_timer_single phase_of_Idle)
  qed
next
  case (Wait d)
  with assms(3) have "submit_label s' = submit_label s" "queue (timers s') = queue (timers s)"
    by (auto split: if_splits)
  then have "phase_of L s' = Some p" by (rule phase_frame_step [OF assms(1)])
  with Wait show ?thesis by (cases p) simp_all
next
  case (Focus i)
  with assms(3) have "submit_label s' = submit_label s" "queue (timers s') = queue (timers s)"
    by auto
  then have "phase_of L s' = Some p" by (rule phase_frame_step [OF assms(1)])
  with Focus show ?thesis by (cases p) simp_all
next
  case (Blur i)
  with assms(3) have "submit_label s' = submit_label s" "queue (timers s') = queue (timers s)"
    by auto
  then have "phase_of L s' = Some p" by (rule phase_frame_step [OF assms(1)])
  with Blur show ?thesis by (cases p) simp_all
next
  case (Input i v)
  with assms(3) have "submit_label s' = submit_label s" "queue (timers s') = queue (timers s)"
    by auto
  then have "phase_of L s' = Some p" by (rule phase_frame_step [OF assms(1)])
  with Input show ?thesis by (cases p) simp_all
next
  case (TweenDone j)
  with assms(3) have "submit_label s' = submit_label s" "queue (timers s') = queue (timers s)"
    by auto
  then have "phase_of L s' = Some p" by (rule phase_frame_step [OF assms(1)])
  with TweenDone show ?thesis by (cases p) simp_all
qed

theorem form_refines_phases_witness:
  "let s = form_init 2 \<lparr>body = [], nodes = Map.empty, next_node = 0, tweens = []\<rparr>
             (const_rng 0.5) \<lparr>r_left = 0, r_top = 0, r_width = 100, r_height = 40\<rparr>
   in phase_of send_text (on_submit s) = Some Sending"
proof -
  let ?s = "form_init 2 \<lparr>body = [], nodes = Map.empty, next_node = 0, tweens = []\<rparr>
             (const_rng 0.5) \<lparr>r_left = 0, r_top = 0, r_width = 100, r_height = 40\<rparr>"
  have i: "phase_of send_text ?s = Some Idle"
    by (simp add: phase_of_Idle form_init_def sched_init_def)
  have a: "allowed Idle Submit" by (simp add: allowed_def)
  show ?thesis
    using form_refines_phases [OF i a, of "on_submit ?s"] by simp
qed

text \<open>
  C18. Defect: the button is not disabled while a submission is in flight. Pressing it
  a second time within 2 seconds makes the second handler capture
  "Transmitting..." as the text to restore; once all four timers have run, the label
  reads "Transmitting..." with no timer pending, and nothing but another press ever
  changes it again.
\<close>

theorem double_submit_sticks:
  assumes "queue (timers s) = []" and "d \<le> 2000"
  shows "\<exists>s'. form_run s [Submit, Wait d, Submit, Fire, Fire, Fire, Fire] = Some s'
           \<and> submit_label s' = transmitting_text \<and> queue (timers s') = []
           \<and> (\<forall>es s''. Submit \<notin> set es \<longrightarrow> form_run s' es = Some s'' \<longrightarrow>
                 submit_label s'' = transmitting_text)"
proof -
  have "\<exists>s'. form_run s [Submit, Wait d, Submit, Fire, Fire, Fire, Fire] = Some s'
           \<and> submit_label s' = transmitting_text \<and> queue (timers s') = []"
    using assms
    by (simp add: on_submit_def set_timeout_def pop_timer_eq split_beta Let_def)
  then obtain s' where s': "form_run s [Submit, Wait d, Submit, Fire, Fire, Fire, Fire] = Some s'"
    "submit_label s' = transmitting_text" "queue (timers s') = []" by blast
  then show ?thesis
    using form_run_no_submit_idle [of s'] by auto
qed

theorem double_submit_sticks_witness:
  "\<exists>s'. form_run (form_init 1 \<lparr>body = [], nodes = Map.empty, next_node = 0, tweens = []\<rparr>
                 (const_rng 0.5) \<lparr>r_left = 0, r_top = 0, r_width = 100, r_height = 40\<rparr>)
            [Submit, Wait 1000, Submit, Fire, Fire, Fire, Fire] = Some s'
          \<and> submit_label s' = transmitting_text"
proof -
  let ?s = "form_init 1 \<lparr>body = [], nodes = Map.empty, next_node = 0, tweens = []\<rparr>
                 (const_rng 0.5) \<lparr>r_left = 0, r_top = 0, r_width = 100, r_height = 40\<rparr>"
  have q: "queue (timers ?s) = []" by (simp add: form_init_def sched_init_def)
  have d: "(1000::nat) \<le> 2000" by simp
  show ?thesis using double_submit_sticks [OF q d] by blast
qed

text \<open>
  C19. In every run of the form, each field's underline is full exactly when its label
  is raised: focus sets both, a blur of an empty field clears both, the reset clears
  both, and nothing else touches either.
\<close>

theorem form_groups_consistent:
  "groups_consistent s \<Longrightarrow> form_run s es = Some s' \<Longrightarrow> groups_consistent s'"
proof (induction es arbitrary: s)
  case Nil
  then show ?case by simp
next
  case (Cons e es)
  then obtain s1 where "form_step s e = Some s1" "form_run s1 es = Some s'"
    by (auto split: option.splits)
  with Cons.IH Cons.prems(1) show ?case by (blast intro: form_step_consistent)
qed

theorem form_groups_consistent_witness:
  "\<exists>s'. form_run (form_init 2 \<lparr>body = [], nodes = Map.empty, next_node = 0, tweens = []\<rparr>
       (const_rng 0.5) \<lparr>r_left = 0, r_top = 0, r_width = 100, r_height = 40\<rparr>)
       [Input 0 ''a'', Focus 0, Blur 0, Submit] = Some s' \<and> groups_consistent s'"
proof -
  let ?s = "form_init 2 \<lparr>body = [], nodes = Map.empty, next_node = 0, tweens = []\<rparr>
       (const_rng 0.5) \<lparr>r_left = 0, r_top = 0, r_width = 100, r_height = 40\<rparr>"
  have c: "groups_consistent ?s" by (simp add: groups_consistent_def form_init_def)
  have "\<exists>s'. form_run ?s [Input 0 ''a'', Focus 0, Blur 0, Submit] = Some s'" by simp
  then obtain s' where r: "form_run ?s [Input 0 ''a'', Focus 0, Blur 0, Submit] = Some s'" ..
  show ?thesis using form_groups_consistent [OF c r] r by blast
qed

end
