(* ===== verification/Loading.thy ===== *)
theory Loading
  imports Prelude
begin

text \<open>
  The loading screen of \<open>src/script.js\<close>: \<open>initLoadingScreen\<close> starts a
  \<open>setInterval\<close> of 200 ms whose callback adds \<open>Math.random() * 15\<close> to a
  closure variable \<open>progress\<close>, clamps it to 100 and clears the interval once it
  reaches 100, and writes it to the bar's \<open>style.width\<close>; \<open>hideLoadingScreen\<close> adds
  the class \<open>hidden\<close> and 500 ms later sets \<open>display: none\<close> and clears the global
  \<open>isLoading\<close>.

  The interval is modelled by its ticks: \<open>progress_tick\<close> is one run of the callback,
  returning whether it cleared the interval. Since \<open>Math.random\<close> may keep returning
  small values, nothing bounds the number of ticks in advance; \<open>progress_run n\<close>
  runs at most \<open>n\<close> ticks (the ticks that fit in the time observed) and reports
  whether the interval is still running. The flag \<open>isLoading\<close> belongs to the scene
  (\<open>Scene.is_loading\<close>); the timeline in \<open>App\<close> joins the two.
\<close>

record loading_state =
  progress :: real
  bar_width :: real
  screen_hidden :: bool
  screen_displayed :: bool

definition loading_init :: loading_state where
  "loading_init = \<lparr>progress = 0, bar_width = 0, screen_hidden = False, screen_displayed = True\<rparr>"

text \<open>One run of the interval callback; \<open>True\<close> when it called \<open>clearInterval\<close>.\<close>

definition progress_tick :: "rng \<Rightarrow> loading_state \<Rightarrow> bool \<times> loading_state \<times> rng" where
  "progress_tick g s =
     (let (r, g1) = math_random g;
          p = progress s + r * 15;
          (p', stop) = (if 100 \<le> p then (100, True) else (p, False))
      in (stop, s\<lparr>progress := p', bar_width := p'\<rparr>, g1))"

text \<open>At most \<open>n\<close> ticks: the widths written, whether the interval still runs, the
  final state and the random stream.\<close>

fun progress_run :: "nat \<Rightarrow> rng \<Rightarrow> loading_state \<Rightarrow> real list \<times> bool \<times> loading_state \<times> rng" where
  "progress_run 0 g s = ([], True, s, g)"
| "progress_run (Suc n) g s =
     (let (stop, s1, g1) = progress_tick g s
      in if stop then ([bar_width s1], False, s1, g1)
         else (let (ws, running, s2, g2) = progress_run n g1 s1
               in (bar_width s1 # ws, running, s2, g2)))"

text \<open>\<open>hideLoadingScreen\<close> itself, and the body of the 500 ms timeout it sets.\<close>

definition hideLoadingScreen :: "loading_state \<Rightarrow> loading_state" where
  "hideLoadingScreen s = s\<lparr>screen_hidden := True\<rparr>"

definition loading_done :: "loading_state \<Rightarrow> loading_state" where
  "loading_done s = s\<lparr>screen_displayed := False\<rparr>"

section \<open>Lemmas\<close>

lemma progress_tick_eq:
  "progress_tick g s =
     (let p = progress s + draws g (pos g) * 15
      in if 100 \<le> p then (True, s\<lparr>progress := 100, bar_width := 100\<rparr>, g\<lparr>pos := Suc (pos g)\<rparr>)
         else (False, s\<lparr>progress := p, bar_width := p\<rparr>, g\<lparr>pos := Suc (pos g)\<rparr>))"
  by (simp add: progress_tick_def math_random_def Let_def)

lemma progress_run_invariant:
  "draws_ok g n \<Longrightarrow> 0 \<le> progress s \<Longrightarrow> progress s < 100 \<Longrightarrow>
     (case progress_run n g s of (ws, running, s', g') \<Rightarrow>
        sorted ws \<and> (\<forall>w \<in> set ws. progress s \<le> w \<and> w \<le> 100)
        \<and> (running \<longrightarrow> progress s' < 100 \<and> progress s' = last (progress s # ws))
        \<and> (\<not> running \<longrightarrow> ws \<noteq> [] \<and> last ws = 100))"
proof (induction n arbitrary: g s)
  case 0
  then show ?case by simp
next
  case (Suc n)
  let ?p = "progress s + draws g (pos g) * 15"
  have r: "0 \<le> draws g (pos g)" using draws_ok_nth [OF Suc.prems(1), of 0] by simp
  have ok: "draws_ok (g\<lparr>pos := Suc (pos g)\<rparr>) n" using Suc.prems(1) by (simp add: draws_ok_Suc math_random_def)
  show ?case
  proof (cases "100 \<le> ?p")
    case True
    then show ?thesis using Suc.prems(3) by (simp add: progress_tick_eq)
  next
    case False
    let ?s1 = "s\<lparr>progress := ?p, bar_width := ?p\<rparr>"
    have ih: "case progress_run n (g\<lparr>pos := Suc (pos g)\<rparr>) ?s1 of (ws, running, s', g') \<Rightarrow>
        sorted ws \<and> (\<forall>w \<in> set ws. ?p \<le> w \<and> w \<le> 100)
        \<and> (running \<longrightarrow> progress s' < 100 \<and> progress s' = last (?p # ws))
        \<and> (\<not> running \<longrightarrow> ws \<noteq> [] \<and> last ws = 100)"
      using Suc.IH [OF ok, of ?s1] Suc.prems(2) r False by simp
    show ?thesis
      using False ih Suc.prems(2) r
      by (auto simp: progress_tick_eq split_beta Let_def split: prod.splits)
  qed
qed

lemma progress_run_stops:
  "0 < \<delta> \<Longrightarrow> (\<forall>i<n. \<delta> \<le> draws g (pos g + i)) \<Longrightarrow> progress s < 100 \<Longrightarrow>
     100 \<le> progress s + 15 * \<delta> * real n \<Longrightarrow> \<not> fst (snd (progress_run n g s))"
proof (induction n arbitrary: g s)
  case 0
  then show ?case by simp
next
  case (Suc n)
  let ?p = "progress s + draws g (pos g) * 15"
  have d: "\<delta> \<le> draws g (pos g)" using Suc.prems(2) by (metis add_0_right zero_less_Suc)
  show ?case
  proof (cases "100 \<le> ?p")
    case True
    then show ?thesis by (simp add: progress_tick_eq)
  next
    case False
    let ?g1 = "g\<lparr>pos := Suc (pos g)\<rparr>" and ?s1 = "s\<lparr>progress := ?p, bar_width := ?p\<rparr>"
    have "\<forall>i<n. \<delta> \<le> draws ?g1 (pos ?g1 + i)"
    proof (intro allI impI)
      fix i assume "i < n"
      then have "Suc i < Suc n" by simp
      then have "\<delta> \<le> draws g (pos g + Suc i)" using Suc.prems(2) by blast
      then show "\<delta> \<le> draws ?g1 (pos ?g1 + i)" by simp
    qed
    moreover have "100 \<le> progress ?s1 + 15 * \<delta> * real n"
      using Suc.prems(4) d by (simp add: algebra_simps)
    ultimately have "\<not> fst (snd (progress_run n ?g1 ?s1))"
      using Suc.IH [of ?g1 ?s1] Suc.prems(1) False by simp
    then show ?thesis using False by (simp add: progress_tick_eq split_beta Let_def)
  qed
qed

lemma progress_run_running:
  "draws_ok g n \<Longrightarrow> progress s + 15 * real n \<le> 100 \<Longrightarrow> fst (snd (progress_run n g s))"
proof (induction n arbitrary: g s)
  case 0
  then show ?case by simp
next
  case (Suc n)
  let ?p = "progress s + draws g (pos g) * 15"
  have r: "draws g (pos g) < 1" using draws_ok_nth [OF Suc.prems(1), of 0] by simp
  have ok: "draws_ok (g\<lparr>pos := Suc (pos g)\<rparr>) n"
    using Suc.prems(1) by (simp add: draws_ok_Suc math_random_def)
  have lt: "?p + 15 * real n < 100" using Suc.prems(2) r by simp
  then have "fst (snd (progress_run n (g\<lparr>pos := Suc (pos g)\<rparr>) (s\<lparr>progress := ?p, bar_width := ?p\<rparr>)))"
    using Suc.IH [OF ok] by simp
  then show ?case using lt by (simp add: progress_tick_eq split_beta Let_def)
qed

section \<open>Properties\<close>

text \<open>
  C20. For draws in \<open>[0, 1)\<close>, the widths the interval writes to the progress bar
  never decrease, always lie between 0% and 100%, and when the interval clears
  itself the bar shows exactly 100%.
\<close>

theorem progress_bar_bounds:
  assumes "draws_ok g n"
  shows "case progress_run n g loading_init of (ws, running, s', g') \<Rightarrow>
           sorted ws \<and> (\<forall>w \<in> set ws. 0 \<le> w \<and> w \<le> 100) \<and> (\<not> running \<longrightarrow> last ws = 100)"
  using progress_run_invariant [OF assms, of loading_init]
  by (auto simp: loading_init_def split: prod.splits)

theorem progress_bar_bounds_witness:
  "draws_ok (const_rng (1 / 2)) 20
   \<and> sorted (fst (progress_run 20 (const_rng (1 / 2)) loading_init))"
proof -
  have ok: "draws_ok (const_rng (1 / 2)) 20" by simp
  show ?thesis using progress_bar_bounds [OF ok] ok by (simp split: prod.splits)
qed

text \<open>
  C21. The interval stops: if the next \<open>n\<close> draws are all at least \<open>\<delta> > 0\<close> and
  \<open>15 \<delta> n \<ge> 100\<close>, the interval has called \<open>clearInterval\<close> within \<open>n\<close> ticks.
\<close>

theorem progress_interval_clears:
  assumes "0 < \<delta>" and "\<forall>i<n. \<delta> \<le> draws g (pos g + i)" and "100 \<le> 15 * \<delta> * real n"
  shows "\<not> fst (snd (progress_run n g loading_init))"
  using progress_run_stops [OF assms(1,2)] assms(3) by (simp add: loading_init_def)

theorem progress_interval_clears_witness:
  "\<not> fst (snd (progress_run 14 (const_rng (1 / 2)) loading_init))"
proof -
  have d: "\<forall>i<14. (1 / 2 :: real) \<le> draws (const_rng (1 / 2)) (pos (const_rng (1 / 2)) + i)"
    by (simp add: const_rng_def)
  show ?thesis using progress_interval_clears [OF _ d] by simp
qed

text \<open>
  C22. The loading timer is not a single callback: each tick adds less than 15%, so for
  draws in \<open>[0, 1)\<close> the interval is still running after six ticks (1.2 s) and
  fires at least seven times.
\<close>

theorem progress_runs_seven_ticks:
  "draws_ok g 6 \<Longrightarrow> fst (snd (progress_run 6 g loading_init))"
  by (rule progress_run_running) (simp_all add: loading_init_def)

theorem progress_runs_seven_ticks_witness:
  "draws_ok (const_rng 0.99) 6 \<and> fst (snd (progress_run 6 (const_rng 0.99) loading_init))"
proof -
  have ok: "draws_ok (const_rng 0.99) 6" by simp
  show ?thesis using progress_runs_seven_ticks [OF ok] ok by simp
qed

end
