(* ===== verification/App.thy ===== *)
theory App
  imports Scene Charts Loading
begin

text \<open>
  The start-up timeline of \<open>src/script.js\<close>, which joins the components. Loading
  the script declares the globals (\<open>planets = []\<close>, \<open>isLoading = true\<close>, no
  \<open>stars\<close>) and calls \<open>setTimeout(optimizePerformance, 1000)\<close> at top level;
  \<open>DOMContentLoaded\<close> then runs \<open>initializeApp\<close>, which starts the loading
  interval, builds the scene, draws the charts, calls \<open>animate()\<close> once and sets
  \<open>setTimeout(hideLoadingScreen, 3000)\<close>.

  The four timer callbacks of the script are the values of \<open>app_cb\<close>, queued on the
  virtual-time scheduler of \<open>Prelude\<close>; the clock counts milliseconds from the moment
  the script ran, and \<open>Date.now()\<close> is that clock plus the wall-clock time
  \<open>epoch\<close> of that moment. A run is a list of events: \<open>DOMContentLoaded\<close> (once),
  \<open>AppWait d\<close> (nothing happens for \<open>d\<close> ms, possible only if no timer is due
  before), \<open>AppFire\<close> (the earliest due timer runs), an animation frame, a
  \<open>mousemove\<close> and a \<open>resize\<close>. Animation frames exist only once \<open>animate\<close>
  has been called by \<open>initializeApp\<close>; how many calls a frame makes is the subject of
  \<open>Frames\<close>, and here a frame is one call. The navigation, form and GSAP set-up of
  \<open>initializeApp\<close> touch none of this state and are modelled in their own theories.
\<close>

datatype app_cb = ProgressTick | HideLoading | LoadingDone | OptimizePerformance

record app_state =
  scene :: scene_state
  loading :: loading_state
  atimers :: "app_cb sched"
  arng :: rng
  charts_drawn :: "cmd list list \<times> cmd list option"
  dom_ready :: "nat option"
  epoch :: real

text \<open>The script's top level on a window of \<open>w \<times> h\<close>.\<close>

definition script_load :: "real \<Rightarrow> real \<Rightarrow> real \<Rightarrow> rng \<Rightarrow> app_state" where
  "script_load w h ep g =
     \<lparr>scene = scene_empty w h, loading = loading_init,
      atimers = snd (set_timeout OptimizePerformance 1000 sched_init), arng = g,
      charts_drawn = ([], None), dom_ready = None, epoch = ep\<rparr>"

text \<open>\<open>initializeApp\<close>, in the order of its calls, on the page's \<open>.chart-canvas\<close>
  elements and its \<open>#main-chart\<close>.\<close>

definition initializeApp :: "canvas list \<Rightarrow> canvas option \<Rightarrow> app_state \<Rightarrow> app_state" where
  "initializeApp cvs main s =
     (let t1 = snd (set_timeout ProgressTick 200 (atimers s));
          (sc1, g1) = init3DScene (arng s) (scene s);
          (css, tc, g2) = initCharts cvs main g1;
          sc2 = animate (epoch s + real (now t1)) sc1;
          t2 = snd (set_timeout HideLoading 3000 t1)
      in s\<lparr>scene := sc2, atimers := t2, arng := g2, charts_drawn := (css, tc),
           dom_ready := Some (now t1)\<rparr>)"

text \<open>The timer callbacks. The interval callback is re-armed 200 ms after it ran
  unless it called \<open>clearInterval\<close>.\<close>

fun app_cb_run :: "app_cb \<Rightarrow> app_state \<Rightarrow> app_state" where
  "app_cb_run ProgressTick s =
     (let (stop, l, g) = progress_tick (arng s) (loading s)
      in s\<lparr>loading := l, arng := g,
           atimers := (if stop then atimers s else snd (set_timeout ProgressTick 200 (atimers s)))\<rparr>)"
| "app_cb_run HideLoading s =
     s\<lparr>loading := hideLoadingScreen (loading s),
       atimers := snd (set_timeout LoadingDone 500 (atimers s))\<rparr>"
| "app_cb_run LoadingDone s =
     s\<lparr>loading := loading_done (loading s), scene := (scene s)\<lparr>is_loading := False\<rparr>\<rparr>"
| "app_cb_run OptimizePerformance s = s\<lparr>scene := optimize_scene (scene s)\<rparr>"

datatype app_event =
    DOMContentLoaded "canvas list" "canvas option"
  | AppWait nat | AppFire | AnimFrame | AppMouse real real | AppResize real real

fun app_step :: "app_state \<Rightarrow> app_event \<Rightarrow> app_state option" where
  "app_step s (DOMContentLoaded cvs m) =
     (if dom_ready s = None then Some (initializeApp cvs m s) else None)"
| "app_step s (AppWait d) =
     (if (\<forall>e \<in> set (queue (atimers s)). now (atimers s) + d \<le> fst (snd e))
      then Some (s\<lparr>atimers := (atimers s)\<lparr>now := now (atimers s) + d\<rparr>\<rparr>) else None)"
| "app_step s AppFire =
     (case pop_timer (atimers s) of
        None \<Rightarrow> None
      | Some (cb, t) \<Rightarrow> Some (app_cb_run cb (s\<lparr>atimers := t\<rparr>)))"
| "app_step s AnimFrame =
     (if dom_ready s = None then None
      else Some (s\<lparr>scene := animate (epoch s + real (now (atimers s))) (scene s)\<rparr>))"
| "app_step s (AppMouse x y) = Some (s\<lparr>scene := mousemove x y (scene s)\<rparr>)"
| "app_step s (AppResize w h) =
     (if dom_ready s = None then Some (s\<lparr>scene := (scene s)\<lparr>win_w := w, win_h := h\<rparr>\<rparr>)
      else Some (s\<lparr>scene := onWindowResize w h (scene s)\<rparr>))"

fun app_run :: "app_state \<Rightarrow> app_event list \<Rightarrow> app_state option" where
  "app_run s [] = Some s"
| "app_run s (e # es) = (case app_step s e of None \<Rightarrow> None | Some s' \<Rightarrow> app_run s' es)"

text \<open>The due times of the pending callbacks of one kind, in queue order.\<close>

definition dues :: "app_cb \<Rightarrow> app_state \<Rightarrow> nat list" where
  "dues cb s = map (fst \<circ> snd) (filter (\<lambda>e. snd (snd e) = cb) (queue (atimers s)))"

text \<open>Where the loading screen is in its timeline: before \<open>DOMContentLoaded\<close>; hide
  pending; end of loading pending; done.\<close>

definition loading_timeline :: "app_state \<Rightarrow> bool" where
  "loading_timeline s \<longleftrightarrow>
     (let t = now (atimers s) in
      case dom_ready s of
        None \<Rightarrow> is_loading (scene s) \<and> dues HideLoading s = [] \<and> dues LoadingDone s = []
      | Some d \<Rightarrow>
          (is_loading (scene s) \<and> t \<le> d + 3000
             \<and> dues HideLoading s = [d + 3000] \<and> dues LoadingDone s = [])
        \<or> (is_loading (scene s) \<and> d + 3000 \<le> t \<and> t \<le> d + 3500
             \<and> dues HideLoading s = [] \<and> dues LoadingDone s = [d + 3500])
        \<or> (\<not> is_loading (scene s) \<and> d + 3500 \<le> t
             \<and> dues HideLoading s = [] \<and> dues LoadingDone s = []))"

text \<open>What \<open>optimizePerformance\<close> can find: before \<open>DOMContentLoaded\<close> the scene
  is empty and only the performance timer (due at 1000 ms) is pending; if the document
  was loaded after that timer, it has fired and the whole scene stays.\<close>

definition star_coords :: "scene_state \<Rightarrow> nat option" where
  "star_coords sc = map_option (length \<circ> spositions) (stars sc)"

definition perf_timeline :: "app_state \<Rightarrow> bool" where
  "perf_timeline s \<longleftrightarrow>
     (case dom_ready s of
        None \<Rightarrow> planets (scene s) = [] \<and> meshes (scene s) = [] \<and> stars (scene s) = None
          \<and> dues ProgressTick s = [] \<and> dues HideLoading s = [] \<and> dues LoadingDone s = []
          \<and> (\<forall>x \<in> set (dues OptimizePerformance s). x = 1000 \<and> now (atimers s) \<le> x)
      | Some d \<Rightarrow> 1000 < d \<longrightarrow>
          dues OptimizePerformance s = [] \<and> planets (scene s) = [0, 1, 2, 3]
          \<and> star_coords (scene s) = Some 30000)"

section \<open>Lemmas\<close>

lemma init3DScene_is_loading [simp]: "is_loading (fst (init3DScene g s)) = is_loading s"
  by (simp add: init3DScene_def createStarfield_def createPlanets_def createNebula_def split_beta Let_def)

lemma optimize_scene_is_loading [simp]: "is_loading (optimize_scene s) = is_loading s"
  by (simp add: optimize_scene_def Let_def split: option.splits)

lemma dues_set_timeout [simp]:
  "dues cb (s\<lparr>atimers := snd (set_timeout cb' d t)\<rparr>) =
     dues cb (s\<lparr>atimers := t\<rparr>) @ (if cb' = cb then [now t + d] else [])"
  by (simp add: dues_def)

lemma dues_update [simp]:
  "dues cb (s\<lparr>scene := x\<rparr>) = dues cb s" "dues cb (s\<lparr>loading := l\<rparr>) = dues cb s"
  "dues cb (s\<lparr>arng := g\<rparr>) = dues cb s"
  "dues cb (s\<lparr>atimers := (atimers s)\<lparr>now := n\<rparr>\<rparr>) = dues cb s"
  by (simp_all add: dues_def)

lemma dues_remove_other:
  "queue t = remove1 e (queue (atimers s)) \<Longrightarrow> snd (snd e) \<noteq> cb \<Longrightarrow>
     dues cb (s\<lparr>atimers := t\<rparr>) = dues cb s"
  by (simp add: dues_def filter_remove1_other)

lemma dues_remove_single:
  assumes "queue t = remove1 e (queue (atimers s))" and "snd (snd e) = cb"
    and "e \<in> set (queue (atimers s))" and "dues cb s = [x]"
  shows "dues cb (s\<lparr>atimers := t\<rparr>) = [] \<and> fst (snd e) = x"
proof -
  let ?P = "\<lambda>e. snd (snd e) = cb"
  have "e \<in> set (filter ?P (queue (atimers s)))" using assms(2,3) by simp
  moreover obtain e0 where f: "filter ?P (queue (atimers s)) = [e0]" "fst (snd e0) = x"
    using assms(4) by (auto simp: dues_def)
  ultimately have "e = e0" by simp
  then show ?thesis
    using assms(1,2) f by (simp add: dues_def filter_remove1_same)
qed

lemma dues_pending:
  "e \<in> set (queue (atimers s)) \<Longrightarrow> fst (snd e) \<in> set (dues (snd (snd e)) s)"
  by (force simp: dues_def)

lemma timeline_frame:
  assumes "loading_timeline s" and "dom_ready s' = dom_ready s"
    and "is_loading (scene s') = is_loading (scene s)"
    and "dues HideLoading s' = dues HideLoading s" and "dues LoadingDone s' = dues LoadingDone s"
    and "now (atimers s) \<le> now (atimers s')"
    and "\<forall>x \<in> set (dues HideLoading s) \<union> set (dues LoadingDone s). now (atimers s') \<le> x"
  shows "loading_timeline s'"
  using assms unfolding loading_timeline_def Let_def
  by (auto split: option.splits)

lemma pop_due_le:
  assumes "pop_timer (atimers s) = Some (cb, t)" and "x \<in> set (dues cb' s)"
  shows "now (atimers s) \<le> now t \<and> now t \<le> max (now (atimers s)) x"
proof -
  obtain e where e: "e \<in> set (queue (atimers s))" "now t = max (now (atimers s)) (fst (snd e))"
    "\<forall>e' \<in> set (queue (atimers s)). fst (snd e) \<le> fst (snd e')"
    using assms(1) by (rule pop_timer_SomeE)
  from assms(2) obtain e' where "e' \<in> set (queue (atimers s))" "fst (snd e') = x"
    by (auto simp: dues_def)
  with e show ?thesis by force
qed

lemma timeline_DOMContentLoaded:
  "loading_timeline s \<Longrightarrow> dom_ready s = None \<Longrightarrow> loading_timeline (initializeApp cvs m s)"
  by (simp add: loading_timeline_def initializeApp_def split_beta Let_def dues_def)

lemma timeline_now_le:
  "loading_timeline s \<Longrightarrow> x \<in> set (dues HideLoading s) \<union> set (dues LoadingDone s) \<Longrightarrow>
     now (atimers s) \<le> x"
  by (auto simp: loading_timeline_def Let_def split: option.splits)

lemma timeline_fire:
  assumes inv: "loading_timeline s" and pop: "pop_timer (atimers s) = Some (cb, t)"
  shows "loading_timeline (app_cb_run cb (s\<lparr>atimers := t\<rparr>))"
proof -
  obtain e where e: "e \<in> set (queue (atimers s))" "cb = snd (snd e)"
    "queue t = remove1 e (queue (atimers s))" "now t = max (now (atimers s)) (fst (snd e))"
    "\<forall>e' \<in> set (queue (atimers s)). fst (snd e) \<le> fst (snd e')" "next_tid t = next_tid (atimers s)"
    using pop by (rule pop_timer_SomeE)
  let ?s1 = "s\<lparr>atimers := t\<rparr>"
  have bound: "\<forall>x \<in> set (dues HideLoading s) \<union> set (dues LoadingDone s). now t \<le> x"
  proof
    fix x assume x: "x \<in> set (dues HideLoading s) \<union> set (dues LoadingDone s)"
    then have "now (atimers s) \<le> x" by (rule timeline_now_le [OF inv])
    moreover have "now t \<le> max (now (atimers s)) x" using x pop_due_le [OF pop] by blast
    ultimately show "now t \<le> x" by simp
  qed
  have ge: "now (atimers s) \<le> now t" using e(4) by simp
  have pend: "fst (snd e) \<in> set (dues cb s)" using dues_pending [OF e(1)] e(2) by simp
  show ?thesis
  proof (cases cb)
    case ProgressTick
    then have "dues HideLoading ?s1 = dues HideLoading s" "dues LoadingDone ?s1 = dues LoadingDone s"
      using dues_remove_other [OF e(3)] e(2) by simp_all
    then show ?thesis
      using timeline_frame [OF inv] bound ge ProgressTick
      by (simp add: split_beta dues_def)
  next
    case OptimizePerformance
    then have "dues HideLoading ?s1 = dues HideLoading s" "dues LoadingDone ?s1 = dues LoadingDone s"
      using dues_remove_other [OF e(3)] e(2) by simp_all
    then show ?thesis
      using timeline_frame [OF inv] bound ge OptimizePerformance
      by (simp add: dues_def)
  next
    case HideLoading
    with inv pend obtain d where d: "dom_ready s = Some d" "dues HideLoading s = [d + 3000]"
      "dues LoadingDone s = []" "is_loading (scene s)" "now (atimers s) \<le> d + 3000"
      by (auto simp: loading_timeline_def Let_def split: option.splits)
    have "dues HideLoading ?s1 = [] \<and> fst (snd e) = d + 3000"
      using dues_remove_single [OF e(3) _ e(1) d(2)] e(2) HideLoading by simp
    moreover have "dues LoadingDone ?s1 = []"
      using dues_remove_other [OF e(3)] e(2) HideLoading d(3) by simp
    ultimately show ?thesis
      using HideLoading d e(4)
      by (simp add: loading_timeline_def dues_def)
  next
    case LoadingDone
    with inv pend obtain d where d: "dom_ready s = Some d" "dues LoadingDone s = [d + 3500]"
      "dues HideLoading s = []" "now (atimers s) \<le> d + 3500" "d + 3000 \<le> now (atimers s)"
      by (auto simp: loading_timeline_def Let_def split: option.splits)
    have "dues LoadingDone ?s1 = [] \<and> fst (snd e) = d + 3500"
      using dues_remove_single [OF e(3) _ e(1) d(2)] e(2) LoadingDone by simp
    moreover have "dues HideLoading ?s1 = []"
      using dues_remove_other [OF e(3)] e(2) LoadingDone d(3) by simp
    ultimately show ?thesis
      using LoadingDone d e(4)
      by (simp add: loading_timeline_def dues_def)
  qed
qed

lemma dues_in_queue: "x \<in> set (dues cb s) \<Longrightarrow> \<exists>e \<in> set (queue (atimers s)). fst (snd e) = x"
  by (auto simp: dues_def)

lemma timeline_step:
  assumes inv: "loading_timeline s" and st: "app_step s e = Some s'"
  shows "loading_timeline s'"
proof -
  have b: "\<forall>x \<in> set (dues HideLoading s) \<union> set (dues LoadingDone s). now (atimers s) \<le> x"
    using timeline_now_le [OF inv] by blast
  show ?thesis
proof (cases e)
  case (DOMContentLoaded cvs m)
  with st inv show ?thesis by (auto simp: timeline_DOMContentLoaded split: if_splits)
next
  case (AppWait d)
  have q: "\<forall>e \<in> set (queue (atimers s)). now (atimers s) + d \<le> fst (snd e)"
    using st AppWait by (simp split: if_splits)
  have s': "s' = s\<lparr>atimers := (atimers s)\<lparr>now := now (atimers s) + d\<rparr>\<rparr>"
    using st AppWait by (simp split: if_splits)
  have "\<forall>x \<in> set (dues HideLoading s) \<union> set (dues LoadingDone s). now (atimers s) + d \<le> x"
  proof
    fix x assume "x \<in> set (dues HideLoading s) \<union> set (dues LoadingDone s)"
    then obtain e where "e \<in> set (queue (atimers s))" "fst (snd e) = x"
      using dues_in_queue by blast
    with q show "now (atimers s) + d \<le> x" by blast
  qed
  then show ?thesis using timeline_frame [OF inv] s' by simp
next
  case AppFire
  with st obtain cb t where "pop_timer (atimers s) = Some (cb, t)" "s' = app_cb_run cb (s\<lparr>atimers := t\<rparr>)"
    by (auto split: option.splits)
  with inv show ?thesis by (simp add: timeline_fire)
next
  case AnimFrame
  with st have "s' = s\<lparr>scene := animate (epoch s + real (now (atimers s))) (scene s)\<rparr>"
    by (auto split: if_splits)
  then show ?thesis using timeline_frame [OF inv] b by simp
next
  case (AppMouse x y)
  with st have "s' = s\<lparr>scene := mousemove x y (scene s)\<rparr>" by simp
  then show ?thesis using timeline_frame [OF inv] b by (simp add: mousemove_def)
next
  case (AppResize w h)
  with st have "s' = s\<lparr>scene := (scene s)\<lparr>win_w := w, win_h := h\<rparr>\<rparr>
      \<or> s' = s\<lparr>scene := onWindowResize w h (scene s)\<rparr>"
    by (auto split: if_splits)
  then show ?thesis using timeline_frame [OF inv] b by (auto simp: onWindowResize_def)
qed
qed

lemma timeline_run: "loading_timeline s \<Longrightarrow> app_run s es = Some s' \<Longrightarrow> loading_timeline s'"
proof (induction es arbitrary: s)
  case Nil
  then show ?case by simp
next
  case (Cons e es)
  then obtain s1 where "app_step s e = Some s1" "app_run s1 es = Some s'"
    by (auto split: option.splits)
  with Cons show ?case by (blast intro: timeline_step)
qed

lemma timeline_script_load: "loading_timeline (script_load w h ep g)"
  by (simp add: loading_timeline_def script_load_def scene_empty_def dues_def sched_init_def)

lemma gen_positions_length [simp]: "length (fst (gen_positions n g)) = n"
  by (induction n arbitrary: g) (simp_all add: split_beta math_random_def)

lemma init3DScene_built:
  "planets s = [] \<Longrightarrow> meshes s = [] \<Longrightarrow>
     planets (fst (init3DScene g s)) = [0, 1, 2, 3] \<and> star_coords (fst (init3DScene g s)) = Some 30000"
  by (simp add: init3DScene_def createStarfield_def createPlanets_def createNebula_def star_coords_def
      planet_data_def star_count_def split_beta Let_def upt_rec)

lemma star_coords_animate [simp]: "star_coords (animate t s) = star_coords s"
  by (simp add: star_coords_def animate_def Let_def split: option.splits)

lemma dues_subset_remove:
  "queue t = remove1 e (queue (atimers s)) \<Longrightarrow> set (dues cb (s\<lparr>atimers := t\<rparr>)) \<subseteq> set (dues cb s)"
  by (auto simp: dues_def dest: set_remove1_subset [THEN subsetD])

lemma perf_step:
  assumes inv: "perf_timeline s" and lt: "loading_timeline s" and st: "app_step s e = Some s'"
  shows "perf_timeline s'"
proof (cases e)
  case (DOMContentLoaded cvs m)
  with st have r: "dom_ready s = None" "s' = initializeApp cvs m s" by (auto split: if_splits)
  show ?thesis
  proof (cases "1000 < now (atimers s)")
    case True
    with inv r(1) have "dues OptimizePerformance s = []"
      by (cases "dues OptimizePerformance s") (auto simp: perf_timeline_def)
    with inv r show ?thesis
      by (simp add: perf_timeline_def initializeApp_def split_beta Let_def dues_def init3DScene_built)
  next
    case False
    with r show ?thesis by (simp add: perf_timeline_def initializeApp_def split_beta Let_def)
  qed
next
  case (AppWait d)
  have q: "\<forall>e \<in> set (queue (atimers s)). now (atimers s) + d \<le> fst (snd e)"
    using st AppWait by (simp split: if_splits)
  have s': "s' = s\<lparr>atimers := (atimers s)\<lparr>now := now (atimers s) + d\<rparr>\<rparr>"
    using st AppWait by (simp split: if_splits)
  have "\<forall>x \<in> set (dues OptimizePerformance s). now (atimers s) + d \<le> x"
    using q dues_in_queue by fastforce
  with inv s' show ?thesis by (auto simp: perf_timeline_def split: option.splits)
next
  case AppFire
  with st obtain cb t where pop: "pop_timer (atimers s) = Some (cb, t)"
    and s': "s' = app_cb_run cb (s\<lparr>atimers := t\<rparr>)"
    by (auto split: option.splits)
  obtain e where e: "e \<in> set (queue (atimers s))" "cb = snd (snd e)"
    "queue t = remove1 e (queue (atimers s))" "now t = max (now (atimers s)) (fst (snd e))"
    "\<forall>e' \<in> set (queue (atimers s)). fst (snd e) \<le> fst (snd e')" "next_tid t = next_tid (atimers s)"
    using pop by (rule pop_timer_SomeE)
  have pend: "fst (snd e) \<in> set (dues cb s)" using dues_pending [OF e(1)] e(2) by simp
  let ?s1 = "s\<lparr>atimers := t\<rparr>"
  show ?thesis
  proof (cases "dom_ready s")
    case None
    with inv pend have cb: "cb = OptimizePerformance"
      by (cases cb) (auto simp: perf_timeline_def)
    have sub: "set (dues OptimizePerformance ?s1) \<subseteq> set (dues OptimizePerformance s)"
      by (rule dues_subset_remove [OF e(3)])
    have "\<forall>x \<in> set (dues OptimizePerformance ?s1). now t \<le> x"
    proof
      fix x assume x: "x \<in> set (dues OptimizePerformance ?s1)"
      then obtain e' where "e' \<in> set (queue t)" "fst (snd e') = x" using dues_in_queue by fastforce
      then have "e' \<in> set (queue (atimers s))" using e(3) set_remove1_subset by fastforce
      with x sub inv None e(4,5) \<open>fst (snd e') = x\<close> show "now t \<le> x"
        by (auto simp: perf_timeline_def)
    qed
    with inv None cb s' sub e(2,3) show ?thesis
      by (auto simp: perf_timeline_def optimize_scene_def Let_def dues_remove_other)
  next
    case (Some d)
    show ?thesis
    proof (cases "1000 < d")
      case True
      with inv Some pend have ne: "cb \<noteq> OptimizePerformance" by (auto simp: perf_timeline_def)
      then have "dues OptimizePerformance ?s1 = dues OptimizePerformance s"
        using dues_remove_other [OF e(3)] e(2) by simp
      with inv Some True ne s' show ?thesis
        by (cases cb) (auto simp: perf_timeline_def split_beta dues_def star_coords_def)
    next
      case False
      with Some s' show ?thesis by (cases cb) (simp_all add: perf_timeline_def split_beta)
    qed
  qed
next
  case AnimFrame
  with st have "dom_ready s \<noteq> None"
    and "s' = s\<lparr>scene := animate (epoch s + real (now (atimers s))) (scene s)\<rparr>"
    by (auto split: if_splits)
  with inv show ?thesis by (auto simp: perf_timeline_def split: option.splits)
next
  case (AppMouse x y)
  with st have "s' = s\<lparr>scene := mousemove x y (scene s)\<rparr>" by simp
  with inv show ?thesis
    by (auto simp: perf_timeline_def mousemove_def star_coords_def split: option.splits)
next
  case (AppResize w h)
  with st have "s' = s\<lparr>scene := (scene s)\<lparr>win_w := w, win_h := h\<rparr>\<rparr>
      \<or> s' = s\<lparr>scene := onWindowResize w h (scene s)\<rparr>"
    by (auto split: if_splits)
  with inv show ?thesis
    by (auto simp: perf_timeline_def onWindowResize_def star_coords_def split: option.splits)
qed

lemma perf_run:
  "perf_timeline s \<Longrightarrow> loading_timeline s \<Longrightarrow> app_run s es = Some s' \<Longrightarrow> perf_timeline s'"
proof (induction es arbitrary: s)
  case Nil
  then show ?case by simp
next
  case (Cons e es)
  then obtain s1 where "app_step s e = Some s1" "app_run s1 es = Some s'"
    by (auto split: option.splits)
  with Cons show ?case by (blast intro: perf_step timeline_step)
qed

lemma perf_script_load: "perf_timeline (script_load w h ep g)"
  by (simp add: perf_timeline_def script_load_def scene_empty_def dues_def sched_init_def set_timeout_def)

section \<open>Timeline properties\<close>

text \<open>
  C23. The loading flag is cleared exactly 3.5 seconds after \<open>DOMContentLoaded\<close>,
  in every run of the page: whenever \<open>isLoading\<close> is false, the document was loaded
  at some time \<open>d\<close> and the clock reads at least \<open>d + 3500\<close> ms; and once the
  clock is past \<open>d + 3500\<close>, \<open>isLoading\<close> is false. The progress interval, the
  performance timer, frames and input events neither advance nor delay it.
\<close>

theorem loading_ends_on_time:
  assumes "app_run (script_load w h ep g) es = Some s"
  shows "(\<not> is_loading (scene s) \<longrightarrow> (\<exists>d. dom_ready s = Some d \<and> d + 3500 \<le> now (atimers s)))
    \<and> (\<forall>d. dom_ready s = Some d \<longrightarrow> d + 3500 < now (atimers s) \<longrightarrow> \<not> is_loading (scene s))"
  using timeline_run [OF timeline_script_load assms]
  by (auto simp: loading_timeline_def Let_def split: option.splits)

theorem loading_ends_on_time_witness:
  "\<exists>s. app_run (script_load 1280 720 0 (const_rng 0.99))
      [AppWait 100, DOMContentLoaded [] None, AppFire, AppFire, AppFire, AppFire, AppFire,
       AppFire, AppFire, AppFire, AppFire, AppFire, AppWait 100] = Some s
    \<and> \<not> is_loading (scene s) \<and> (\<exists>d. dom_ready s = Some d \<and> d + 3500 \<le> now (atimers s))"
proof -
  have "\<exists>s. app_run (script_load 1280 720 0 (const_rng 0.99))
      [AppWait 100, DOMContentLoaded [] None, AppFire, AppFire, AppFire, AppFire, AppFire,
       AppFire, AppFire, AppFire, AppFire, AppFire, AppWait 100] = Some s \<and> \<not> is_loading (scene s)"
    by (simp add: script_load_def initializeApp_def sched_init_def set_timeout_def pop_timer_def
        progress_tick_eq const_rng_def Let_def split_beta loading_init_def initCharts_def)
  then obtain s where r: "app_run (script_load 1280 720 0 (const_rng 0.99))
      [AppWait 100, DOMContentLoaded [] None, AppFire, AppFire, AppFire, AppFire, AppFire,
       AppFire, AppFire, AppFire, AppFire, AppFire, AppWait 100] = Some s"
    and l: "\<not> is_loading (scene s)" by blast
  show ?thesis using loading_ends_on_time [OF r] r l by blast
qed

text \<open>
  C24. The mobile downscale depends on a race: \<open>optimizePerformance\<close> is scheduled
  when the script runs, not when the page is initialised. If \<open>DOMContentLoaded\<close>
  comes later than 1000 ms, the timer has already fired on an empty scene, and from then
  on, on a window of any width, all four planets stay animated and the starfield keeps
  all 30000 coordinates; no reduction is pending.
\<close>

theorem late_dom_skips_optimization:
  assumes "app_run (script_load w h ep g) es = Some s" and "dom_ready s = Some d" and "1000 < d"
  shows "planets (scene s) = [0, 1, 2, 3] \<and> star_coords (scene s) = Some 30000
    \<and> dues OptimizePerformance s = []"
  using perf_run [OF perf_script_load timeline_script_load assms(1)] assms(2,3)
  by (simp add: perf_timeline_def)

theorem late_dom_skips_optimization_witness:
  "\<exists>s. app_run (script_load 375 667 0 (const_rng 0.5))
      [AppWait 1000, AppFire, AppWait 200, DOMContentLoaded [] None] = Some s
    \<and> win_w (scene s) < 768 \<and> planets (scene s) = [0, 1, 2, 3]"
proof -
  have "\<exists>s. app_run (script_load 375 667 0 (const_rng 0.5))
      [AppWait 1000, AppFire, AppWait 200, DOMContentLoaded [] None] = Some s
      \<and> win_w (scene s) < 768 \<and> dom_ready s = Some 1200"
    by (simp add: script_load_def initializeApp_def sched_init_def set_timeout_def pop_timer_def
        scene_empty_def optimize_scene_def init3DScene_def createStarfield_def createPlanets_def
        createNebula_def Let_def split_beta initCharts_def)
  then obtain s where r: "app_run (script_load 375 667 0 (const_rng 0.5))
      [AppWait 1000, AppFire, AppWait 200, DOMContentLoaded [] None] = Some s"
    and w: "win_w (scene s) < 768" and d: "dom_ready s = Some 1200" by blast
  have lt: "1000 < (1200::nat)" by simp
  show ?thesis using late_dom_skips_optimization [OF r d lt] r w by blast
qed

end
