(* ===== verification/Navigation.thy ===== *)
theory Navigation
  imports Prelude
begin

text \<open>
  \<open>initNavigation\<close> of \<open>src/script.js\<close>: the menu toggle, the click handler of every
  in-page link (\<open>a[href^="#"]\<close>) and the \<open>scroll\<close> listener that highlights the
  link of the current section.

  The link handler calls \<open>document.querySelector(href)\<close>. A hash that is not an id
  selector makes \<open>querySelector\<close> throw a \<open>SyntaxError\<close>; the bare \<open>"#"\<close> of a
  placeholder link is the common case. The handler has already called
  \<open>preventDefault()\<close>, so the exception ends the click with nothing done. Selector
  parsing is the browser's: \<open>css_ident\<close> models the CSS identifier grammar for the
  characters of an id (letters, digits, \<open>-\<close>, \<open>_\<close>, non-ASCII; no escapes); a hash
  with other characters is treated as invalid. Smooth scrolling itself is Lenis's: a
  request \<open>lenis.scrollTo(target, {duration})\<close> is recorded with the target's id.
\<close>

record section_info =
  sec_id :: string
  sec_top :: real

record nav_link =
  link_href :: string
  link_active :: bool

record nav_state =
  menu_active :: bool
  toggle_active :: bool
  links :: "nav_link list"
  scroll_requests :: "(string \<times> real) list"

datatype js_error = SyntaxError string

section \<open>Menu toggle\<close>

definition nav_toggle_click :: "nav_state \<Rightarrow> nav_state" where
  "nav_toggle_click s = s\<lparr>menu_active := \<not> menu_active s, toggle_active := \<not> toggle_active s\<rparr>"

section \<open>In-page links\<close>

definition ident_start :: "char \<Rightarrow> bool" where
  "ident_start c \<longleftrightarrow>
     (let n = of_char c :: nat in (65 \<le> n \<and> n \<le> 90) \<or> (97 \<le> n \<and> n \<le> 122) \<or> n = 95 \<or> 128 \<le> n)"

definition ident_char :: "char \<Rightarrow> bool" where
  "ident_char c \<longleftrightarrow> ident_start c \<or> (let n = of_char c :: nat in (48 \<le> n \<and> n \<le> 57) \<or> n = 45)"

fun css_ident :: "string \<Rightarrow> bool" where
  "css_ident [] = False"
| "css_ident (c # cs) =
     (if c = CHR ''-'' then
        (case cs of [] \<Rightarrow> False | d # ds \<Rightarrow> (ident_start d \<or> d = CHR ''-'') \<and> list_all ident_char ds)
      else ident_start c \<and> list_all ident_char cs)"

text \<open>\<open>document.querySelector(href)\<close> for a link whose \<open>href\<close> starts with \<open>#\<close>, on a
  document whose elements have the ids \<open>ids\<close>: the id of the element found, if any.\<close>

definition query_hash :: "string list \<Rightarrow> string \<Rightarrow> js_error + string option" where
  "query_hash ids href =
     (case href of
        CHR ''#'' # name \<Rightarrow>
          (if css_ident name then Inr (if name \<in> set ids then Some name else None)
           else Inl (SyntaxError href))
      | _ \<Rightarrow> Inl (SyntaxError href))"

definition anchor_click :: "string list \<Rightarrow> string \<Rightarrow> nav_state \<Rightarrow> js_error + nav_state" where
  "anchor_click ids href s =
     (case query_hash ids href of
        Inl err \<Rightarrow> Inl err
      | Inr None \<Rightarrow> Inr s
      | Inr (Some target) \<Rightarrow> Inr (s\<lparr>scroll_requests := scroll_requests s @ [(target, 1.5)]\<rparr>))"

section \<open>Highlighting the current section\<close>

text \<open>\<open>sections.forEach(...)\<close>: \<open>current\<close> becomes the id of every section whose top,
  less the 200 px margin, is at or above the scroll position; the last one wins.\<close>

fun current_section :: "real \<Rightarrow> section_info list \<Rightarrow> string \<Rightarrow> string" where
  "current_section y [] cur = cur"
| "current_section y (sec # secs) cur =
     current_section y secs (if sec_top sec - 200 \<le> y then sec_id sec else cur)"

definition on_scroll :: "real \<Rightarrow> section_info list \<Rightarrow> nav_state \<Rightarrow> nav_state" where
  "on_scroll y secs s =
     (let current = current_section y secs ''''
      in s\<lparr>links := map (\<lambda>l. l\<lparr>link_active := (link_href l = CHR ''#'' # current)\<rparr>) (links s)\<rparr>)"

text \<open>The number of sections the scroll position has reached.\<close>

definition passed :: "real \<Rightarrow> section_info list \<Rightarrow> nat" where
  "passed y secs = length (filter (\<lambda>sec. sec_top sec - 200 \<le> y) secs)"

section \<open>Lemmas\<close>

lemma current_section_last:
  "current_section y secs cur =
     (case filter (\<lambda>sec. sec_top sec - 200 \<le> y) secs of [] \<Rightarrow> cur | xs \<Rightarrow> sec_id (last xs))"
  by (induction secs arbitrary: cur) (auto split: list.splits)

lemma filter_sorted_prefix:
  "sorted (map sec_top secs) \<Longrightarrow>
     filter (\<lambda>sec. sec_top sec - 200 \<le> y) secs = take (passed y secs) secs"
proof (induction secs)
  case Nil
  then show ?case by (simp add: passed_def)
next
  case (Cons sec secs)
  show ?case
  proof (cases "sec_top sec - 200 \<le> y")
    case True
    with Cons show ?thesis by (simp add: passed_def)
  next
    case False
    with Cons.prems have "\<forall>s' \<in> set secs. \<not> sec_top s' - 200 \<le> y" by auto
    with False show ?thesis by (simp add: passed_def)
  qed
qed

text \<open>Scrolled exactly to the top of section \<open>k\<close>, when the next section starts
  more than the 200 px margin below it, the sections reached are the first \<open>k + 1\<close>.\<close>

lemma filter_reached_section:
  assumes "sorted (map sec_top secs)" and "k < length secs"
    and "Suc k < length secs \<Longrightarrow> sec_top (secs ! k) + 200 < sec_top (secs ! Suc k)"
  shows "filter (\<lambda>sec. sec_top sec - 200 \<le> sec_top (secs ! k)) secs = take (Suc k) secs"
proof -
  have so: "i \<le> j \<Longrightarrow> j < length secs \<Longrightarrow> sec_top (secs ! i) \<le> sec_top (secs ! j)" for i j
    using assms(1) by (simp add: sorted_iff_nth_mono)
  have "\<forall>sec \<in> set (take (Suc k) secs). sec_top sec - 200 \<le> sec_top (secs ! k)"
  proof
    fix sec assume "sec \<in> set (take (Suc k) secs)"
    then obtain i where "i < Suc k" "sec = secs ! i" using assms(2)
      by (auto simp: in_set_conv_nth)
    then show "sec_top sec - 200 \<le> sec_top (secs ! k)" using so [of i k] assms(2) by simp
  qed
  moreover have "\<forall>sec \<in> set (drop (Suc k) secs). \<not> sec_top sec - 200 \<le> sec_top (secs ! k)"
  proof
    fix sec assume "sec \<in> set (drop (Suc k) secs)"
    then obtain j where "j < length (drop (Suc k) secs)" "sec = drop (Suc k) secs ! j"
      by (auto simp: in_set_conv_nth)
    then have j: "Suc k + j < length secs" "sec = secs ! (Suc k + j)" by simp_all
    then have "sec_top (secs ! Suc k) \<le> sec_top sec" using so [of "Suc k" "Suc k + j"] by simp
    then show "\<not> sec_top sec - 200 \<le> sec_top (secs ! k)" using assms(3) j(1) by simp
  qed
  ultimately show ?thesis
    using append_take_drop_id [of "Suc k" secs] filter_append [of _ "take (Suc k) secs" "drop (Suc k) secs"]
    by (metis filter_False filter_True append_Nil2)
qed

lemma passed_mono: "y \<le> y' \<Longrightarrow> passed y secs \<le> passed y' secs"
  unfolding passed_def by (induction secs) auto

lemma passed_le: "passed y secs \<le> length secs"
  by (simp add: passed_def)

section \<open>Properties\<close>

text \<open>
  C25. The scroll listener highlights the link of the last section reached. For
  sections in document order (tops ascending), after a scroll to \<open>y\<close> exactly the links
  whose \<open>href\<close> is \<open>#\<close> followed by the id of the last section whose top minus
  200 px is at most \<open>y\<close> are active, all others inactive; with no section reached,
  the links with \<open>href="#"\<close> are the active ones. Scrolling further down never moves
  the highlight to an earlier section.
\<close>

theorem scroll_spy_current:
  assumes "sorted (map sec_top secs)"
  shows "links (on_scroll y secs s) =
      map (\<lambda>l. l\<lparr>link_active := (link_href l =
             CHR ''#'' # (if passed y secs = 0 then [] else sec_id (secs ! (passed y secs - 1))))\<rparr>)
          (links s)
    \<and> (y \<le> y' \<longrightarrow> passed y secs \<le> passed y' secs)"
proof -
  have "current_section y secs [] =
      (if passed y secs = 0 then [] else sec_id (secs ! (passed y secs - 1)))"
  proof (cases "passed y secs")
    case 0
    then show ?thesis
      using filter_sorted_prefix [OF assms, of y] by (simp add: current_section_last)
  next
    case (Suc k)
    then have k: "k < length secs" using passed_le [of y secs] by simp
    then have l: "last (take (Suc k) secs) = secs ! k" by (simp add: take_Suc_conv_app_nth)
    have "take (Suc k) secs \<noteq> []" using k by (cases secs) auto
    then have "(case take (Suc k) secs of [] \<Rightarrow> [] | xs \<Rightarrow> sec_id (last xs)) = sec_id (secs ! k)"
      using l by (cases "take (Suc k) secs") auto
    then show ?thesis
      using filter_sorted_prefix [OF assms, of y] Suc by (simp add: current_section_last)
  qed
  then show ?thesis by (simp add: on_scroll_def passed_mono)
qed

theorem scroll_spy_current_witness:
  "links (on_scroll 900
      [\<lparr>sec_id = ''home'', sec_top = 0\<rparr>, \<lparr>sec_id = ''markets'', sec_top = 800\<rparr>,
       \<lparr>sec_id = ''planets'', sec_top = 1600\<rparr>]
      \<lparr>menu_active = False, toggle_active = False,
       links = [\<lparr>link_href = ''#home'', link_active = True\<rparr>,
                \<lparr>link_href = ''#markets'', link_active = False\<rparr>],
       scroll_requests = []\<rparr>)
   = [\<lparr>link_href = ''#home'', link_active = False\<rparr>, \<lparr>link_href = ''#markets'', link_active = True\<rparr>]"
proof -
  have so: "sorted (map sec_top
      [\<lparr>sec_id = ''home'', sec_top = 0\<rparr>, \<lparr>sec_id = ''markets'', sec_top = 800\<rparr>,
       \<lparr>sec_id = ''planets'', sec_top = (1600::real)\<rparr>])" by simp
  show ?thesis using scroll_spy_current [OF so, of 900] by (simp add: passed_def)
qed

text \<open>
  C26. The in-page link handler on each branch: a bare \<open>"#"\<close> link makes
  \<open>querySelector\<close> throw a \<open>SyntaxError\<close>, so the click does nothing (its default
  was already prevented); a link to the id of an element of the page requests a 1.5 s
  smooth scroll to it; a link to an id that no element has does nothing.
\<close>

theorem anchor_click_branches:
  "anchor_click ids ''#'' s = Inl (SyntaxError ''#'')
   \<and> (css_ident name \<longrightarrow> name \<in> set ids \<longrightarrow>
        anchor_click ids (CHR ''#'' # name) s =
          Inr (s\<lparr>scroll_requests := scroll_requests s @ [(name, 1.5)]\<rparr>))
   \<and> (css_ident name \<longrightarrow> name \<notin> set ids \<longrightarrow> anchor_click ids (CHR ''#'' # name) s = Inr s)"
  by (simp add: anchor_click_def query_hash_def)

theorem anchor_click_branches_witness:
  "anchor_click [''markets'', ''planets''] ''#markets'' \<lparr>menu_active = False, toggle_active = False, links = [], scroll_requests = []\<rparr> =
     Inr (\<lparr>menu_active = False, toggle_active = False, links = [], scroll_requests = []\<rparr>\<lparr>scroll_requests := [(''markets'', 1.5)]\<rparr>)
   \<and> anchor_click [''markets''] ''#'' \<lparr>menu_active = False, toggle_active = False, links = [], scroll_requests = []\<rparr> = Inl (SyntaxError ''#'')"
proof -
  have i: "css_ident ''markets''" by (simp add: ident_start_def ident_char_def)
  show ?thesis
    using anchor_click_branches [of "[''markets'', ''planets'']" "\<lparr>menu_active = False, toggle_active = False, links = [], scroll_requests = []\<rparr>" "''markets''"]
      anchor_click_branches [of "[''markets'']" "\<lparr>menu_active = False, toggle_active = False, links = [], scroll_requests = []\<rparr>"]
      i by simp
qed

end
