(* ===== verification/Interactions.thy ===== *)
theory Interactions
  imports Particles
begin

text \<open>
  \<open>initInteractiveElements\<close> of \<open>src/script.js\<close>: the \<open>mouseenter\<close> and
  \<open>mouseleave\<close> tweens of the buttons (\<open>.btn\<close>), the market cards and the planet
  list items, and the click handlers of the two call-to-action buttons.

  Each handler starts a GSAP tween (\<open>gsap.to\<close>) on one or two properties of its
  element. GSAP 3 does not overwrite by default: tweens of the same property that
  overlap all keep running, each rendering its own interpolation on every tick, the
  later-started one after the earlier one. Once all of them are complete, the
  property therefore holds the target of the tween that ended last, and of the
  later-created one among those ending together. A tween is modelled by its start time
  (seconds), duration and target, a property by the list of its tweens in creation
  order, and \<open>settle\<close> is the value the property rests at when they are all
  complete. Easing affects the path, not the end value, and is not modelled.
\<close>

section \<open>GSAP tweens of one property\<close>

record gsap_tween =
  tw_start :: real
  tw_dur :: real
  tw_to :: real

definition tw_end :: "gsap_tween \<Rightarrow> real" where
  "tw_end tw = tw_start tw + tw_dur tw"

definition gsap_to :: "real \<Rightarrow> real \<Rightarrow> real \<Rightarrow> gsap_tween list \<Rightarrow> gsap_tween list" where
  "gsap_to t dur v tws = tws @ [\<lparr>tw_start = t, tw_dur = dur, tw_to = v\<rparr>]"

definition settle_step :: "gsap_tween \<Rightarrow> (real \<times> real) option \<Rightarrow> (real \<times> real) option" where
  "settle_step tw acc =
     (case acc of
        None \<Rightarrow> Some (tw_end tw, tw_to tw)
      | Some (e, v) \<Rightarrow> if e \<le> tw_end tw then Some (tw_end tw, tw_to tw) else Some (e, v))"

definition settle :: "real \<Rightarrow> gsap_tween list \<Rightarrow> real" where
  "settle v0 tws = (case fold settle_step tws None of None \<Rightarrow> v0 | Some (e, v) \<Rightarrow> v)"

section \<open>Hover handlers\<close>

text \<open>The tweens each handler starts on the element's \<open>scale\<close>, \<open>y\<close> and
  \<open>rotationY\<close>, in creation order. Only the hover tweens are recorded: a market card's
  \<open>y\<close> is also driven by the ScrollTrigger from-tween of \<open>initGSAPAnimations\<close>
  (\<open>Reveal\<close>), which this record leaves out, so the card lists describe the hover
  handlers alone. The \<open>.hero-buttons .btn\<close> entrance tween drives \<open>y\<close> and
  \<open>opacity\<close>, not \<open>scale\<close>.\<close>

record hover_el =
  el_scale :: "gsap_tween list"
  el_y :: "gsap_tween list"
  el_rot_y :: "gsap_tween list"

definition hover_el_init :: hover_el where
  "hover_el_init = \<lparr>el_scale = [], el_y = [], el_rot_y = []\<rparr>"

definition btn_mouseenter :: "real \<Rightarrow> hover_el \<Rightarrow> hover_el" where
  "btn_mouseenter t e = e\<lparr>el_scale := gsap_to t 0.3 1.05 (el_scale e)\<rparr>"

definition btn_mouseleave :: "real \<Rightarrow> hover_el \<Rightarrow> hover_el" where
  "btn_mouseleave t e = e\<lparr>el_scale := gsap_to t 0.3 1 (el_scale e)\<rparr>"

definition card_mouseenter :: "real \<Rightarrow> hover_el \<Rightarrow> hover_el" where
  "card_mouseenter t e = e\<lparr>el_y := gsap_to t 0.3 (-10) (el_y e)\<rparr>"

definition card_mouseleave :: "real \<Rightarrow> hover_el \<Rightarrow> hover_el" where
  "card_mouseleave t e = e\<lparr>el_y := gsap_to t 0.3 0 (el_y e)\<rparr>"

text \<open>The planet handlers tween the item's \<open>.planet-sphere\<close>: on enter its scale and a
  turn to \<open>rotationY: 360\<close> over 0.5 s, on leave only the scale, over 0.3 s.\<close>

definition planet_mouseenter :: "real \<Rightarrow> hover_el \<Rightarrow> hover_el" where
  "planet_mouseenter t e =
     e\<lparr>el_scale := gsap_to t 0.5 1.1 (el_scale e), el_rot_y := gsap_to t 0.5 360 (el_rot_y e)\<rparr>"

definition planet_mouseleave :: "real \<Rightarrow> hover_el \<Rightarrow> hover_el" where
  "planet_mouseleave t e = e\<lparr>el_scale := gsap_to t 0.3 1 (el_scale e)\<rparr>"

datatype hover_kind = ButtonEl | CardEl | PlanetEl

fun hover_handler :: "hover_kind \<Rightarrow> bool \<Rightarrow> real \<Rightarrow> hover_el \<Rightarrow> hover_el" where
  "hover_handler ButtonEl enter t = (if enter then btn_mouseenter t else btn_mouseleave t)"
| "hover_handler CardEl enter t = (if enter then card_mouseenter t else card_mouseleave t)"
| "hover_handler PlanetEl enter t = (if enter then planet_mouseenter t else planet_mouseleave t)"

text \<open>A pointer history: events \<open>(t, enter)\<close> in order.\<close>

fun hover_run :: "hover_kind \<Rightarrow> (real \<times> bool) list \<Rightarrow> hover_el \<Rightarrow> hover_el" where
  "hover_run k [] e = e"
| "hover_run k ((t, enter) # evs) e = hover_run k evs (hover_handler k enter t e)"

text \<open>The turn the sphere makes on a new \<open>mouseenter\<close> after the history \<open>h\<close>, once
  the earlier tweens are complete: from where its rotation rests to 360 degrees.\<close>

definition next_hover_turn :: "(real \<times> bool) list \<Rightarrow> real" where
  "next_hover_turn h = 360 - settle 0 (el_rot_y (hover_run PlanetEl h hover_el_init))"

section \<open>Call-to-action buttons\<close>

record cta_page =
  pdom :: dom
  prng :: rng
  scroll_to :: "(string \<times> real) list"

definition explore_click :: "rect \<Rightarrow> cta_page \<Rightarrow> cta_page" where
  "explore_click r p =
     (let (d, g) = createParticleExplosion r (prng p) (pdom p)
      in p\<lparr>pdom := d, prng := g, scroll_to := scroll_to p @ [(''#markets'', 2)]\<rparr>)"

definition learn_click :: "cta_page \<Rightarrow> cta_page" where
  "learn_click p = p\<lparr>scroll_to := scroll_to p @ [(''#planets'', 2)]\<rparr>"

section \<open>Lemmas\<close>

lemma settle_Nil [simp]: "settle v0 [] = v0"
  by (simp add: settle_def)

lemma settle_step_simps [simp]:
  "settle_step tw None = Some (tw_end tw, tw_to tw)"
  "settle_step tw (Some (e, v)) = (if e \<le> tw_end tw then Some (tw_end tw, tw_to tw) else Some (e, v))"
  by (simp_all add: settle_step_def)

lemma settle_step_max:
  "settle_step tw (Some (m, v)) = Some (max (tw_end tw) m, if m \<le> tw_end tw then tw_to tw else v)"
  by (simp add: max_def)

lemma settle_single [simp]: "settle v0 [tw] = tw_to tw"
  by (simp add: settle_def)

lemma fold_settle_step:
  "tws \<noteq> [] \<Longrightarrow> \<exists>v. fold settle_step tws None = Some (Max (tw_end ` set tws), v)"
proof (induction tws rule: rev_induct)
  case Nil
  then show ?case by simp
next
  case (snoc tw tws)
  show ?case
  proof (cases "tws = []")
    case True
    then show ?thesis by (simp add: settle_step_def)
  next
    case False
    with snoc.IH obtain v where f: "fold settle_step tws None = Some (Max (tw_end ` set tws), v)" by blast
    have m: "Max (tw_end ` set (tws @ [tw])) = max (tw_end tw) (Max (tw_end ` set tws))"
      using False by simp
    show ?thesis unfolding m using f by (simp only: fold_append fold.simps comp_def id_def settle_step_max) blast
  qed
qed

lemma settle_snoc:
  "settle v0 (tws @ [tw]) =
     (if \<forall>x \<in> set tws. tw_end x \<le> tw_end tw then tw_to tw else settle v0 tws)"
proof (cases "tws = []")
  case True
  then show ?thesis by (simp add: settle_def)
next
  case False
  then obtain v where f: "fold settle_step tws None = Some (Max (tw_end ` set tws), v)"
    using fold_settle_step by blast
  have "Max (tw_end ` set tws) \<le> tw_end tw \<longleftrightarrow> (\<forall>x \<in> set tws. tw_end x \<le> tw_end tw)"
    using False by simp
  with f show ?thesis by (simp add: settle_def)
qed

lemma settle_same_target:
  "\<forall>x \<in> set tws. tw_to x = c \<Longrightarrow> tws \<noteq> [] \<Longrightarrow> settle v0 tws = c"
proof (induction tws rule: rev_induct)
  case Nil
  then show ?case by simp
next
  case (snoc tw tws)
  then show ?case by (cases "tws = []") (auto simp: settle_snoc)
qed

lemma settle_equal_durations:
  "sorted (map tw_start tws) \<Longrightarrow> \<forall>x \<in> set tws. tw_dur x = c \<Longrightarrow> tws \<noteq> [] \<Longrightarrow>
     settle v0 tws = tw_to (last tws)"
proof (induction tws rule: rev_induct)
  case Nil
  then show ?case by simp
next
  case (snoc tw tws)
  then have "\<forall>x \<in> set tws. tw_end x \<le> tw_end tw"
    by (auto simp: tw_end_def sorted_append)
  then show ?case by (simp add: settle_snoc)
qed

lemma hover_run_append: "hover_run k (xs @ ys) e = hover_run k ys (hover_run k xs e)"
  by (induction xs arbitrary: e) auto

lemma hover_run_button:
  "el_scale (hover_run ButtonEl evs e) =
     el_scale e @ map (\<lambda>(t, en). \<lparr>tw_start = t, tw_dur = 0.3, tw_to = if en then 1.05 else 1\<rparr>) evs"
  by (induction evs arbitrary: e) (auto simp: btn_mouseenter_def btn_mouseleave_def gsap_to_def)

lemma hover_run_card:
  "el_y (hover_run CardEl evs e) =
     el_y e @ map (\<lambda>(t, en). \<lparr>tw_start = t, tw_dur = 0.3, tw_to = if en then -10 else 0\<rparr>) evs"
  by (induction evs arbitrary: e) (auto simp: card_mouseenter_def card_mouseleave_def gsap_to_def)

lemma hover_run_planet:
  "el_scale (hover_run PlanetEl evs e) =
     el_scale e @ map (\<lambda>(t, en). if en then \<lparr>tw_start = t, tw_dur = 0.5, tw_to = 1.1\<rparr>
                                   else \<lparr>tw_start = t, tw_dur = 0.3, tw_to = 1\<rparr>) evs
   \<and> el_rot_y (hover_run PlanetEl evs e) =
     el_rot_y e @ map (\<lambda>(t, en). \<lparr>tw_start = t, tw_dur = 0.5, tw_to = 360\<rparr>) (filter snd evs)"
  by (induction evs arbitrary: e)
     (auto simp: planet_mouseenter_def planet_mouseleave_def gsap_to_def)

lemma planet_scale_ends:
  "\<forall>x \<in> set h. fst x \<le> t \<Longrightarrow>
     \<forall>x \<in> set (el_scale (hover_run PlanetEl h hover_el_init)). tw_end x \<le> t + 0.5"
  by (auto simp: hover_run_planet hover_el_init_def tw_end_def split: if_splits)

section \<open>Properties\<close>

text \<open>
  C27. Buttons rest where the pointer last left them: for any pointer history in time
  order, once the tweens are complete a button's scale is 1.05 if the last event was a
  \<open>mouseenter\<close> and 1 if it was a \<open>mouseleave\<close>. Both handlers use the same
  0.3 s duration, so the last tween started is the last to end. This holds for every
  \<open>.btn\<close> whose scale no other tween drives, i.e. all but the form's submit button,
  which the submit handler also pulses.
\<close>

theorem hover_rests_at_last:
  assumes "sorted (map fst evs)" and "evs \<noteq> []"
  shows "settle 1 (el_scale (hover_run ButtonEl evs hover_el_init)) = (if snd (last evs) then 1.05 else 1)"
proof -
  let ?v = "\<lambda>en. if en then 1.05 else (1::real)"
  let ?tws = "map (\<lambda>(t, en). \<lparr>tw_start = t, tw_dur = 0.3, tw_to = ?v en\<rparr>) evs"
  have "sorted (map tw_start ?tws)" using assms(1) by (simp add: comp_def split_beta)
  moreover have "\<forall>x \<in> set ?tws. tw_dur x = 0.3" by auto
  moreover have "?tws \<noteq> []" using assms(2) by simp
  ultimately have "settle 1 ?tws = tw_to (last ?tws)" by (rule settle_equal_durations)
  then have "settle 1 ?tws = ?v (snd (last evs))" using assms(2) by (simp add: last_map split_beta)
  then show ?thesis by (simp add: hover_run_button hover_el_init_def)
qed

theorem hover_rests_at_last_witness:
  "settle 1 (el_scale (hover_run ButtonEl [(0, True), (1.5, False)] hover_el_init)) = 1"
proof -
  have "sorted (map fst [(0::real, True), (1.5, False)])" "[(0::real, True), (1.5, False)] \<noteq> []"
    by simp_all
  from hover_rests_at_last [OF this] show ?thesis by simp
qed

text \<open>
  C28. Defect: a planet item that the pointer leaves less than 0.2 s after entering
  stays enlarged. The enter tween (to scale 1.1, 0.5 s) then ends after the leave tween
  (to scale 1, 0.3 s), so once both are complete the sphere rests at 1.1 with the
  pointer outside; a longer hover returns it to 1. This holds after any earlier
  history.
\<close>

theorem planet_quick_leave_sticks:
  assumes "\<forall>x \<in> set h. fst x \<le> t" and "0 \<le> d"
  shows "settle 1 (el_scale (hover_run PlanetEl (h @ [(t, True), (t + d, False)]) hover_el_init))
           = (if d < 0.2 then 1.1 else 1)"
proof -
  let ?P = "el_scale (hover_run PlanetEl h hover_el_init)"
  let ?E = "\<lparr>tw_start = t, tw_dur = 0.5, tw_to = 1.1\<rparr>" and ?L = "\<lparr>tw_start = t + d, tw_dur = 0.3, tw_to = 1\<rparr>"
  have run: "el_scale (hover_run PlanetEl (h @ [(t, True), (t + d, False)]) hover_el_init) = (?P @ [?E]) @ [?L]"
    by (simp add: hover_run_append planet_mouseenter_def planet_mouseleave_def gsap_to_def)
  have P: "\<forall>x \<in> set ?P. tw_end x \<le> t + 0.5" by (rule planet_scale_ends [OF assms(1)])
  have E: "settle 1 (?P @ [?E]) = 1.1" using P by (simp add: settle_snoc tw_end_def)
  have L: "settle 1 ((?P @ [?E]) @ [?L]) =
      (if \<forall>x \<in> set (?P @ [?E]). tw_end x \<le> tw_end ?L then tw_to ?L else settle 1 (?P @ [?E]))"
    by (rule settle_snoc)
  show ?thesis
  proof (cases "d < 0.2")
    case True
    then have "\<not> (\<forall>x \<in> set (?P @ [?E]). tw_end x \<le> tw_end ?L)" by (simp add: tw_end_def)
    then show ?thesis using run L E True by simp
  next
    case False
    then have "\<forall>x \<in> set (?P @ [?E]). tw_end x \<le> tw_end ?L" using P by (auto simp: tw_end_def)
    then show ?thesis using run L False by simp
  qed
qed

theorem planet_quick_leave_sticks_witness:
  "settle 1 (el_scale (hover_run PlanetEl [(2, True), (2.1, False)] hover_el_init)) = 1.1"
proof -
  have "\<forall>x \<in> set ([] :: (real \<times> bool) list). fst x \<le> 2" "(0::real) \<le> 0.1" by simp_all
  from planet_quick_leave_sticks [OF this] show ?thesis by simp
qed

text \<open>
  C29. Defect: the "full rotation" of a planet happens on the first hover only. The
  enter handler tweens \<open>rotationY\<close> to the absolute value 360 and nothing turns it
  back, so once a first hover's tween is complete every later hover turns the sphere by
  0 degrees; only a sphere that was never hovered turns by 360.
\<close>

theorem planet_turns_once:
  "next_hover_turn h = (if \<exists>x \<in> set h. snd x then 0 else 360)"
proof (cases "\<exists>x \<in> set h. snd x")
  case True
  then have "filter snd h \<noteq> []" by (simp add: filter_empty_conv)
  then have "settle 0 (el_rot_y (hover_run PlanetEl h hover_el_init)) = 360"
    by (intro settle_same_target) (auto simp: hover_run_planet hover_el_init_def)
  with True show ?thesis by (simp add: next_hover_turn_def)
next
  case False
  then have "filter snd h = []" by (simp add: filter_empty_conv)
  with False show ?thesis by (simp add: next_hover_turn_def hover_run_planet hover_el_init_def)
qed

end
