(* ===== verification/Utilities.thy ===== *)
theory Utilities
  imports Prelude
begin

text \<open>
  The two helpers of \<open>src/script.js\<close> that stand alone: \<open>debounce(func, wait,
  immediate)\<close> and the easing curve \<open>initSmoothScrolling\<close> gives to Lenis.

  \<open>debounce\<close> returns a function whose closure holds one variable, \<open>timeout\<close>.
  The model's state is that variable, the timers it set (on the virtual-time scheduler
  of \<open>Prelude\<close>, each carrying the arguments its \<open>later\<close> closure captured) and
  the list of calls made to \<open>func\<close>, with their arguments. The page's behaviour is
  the inductive relation \<open>deb_step\<close>: a call of the debounced function, time passing
  without a timer falling due, or the earliest timer firing. \<open>deb_exec\<close> is the same
  machine as a function of an event, and the two are shown to agree. The script
  defines \<open>debounce\<close> but never calls it; the model is of the function as written.
\<close>

section \<open>debounce\<close>

record 'a deb_state =
  deb_timeout :: "nat option"
  deb_timers :: "'a sched"
  deb_calls :: "'a list"

definition deb_init :: "'a deb_state" where
  "deb_init = \<lparr>deb_timeout = None, deb_timers = sched_init, deb_calls = []\<rparr>"

text \<open>\<open>executedFunction(...args)\<close>: \<open>callNow = immediate && !timeout\<close>,
  \<open>clearTimeout(timeout)\<close>, \<open>timeout = setTimeout(later, wait)\<close>, then \<open>func\<close> if
  \<open>callNow\<close>.\<close>

definition deb_call :: "bool \<Rightarrow> nat \<Rightarrow> 'a \<Rightarrow> 'a deb_state \<Rightarrow> 'a deb_state" where
  "deb_call immediate wait args s =
     (let callNow = immediate \<and> deb_timeout s = None;
          t1 = clear_timeout (deb_timeout s) (deb_timers s);
          (tid, t2) = set_timeout args wait t1
      in s\<lparr>deb_timeout := Some tid, deb_timers := t2,
           deb_calls := deb_calls s @ (if callNow then [args] else [])\<rparr>)"

text \<open>\<open>later\<close>: \<open>timeout = null\<close>, then \<open>func\<close> unless \<open>immediate\<close>.\<close>

definition deb_later :: "bool \<Rightarrow> 'a \<Rightarrow> 'a deb_state \<Rightarrow> 'a deb_state" where
  "deb_later immediate args s =
     s\<lparr>deb_timeout := None, deb_calls := deb_calls s @ (if immediate then [] else [args])\<rparr>"

definition deb_advance :: "nat \<Rightarrow> 'a deb_state \<Rightarrow> 'a deb_state" where
  "deb_advance d s = s\<lparr>deb_timers := (deb_timers s)\<lparr>now := now (deb_timers s) + d\<rparr>\<rparr>"

definition deb_quiet :: "nat \<Rightarrow> 'a deb_state \<Rightarrow> bool" where
  "deb_quiet d s \<longleftrightarrow> (\<forall>e \<in> set (queue (deb_timers s)). now (deb_timers s) + d \<le> fst (snd e))"

inductive deb_step :: "bool \<Rightarrow> nat \<Rightarrow> 'a deb_state \<Rightarrow> 'a deb_state \<Rightarrow> bool"
  for immediate wait where
  call: "deb_step immediate wait s (deb_call immediate wait a s)"
| pass: "deb_quiet d s \<Longrightarrow> deb_step immediate wait s (deb_advance d s)"
| fire: "pop_timer (deb_timers s) = Some (a, t) \<Longrightarrow>
           deb_step immediate wait s (deb_later immediate a (s\<lparr>deb_timers := t\<rparr>))"

code_pred deb_step .

datatype 'a deb_event = DCall 'a | DWait nat | DFire

fun deb_exec :: "bool \<Rightarrow> nat \<Rightarrow> 'a deb_state \<Rightarrow> 'a deb_event \<Rightarrow> 'a deb_state option" where
  "deb_exec immediate wait s (DCall a) = Some (deb_call immediate wait a s)"
| "deb_exec immediate wait s (DWait d) = (if deb_quiet d s then Some (deb_advance d s) else None)"
| "deb_exec immediate wait s DFire =
     (case pop_timer (deb_timers s) of
        None \<Rightarrow> None
      | Some (a, t) \<Rightarrow> Some (deb_later immediate a (s\<lparr>deb_timers := t\<rparr>)))"

fun deb_run :: "bool \<Rightarrow> nat \<Rightarrow> 'a deb_state \<Rightarrow> 'a deb_event list \<Rightarrow> 'a deb_state option" where
  "deb_run immediate wait s [] = Some s"
| "deb_run immediate wait s (e # es) =
     (case deb_exec immediate wait s e of None \<Rightarrow> None | Some s' \<Rightarrow> deb_run immediate wait s' es)"

text \<open>The state invariant: at most one timer is pending, and it is the one
  \<open>timeout\<close> names.\<close>

definition deb_inv :: "'a deb_state \<Rightarrow> bool" where
  "deb_inv s \<longleftrightarrow>
     map fst (queue (deb_timers s)) = (case deb_timeout s of None \<Rightarrow> [] | Some i \<Rightarrow> [i])"

text \<open>A burst: calls with arguments \<open>a # as\<close>, each after a pause of the
  corresponding \<open>gs\<close> ms.\<close>

fun burst :: "'a \<Rightarrow> (nat \<times> 'a) list \<Rightarrow> 'a deb_event list" where
  "burst a [] = [DCall a]"
| "burst a ((g, b) # gbs) = DCall a # DWait g # burst b gbs"






section \<open>Lenis easing\<close>

definition lenis_easing :: "real \<Rightarrow> real" where
  "lenis_easing t = min 1 (1.001 - 2 powr (-10 * t))"

section \<open>Lemmas on debounce\<close>

inductive_simps deb_step_iff: "deb_step immediate wait s s'"

inductive_cases deb_stepE: "deb_step immediate wait s s'"

lemma deb_exec_step: "deb_exec immediate wait s e = Some s' \<Longrightarrow> deb_step immediate wait s s'"
  by (cases e) (auto intro: deb_step.intros split: if_splits option.splits)

lemma deb_step_exec: "deb_step immediate wait s s' \<Longrightarrow> \<exists>e. deb_exec immediate wait s e = Some s'"
proof (induction rule: deb_step.induct)
  case (call s a)
  then show ?case by (metis deb_exec.simps(1))
next
  case (pass d s)
  then show ?case by (metis deb_exec.simps(2))
next
  case (fire s a t)
  then show ?case by (metis deb_exec.simps(3) option.simps(5) prod.simps(2))
qed

lemma deb_run_append:
  "deb_run immediate wait s (xs @ ys) =
     (case deb_run immediate wait s xs of None \<Rightarrow> None | Some s' \<Rightarrow> deb_run immediate wait s' ys)"
  by (induction xs arbitrary: s) (auto split: option.splits)

lemma deb_inv_idle: "deb_inv s \<Longrightarrow> deb_timeout s = None \<Longrightarrow> queue (deb_timers s) = []"
  by (simp add: deb_inv_def)

lemma deb_call_queue:
  assumes "deb_inv s"
  shows "queue (deb_timers (deb_call immediate wait a s)) =
           [(next_tid (deb_timers s), now (deb_timers s) + wait, a)]
    \<and> deb_timeout (deb_call immediate wait a s) = Some (next_tid (deb_timers s))
    \<and> now (deb_timers (deb_call immediate wait a s)) = now (deb_timers s)
    \<and> deb_calls (deb_call immediate wait a s) =
        deb_calls s @ (if immediate \<and> deb_timeout s = None then [a] else [])"
proof -
  have "queue (clear_timeout (deb_timeout s) (deb_timers s)) = []"
    using assms by (cases "deb_timeout s")
      (auto simp: deb_inv_def clear_timeout_def filter_empty_conv dest: arg_cong [where f = set])
  moreover have "next_tid (clear_timeout (deb_timeout s) (deb_timers s)) = next_tid (deb_timers s)"
    "now (clear_timeout (deb_timeout s) (deb_timers s)) = now (deb_timers s)"
    by (simp_all add: clear_timeout_def split: option.splits)
  ultimately show ?thesis
    by (simp add: deb_call_def set_timeout_def Let_def)
qed

lemma deb_inv_step: "deb_step immediate wait s s' \<Longrightarrow> deb_inv s \<Longrightarrow> deb_inv s'"
proof (induction rule: deb_step.induct)
  case (call s a)
  then show ?case using deb_call_queue [OF call] by (simp add: deb_inv_def)
next
  case (pass d s)
  then show ?case by (simp add: deb_inv_def deb_advance_def)
next
  case (fire s a t)
  obtain e where "e \<in> set (queue (deb_timers s))" "queue t = remove1 e (queue (deb_timers s))"
    using fire.hyps by (rule pop_timer_SomeE)
  with fire.prems show ?case
    by (cases "deb_timeout s") (auto simp: deb_inv_def deb_later_def)
qed




lemma deb_inv_reach: "(deb_step immediate wait)\<^sup>*\<^sup>* deb_init s \<Longrightarrow> deb_inv s"
proof (induction rule: rtranclp_induct)
  case base
  then show ?case by (simp add: deb_inv_def deb_init_def sched_init_def)
next
  case (step y z)
  then show ?case by (blast intro: deb_inv_step)
qed

lemma deb_burst:
  assumes "deb_inv s" and "\<forall>(g, b) \<in> set gbs. g < wait"
  shows "\<exists>s'. deb_run immediate wait s (burst a gbs) = Some s' \<and> deb_inv s' \<and> deb_timeout s' \<noteq> None
    \<and> (\<exists>i. queue (deb_timers s') = [(i, now (deb_timers s') + wait, last (a # map snd gbs))])
    \<and> now (deb_timers s') = now (deb_timers s) + sum_list (map fst gbs)
    \<and> deb_calls s' = deb_calls s @ (if immediate \<and> deb_timeout s = None then [a] else [])"
  using assms
proof (induction gbs arbitrary: a s)
  case Nil
  then show ?case
    using deb_call_queue [OF Nil(1)] deb_inv_step [OF deb_step.call Nil(1)] by auto
next
  case (Cons gb gbs)
  obtain g b where gb: "gb = (g, b)" by fastforce
  let ?s1 = "deb_call immediate wait a s"
  let ?s2 = "deb_advance g ?s1"
  have q1: "queue (deb_timers ?s1) = [(next_tid (deb_timers s), now (deb_timers s) + wait, a)]"
    and c1: "deb_timeout ?s1 = Some (next_tid (deb_timers s))" "now (deb_timers ?s1) = now (deb_timers s)"
    "deb_calls ?s1 = deb_calls s @ (if immediate \<and> deb_timeout s = None then [a] else [])"
    using deb_call_queue [OF Cons.prems(1)] by simp_all
  have g: "g < wait" using Cons.prems(2) gb by simp
  then have quiet: "deb_quiet g ?s1" using q1 c1 by (simp add: deb_quiet_def)
  have inv1: "deb_inv ?s1" by (rule deb_inv_step [OF deb_step.call Cons.prems(1)])
  have inv2: "deb_inv ?s2" by (rule deb_inv_step [OF deb_step.pass [OF quiet] inv1])
  have "\<forall>(g, b) \<in> set gbs. g < wait" using Cons.prems(2) by simp
  from Cons.IH [where a = b and s = ?s2, OF inv2 this]
  obtain s' where s': "deb_run immediate wait ?s2 (burst b gbs) = Some s' \<and> deb_inv s'
    \<and> deb_timeout s' \<noteq> None
    \<and> (\<exists>i. queue (deb_timers s') = [(i, now (deb_timers s') + wait, last (b # map snd gbs))])
    \<and> now (deb_timers s') = now (deb_timers ?s2) + sum_list (map fst gbs)
    \<and> deb_calls s' = deb_calls ?s2 @ (if immediate \<and> deb_timeout ?s2 = None then [b] else [])" ..
  have run: "deb_run immediate wait s (burst a (gb # gbs)) = Some s'"
    using s' quiet gb by simp
  have t2: "deb_timeout ?s2 = Some (next_tid (deb_timers s))" "now (deb_timers ?s2) = now (deb_timers s) + g"
    "deb_calls ?s2 = deb_calls ?s1"
    using c1 by (simp_all add: deb_advance_def)
  have "last (b # map snd gbs) = last (a # map snd (gb # gbs))" using gb by simp
  then show ?case
    using run s' t2 c1(3) gb by (clarsimp simp: algebra_simps)
qed

section \<open>Lemmas on the easing\<close>

lemma powr_neg_le_one: "0 \<le> t \<Longrightarrow> (2::real) powr (-10 * t) \<le> 1"
  using powr_mono [of "-10 * t" 0 "2::real"] by simp

lemma lenis_easing_mono: "t \<le> t' \<Longrightarrow> lenis_easing t \<le> lenis_easing t'"
  unfolding lenis_easing_def by (intro min.mono order_refl diff_left_mono powr_mono) auto

section \<open>Properties\<close>

text \<open>
  C30. The state invariant of \<open>debounce\<close>: in every state reachable from the
  initial one, at most one timer is pending, and the pending timer is exactly the one the
  closure's \<open>timeout\<close> names (none when it is \<open>null\<close>). So every call cancels the
  previous pending \<open>later\<close>, and \<open>func\<close> is never run twice for one burst.
\<close>

theorem debounce_single_timer:
  assumes "(deb_step immediate wait)\<^sup>*\<^sup>* deb_init s"
  shows "map fst (queue (deb_timers s)) = (case deb_timeout s of None \<Rightarrow> [] | Some i \<Rightarrow> [i])
    \<and> length (queue (deb_timers s)) \<le> 1"
proof -
  have "deb_inv s" by (rule deb_inv_reach [OF assms])
  then have "length (queue (deb_timers s)) = length (case deb_timeout s of None \<Rightarrow> [] | Some i \<Rightarrow> [i])"
    unfolding deb_inv_def by (metis length_map)
  with \<open>deb_inv s\<close> show ?thesis by (cases "deb_timeout s") (simp_all add: deb_inv_def)
qed

theorem debounce_single_timer_witness:
  "length (queue (deb_timers (deb_call False 100 (2::nat) (deb_call False 100 1 deb_init)))) \<le> 1"
proof -
  have "(deb_step False 100)\<^sup>*\<^sup>* deb_init (deb_call False 100 (2::nat) (deb_call False 100 1 deb_init))"
    by (meson deb_step.call rtranclp.rtrancl_into_rtrancl rtranclp.rtrancl_refl)
  from debounce_single_timer [OF this] show ?thesis by blast
qed



text \<open>
  The executable machine \<open>deb_exec\<close> and the step relation \<open>deb_step\<close> are the
  same: a state steps to another exactly when some event takes it there.
\<close>

theorem deb_exec_equiv:
  "deb_step immediate wait s s' \<longleftrightarrow> (\<exists>e. deb_exec immediate wait s e = Some s')"
  using deb_exec_step deb_step_exec by blast

text \<open>
  C32. A burst of calls, each less than \<open>wait\<close> ms after the previous one, made while
  no timer is pending: once the last timer fires, \<open>func\<close> has been called exactly
  once, with the first call's arguments in \<open>immediate\<close> mode and with the last
  call's arguments otherwise; the timer fires \<open>wait\<close> ms after the last call and
  the debounced function is idle again.
\<close>

theorem debounce_burst:
  assumes "deb_inv s" and "deb_timeout s = None" and "\<forall>(g, b) \<in> set gbs. g < wait"
  shows "\<exists>s'. deb_run immediate wait s (burst a gbs @ [DFire]) = Some s'
    \<and> deb_calls s' = deb_calls s @ [if immediate then a else last (a # map snd gbs)]
    \<and> deb_timeout s' = None \<and> queue (deb_timers s') = []
    \<and> now (deb_timers s') = now (deb_timers s) + sum_list (map fst gbs) + wait"
proof -
  obtain s1 i where r: "deb_run immediate wait s (burst a gbs) = Some s1"
    and q: "queue (deb_timers s1) = [(i, now (deb_timers s1) + wait, last (a # map snd gbs))]"
    and n: "now (deb_timers s1) = now (deb_timers s) + sum_list (map fst gbs)"
    and c: "deb_calls s1 = deb_calls s @ (if immediate then [a] else [])"
    using deb_burst [OF assms(1,3), of immediate a] assms(2) by auto
  show ?thesis
    using r q n c by (simp add: deb_run_append pop_timer_eq deb_later_def)
qed

theorem debounce_burst_witness:
  "deb_run False 100 deb_init (burst (1::nat) [(40, 2), (60, 3)] @ [DFire]) \<noteq> None"
proof -
  have "deb_inv (deb_init :: nat deb_state)" "deb_timeout (deb_init :: nat deb_state) = None"
    "\<forall>(g, b) \<in> set [(40::nat, 2::nat), (60, 3)]. g < 100"
    by (simp_all add: deb_inv_def deb_init_def sched_init_def)
  from debounce_burst [OF this, of False 1]
  obtain s' where "deb_run False 100 deb_init (burst (1::nat) [(40, 2), (60, 3)] @ [DFire]) = Some s'"
    by blast
  then show ?thesis by (simp only: option.distinct(2) not_False_eq_True)
qed

text \<open>
  The easing curve given to Lenis stays within \<open>[0.001, 1]\<close> for
  \<open>t \<ge> 0\<close> and never decreases; it starts at 0.001, not 0, so a scroll jumps 0.1% of
  its distance at once, and it reaches 1 at \<open>t = 1\<close>.
\<close>

theorem lenis_easing_bounds:
  assumes "0 \<le> t"
  shows "0.001 \<le> lenis_easing t \<and> lenis_easing t \<le> 1
    \<and> lenis_easing 0 = 0.001 \<and> lenis_easing 1 = 1"
proof -
  have "2 powr (-10 * t) \<le> 1" by (rule powr_neg_le_one [OF assms])
  moreover have "(2::real) powr (-10) = 1 / 1024"
    by (simp add: powr_minus powr_realpow)
  ultimately show ?thesis by (simp add: lenis_easing_def)
qed

theorem lenis_easing_bounds_witness: "0.001 \<le> lenis_easing 0.5 \<and> lenis_easing 0.5 \<le> 1"
  using lenis_easing_bounds [of "0.5"] by simp

end
