(* ===== verification/ScrollAnimations.thy ===== *)
theory ScrollAnimations
  imports Prelude
begin

text \<open>
  The parts of \<open>initGSAPAnimations\<close> in \<open>src/script.js\<close> that compute something:
  the schedule of the hero entrance timeline and the number counters.

  The hero timeline (\<open>gsap.timeline({delay: 3.5})\<close>) chains four \<open>from\<close> tweens. Each
  is placed by GSAP's position parameter: by default at the current end of the timeline,
  and with \<open>"-=x"\<close> at \<open>x\<close> seconds before it. A staggered tween on \<open>n\<close> elements
  lasts its duration plus \<open>stagger * (n - 1)\<close>. \<open>tl_schedule\<close> computes the start
  and end of each tween relative to the timeline's start.

  A counter reads its target with \<open>parseInt(element.getAttribute('data-target'))\<close>
  and, when the tween ends, shows \<open>Math.ceil(target).toLocaleString()\<close>. The two JS
  built-ins are modelled from their specifications: \<open>js_parseInt\<close> without a radix
  (leading white space, a sign, a \<open>0x\<close> prefix for hexadecimal, then the longest
  run of digits; \<open>NaN\<close>, here \<open>None\<close>, when there is no digit; only ASCII white space
  is modelled) and \<open>to_locale_string\<close> in the \<open>en-US\<close> locale (groups of three digits
  separated by commas). What a tween to \<open>NaN\<close> would show is not modelled.
\<close>

section \<open>Hero timeline\<close>

datatype tl_pos = AtEnd | BeforeEnd real

record tl_item =
  ti_dur :: real
  ti_stagger :: real
  ti_count :: nat
  ti_pos :: tl_pos

definition ti_length :: "tl_item \<Rightarrow> real" where
  "ti_length it = ti_dur it + ti_stagger it * (real (ti_count it) - 1)"

fun tl_schedule :: "real \<Rightarrow> tl_item list \<Rightarrow> (real \<times> real) list" where
  "tl_schedule e [] = []"
| "tl_schedule e (it # its) =
     (let st = (case ti_pos it of AtEnd \<Rightarrow> e | BeforeEnd x \<Rightarrow> e - x);
          en = st + ti_length it
      in (st, en) # tl_schedule (max e en) its)"

text \<open>The four tweens for \<open>lines\<close> title lines and \<open>btns\<close> hero buttons.\<close>

definition hero_items :: "nat \<Rightarrow> nat \<Rightarrow> tl_item list" where
  "hero_items lines btns =
     [\<lparr>ti_dur = 1, ti_stagger = 0.2, ti_count = lines, ti_pos = AtEnd\<rparr>,
      \<lparr>ti_dur = 0.8, ti_stagger = 0, ti_count = 1, ti_pos = BeforeEnd 0.3\<rparr>,
      \<lparr>ti_dur = 0.6, ti_stagger = 0.1, ti_count = btns, ti_pos = BeforeEnd 0.2\<rparr>,
      \<lparr>ti_dur = 0.5, ti_stagger = 0, ti_count = 1, ti_pos = BeforeEnd 0.1\<rparr>]"

definition hero_delay :: real where
  "hero_delay = 3.5"

text \<open>Absolute times (seconds after \<open>initGSAPAnimations\<close> ran) of the hero tweens.\<close>

definition hero_schedule :: "nat \<Rightarrow> nat \<Rightarrow> (real \<times> real) list" where
  "hero_schedule lines btns =
     map (\<lambda>(s, e). (hero_delay + s, hero_delay + e)) (tl_schedule 0 (hero_items lines btns))"

section \<open>Number counters\<close>

definition is_js_space :: "char \<Rightarrow> bool" where
  "is_js_space c \<longleftrightarrow> c \<in> {CHR '' '', CHR 0x09, CHR 0x0A, CHR 0x0B, CHR 0x0C, CHR 0x0D}"

definition dec_val :: "char \<Rightarrow> nat option" where
  "dec_val c = (let n = of_char c :: nat in if 48 \<le> n \<and> n \<le> 57 then Some (n - 48) else None)"

definition hex_val :: "char \<Rightarrow> nat option" where
  "hex_val c =
     (let n = of_char c :: nat in
      if 48 \<le> n \<and> n \<le> 57 then Some (n - 48)
      else if 97 \<le> n \<and> n \<le> 102 then Some (n - 87)
      else if 65 \<le> n \<and> n \<le> 70 then Some (n - 55) else None)"

text \<open>The value of the longest prefix of digits in base \<open>b\<close>, if it is not empty.\<close>

fun digits_prefix :: "(char \<Rightarrow> nat option) \<Rightarrow> nat \<Rightarrow> nat option \<Rightarrow> string \<Rightarrow> nat option" where
  "digits_prefix v b acc [] = acc"
| "digits_prefix v b acc (c # cs) =
     (case v c of
        None \<Rightarrow> acc
      | Some d \<Rightarrow> digits_prefix v b (Some (b * (case acc of None \<Rightarrow> 0 | Some a \<Rightarrow> a) + d)) cs)"

definition js_parseInt :: "string \<Rightarrow> int option" where
  "js_parseInt str =
     (let s1 = dropWhile is_js_space str;
          (sign, s2) = (if s1 \<noteq> [] \<and> hd s1 = CHR ''-'' then (-1 :: int, tl s1)
                        else if s1 \<noteq> [] \<and> hd s1 = CHR ''+'' then (1, tl s1) else (1, s1));
          hex = (2 \<le> length s2 \<and> hd s2 = CHR ''0'' \<and> (s2 ! 1 = CHR ''x'' \<or> s2 ! 1 = CHR ''X''))
      in map_option (\<lambda>n. sign * int n)
           (if hex then digits_prefix hex_val 16 None (drop 2 s2) else digits_prefix dec_val 10 None s2))"

definition digit_char :: "nat \<Rightarrow> char" where
  "digit_char d = char_of (48 + d)"

fun nat_digits :: "nat \<Rightarrow> string" where
  "nat_digits n = (if n < 10 then [digit_char n] else nat_digits (n div 10) @ [digit_char (n mod 10)])"

text \<open>Commas every three digits, on the digits in reverse order.\<close>

fun group_rev :: "string \<Rightarrow> string" where
  "group_rev (a # b # c # d # rest) = a # b # c # CHR '','' # group_rev (d # rest)"
| "group_rev xs = xs"

definition to_locale_string :: "int \<Rightarrow> string" where
  "to_locale_string i =
     (let ds = rev (group_rev (rev (nat_digits (nat \<bar>i\<bar>)))) in if i < 0 then CHR ''-'' # ds else ds)"

text \<open>The text a counter shows once its tween is complete, for the attribute
  \<open>data-target\<close>: \<open>None\<close> when \<open>parseInt\<close> gives \<open>NaN\<close>.\<close>

definition counter_final :: "string \<Rightarrow> string option" where
  "counter_final attr = map_option to_locale_string (js_parseInt attr)"

section \<open>Lemmas\<close>

lemma dec_val_digit_char [simp]: "d < 10 \<Longrightarrow> dec_val (digit_char d) = Some d"
  by (simp add: dec_val_def digit_char_def)

lemma of_char_digit_char: "d < 10 \<Longrightarrow> (of_char (digit_char d) :: nat) = 48 + d"
  by (simp add: digit_char_def)

lemma digit_char_not_special [simp]:
  assumes "d < 10"
  shows "\<not> is_js_space (digit_char d)" "digit_char d \<noteq> CHR ''-''" "digit_char d \<noteq> CHR ''+''"
    "digit_char d \<noteq> CHR '',''" "digit_char d = CHR ''0'' \<longleftrightarrow> d = 0"
proof -
  have o: "(of_char (digit_char d) :: nat) = 48 + d" by (rule of_char_digit_char [OF assms])
  have eq: "digit_char d = c \<longleftrightarrow> (of_char c :: nat) = 48 + d" for c
    using o by (metis of_char_eq_iff)
  show "\<not> is_js_space (digit_char d)" unfolding is_js_space_def using eq by auto
  show "digit_char d \<noteq> CHR ''-''" "digit_char d \<noteq> CHR ''+''" "digit_char d \<noteq> CHR '',''"
    "digit_char d = CHR ''0'' \<longleftrightarrow> d = 0"
    using eq by simp_all
qed

lemma not_space_sign [simp]: "\<not> is_js_space CHR ''-''" "\<not> is_js_space CHR ''+''"
  by (simp_all add: is_js_space_def)

lemma nat_digits_small: "n < 10 \<Longrightarrow> nat_digits n = [digit_char n]"
  by (subst nat_digits.simps) simp

lemma nat_digits_large:
  "\<not> n < 10 \<Longrightarrow> nat_digits n = nat_digits (n div 10) @ [digit_char (n mod 10)]"
  by (subst nat_digits.simps) simp

lemma nat_digits_ne [simp]: "nat_digits n \<noteq> []"
  by (cases "n < 10") (simp_all add: nat_digits_small nat_digits_large)

declare nat_digits.simps [simp del]

lemma nat_digits_chars: "c \<in> set (nat_digits n) \<Longrightarrow> \<exists>d<10. c = digit_char d"
proof (induction n rule: nat_digits.induct)
  case (1 n)
  show ?case
  proof (cases "n < 10")
    case True
    with 1 show ?thesis by (auto simp: nat_digits_small)
  next
    case False
    with 1 have "c \<in> set (nat_digits (n div 10)) \<or> c = digit_char (n mod 10)"
      by (auto simp: nat_digits_large)
    then show ?thesis using 1 False by (metis mod_less_divisor zero_less_numeral)
  qed
qed

lemma nat_digits_hd: "\<exists>d<10. hd (nat_digits n) = digit_char d \<and> (0 < n \<longrightarrow> 0 < d)"
proof (induction n rule: nat_digits.induct)
  case (1 n)
  show ?case
  proof (cases "n < 10")
    case True
    then show ?thesis by (intro exI [of _ n]) (simp add: nat_digits_small)
  next
    case False
    then have "0 < n div 10" by simp
    with 1 False show ?thesis by (auto simp: nat_digits_large)
  qed
qed

lemma digits_prefix_append:
  "\<forall>c \<in> set xs. v c \<noteq> None \<Longrightarrow> digits_prefix v b acc (xs @ ys) = digits_prefix v b (digits_prefix v b acc xs) ys"
  by (induction xs arbitrary: acc) (auto split: option.splits)

lemma digits_prefix_nat_digits:
  "digits_prefix dec_val 10 acc (nat_digits n) =
     Some ((case acc of None \<Rightarrow> 0 | Some a \<Rightarrow> a) * 10 ^ length (nat_digits n) + n)"
proof (induction n arbitrary: acc rule: nat_digits.induct)
  case (1 n)
  show ?case
  proof (cases "n < 10")
    case True
    then show ?thesis by (simp add: nat_digits_small)
  next
    case False
    have digits: "\<forall>c \<in> set (nat_digits (n div 10)). dec_val c \<noteq> None"
      using nat_digits_chars by fastforce
    have "n = n div 10 * 10 + n mod 10" by simp
    with False 1 [of acc] show ?thesis
      by (simp add: nat_digits_large digits_prefix_append [OF digits] algebra_simps)
  qed
qed

lemma nat_digits_cases:
  obtains d ds where "nat_digits n = digit_char d # ds" "d < 10" "0 < n \<longrightarrow> 0 < d"
    "\<forall>c \<in> set ds. dec_val c \<noteq> None"
proof -
  obtain d where d: "d < 10" "hd (nat_digits n) = digit_char d" "0 < n \<longrightarrow> 0 < d"
    using nat_digits_hd by blast
  have "nat_digits n = hd (nat_digits n) # tl (nat_digits n)" by simp
  moreover have "\<forall>c \<in> set (tl (nat_digits n)). dec_val c \<noteq> None"
    using nat_digits_chars by (fastforce dest: list.set_sel(2) [rotated])
  ultimately show ?thesis using that d by auto
qed

lemma digits_prefix_start:
  "v c = Some d \<Longrightarrow> digits_prefix v b None (c # cs) = digits_prefix v b (Some 0) (c # cs)"
  by simp

lemma digits_prefix_stop:
  "rest = [] \<or> dec_val (hd rest) = None \<Longrightarrow> digits_prefix dec_val 10 (Some m) rest = Some m"
  by (cases rest) auto

lemma parse_digits_then:
  assumes "rest = [] \<or> (dec_val (hd rest) = None \<and> hd rest \<noteq> CHR ''x'' \<and> hd rest \<noteq> CHR ''X'')"
  shows "js_parseInt (nat_digits n @ rest) = Some (int n)
    \<and> js_parseInt (CHR ''-'' # nat_digits n @ rest) = Some (- int n)"
proof -
  obtain d ds where n: "nat_digits n = digit_char d # ds" "d < 10" "0 < n \<longrightarrow> 0 < d"
    "\<forall>c \<in> set ds. dec_val c \<noteq> None" by (rule nat_digits_cases [of n])
  have digits: "\<forall>c \<in> set (nat_digits n). dec_val c \<noteq> None"
    using nat_digits_chars by fastforce
  have v0: "digits_prefix dec_val 10 None (nat_digits n) = Some n"
    using digits_prefix_nat_digits [of "Some 0" n] digits_prefix_start [of dec_val "digit_char d" d]
      n(1,2) by simp
  have v: "digits_prefix dec_val 10 None (nat_digits n @ rest) = Some n"
  proof -
    have "rest = [] \<or> dec_val (hd rest) = None" using assms by auto
    then show ?thesis using v0 by (simp add: digits_prefix_append [OF digits] digits_prefix_stop)
  qed
  have z: "digit_char d = CHR ''0'' \<Longrightarrow> ds = []"
  proof -
    assume "digit_char d = CHR ''0''"
    then have "d = 0" using n(2) by simp
    then have "n = 0" using n(3) by (cases n) auto
    then show "ds = []" using n(1) by (simp add: nat_digits_small)
  qed
  have d1: "dropWhile is_js_space (nat_digits n @ rest) = nat_digits n @ rest"
    using n(1,2) by simp
  have nothex: "\<not> (2 \<le> length (nat_digits n @ rest) \<and> hd (nat_digits n @ rest) = CHR ''0''
      \<and> ((nat_digits n @ rest) ! 1 = CHR ''x'' \<or> (nat_digits n @ rest) ! 1 = CHR ''X''))"
    using n(1) z assms by (cases rest) (auto simp: hd_conv_nth)
  have sg: "hd (nat_digits n @ rest) \<noteq> CHR ''-''" "hd (nat_digits n @ rest) \<noteq> CHR ''+''"
    using n(1,2) by simp_all
  show ?thesis
    using d1 nothex sg v by (auto simp: js_parseInt_def Let_def)
qed

lemma parse_nat_digits:
  "js_parseInt (nat_digits n) = Some (int n) \<and> js_parseInt (CHR ''-'' # nat_digits n) = Some (- int n)"
  using parse_digits_then [of "[]" n] by simp

lemma filter_group_rev:
  "filter (\<lambda>c. c \<noteq> CHR '','') (group_rev xs) = filter (\<lambda>c. c \<noteq> CHR '','') xs"
  by (induction xs rule: group_rev.induct) auto

lemma filter_nat_digits: "filter (\<lambda>c. c \<noteq> CHR '','') (nat_digits n) = nat_digits n"
  by (rule filter_True) (metis nat_digits_chars digit_char_not_special(4))

lemma locale_digits:
  "filter (\<lambda>c. c \<noteq> CHR '','') (to_locale_string i) =
     (if i < 0 then CHR ''-'' # nat_digits (nat \<bar>i\<bar>) else nat_digits (nat \<bar>i\<bar>))"
  by (simp add: to_locale_string_def Let_def rev_filter [symmetric] filter_group_rev filter_nat_digits)

lemma dec_val_comma [simp]: "dec_val CHR '','' = None"
  by (simp add: dec_val_def)

section \<open>Properties\<close>

text \<open>
  Round trip of the counters' text. A \<open>data-target\<close> written as the decimal digits
  of \<open>n\<close> ends showing \<open>n\<close> in the \<open>en-US\<close> format; and the text
  \<open>to_locale_string\<close> produces for any integer parses back to that integer once its
  separators are removed. \<open>toLocaleString()\<close> follows the user's locale; the model
  fixes \<open>en-US\<close>, so this is a fact about the model's formatting, not about every
  browser.
\<close>

lemma counter_roundtrip:
  "counter_final (nat_digits n) = Some (to_locale_string (int n))
   \<and> js_parseInt (filter (\<lambda>c. c \<noteq> CHR '','') (to_locale_string i)) = Some i"
proof -
  have "js_parseInt (filter (\<lambda>c. c \<noteq> CHR '','') (to_locale_string i)) = Some i"
  proof (cases "i < 0")
    case True
    then show ?thesis using parse_nat_digits [of "nat \<bar>i\<bar>"] by (simp add: locale_digits)
  next
    case False
    then show ?thesis using parse_nat_digits [of "nat \<bar>i\<bar>"] by (simp add: locale_digits)
  qed
  then show ?thesis using parse_nat_digits [of n] by (simp add: counter_final_def)
qed

text \<open>
  C35. The counters on malformed targets: \<open>parseInt\<close> stops at the first character
  that is not a digit, so a \<open>data-target\<close> written with a thousands separator, such as
  \<open>"12,500"\<close>, counts only to the digits before the comma (12); an empty or
  non-numeric target gives \<open>NaN\<close>, the error value \<open>None\<close>.
\<close>

theorem counter_stops_at_separator:
  "counter_final (nat_digits n @ CHR '','' # rest) = Some (to_locale_string (int n))
   \<and> counter_final [] = None \<and> counter_final ''abc'' = None"
proof -
  have "js_parseInt (nat_digits n @ CHR '','' # rest) = Some (int n)"
    using parse_digits_then [of "CHR '','' # rest" n] by simp
  moreover have "js_parseInt [] = None" "js_parseInt ''abc'' = None"
    by (simp_all add: js_parseInt_def is_js_space_def dec_val_def)
  ultimately show ?thesis by (simp add: counter_final_def)
qed

text \<open>
  C36. The hero entrance schedule. With \<open>L\<close> title lines and \<open>B\<close> hero buttons,
  the four tweens of the timeline run, in seconds after \<open>initGSAPAnimations\<close>, from
  \<open>3.5\<close> to \<open>e = 4.5 + 0.2 (L - 1)\<close>, from \<open>e - 0.3\<close> to \<open>e + 0.5\<close>, from
  \<open>e + 0.3\<close> to \<open>e + 0.9 + 0.1 (B - 1)\<close>, and from \<open>e + 0.8 + 0.1 (B - 1)\<close> for
  0.5 s: each begins before the previous one ends, and the first begins 3.5 s after
  start-up, when \<open>isLoading\<close> is cleared (\<open>App\<close>).
\<close>

theorem hero_schedule_eq:
  "hero_schedule lines btns =
     (let e = 4.5 + 0.2 * (real lines - 1); b = 0.1 * (real btns - 1)
      in [(3.5, e), (e - 0.3, e + 0.5), (e + 0.3, e + 0.9 + b), (e + 0.8 + b, e + 1.3 + b)])"
proof -
  have "0 \<le> real lines" "0 \<le> real btns" by simp_all
  then have l: "0 \<le> 1 + 0.2 * (real lines - 1)" and b: "0 \<le> 0.4 + 0.1 * (real btns - 1)"
    by (simp_all add: field_simps)
  show ?thesis
    using l b by (simp add: hero_schedule_def hero_items_def ti_length_def hero_delay_def
        Let_def max_def algebra_simps)
qed

end
