(* ===== verification/Reveal.thy ===== *)
theory Reveal
  imports Prelude
begin

text \<open>
  Content revealed on scroll, in \<open>src/script.js\<close>: the five scroll-triggered from-tweens
  of \<open>initGSAPAnimations\<close> (market cards, planet items, trading panel, contact form,
  contact info items) and the \<open>IntersectionObserver\<close> of \<open>optimizePerformance\<close>,
  which marks observed elements \<open>in-view\<close>.

  A ScrollTrigger is modelled from the library's documentation: its \<open>start\<close> and
  \<open>end\<close> scroll positions split the page into the regions before, inside and after
  the trigger; moving from one region to another fires \<open>onEnter\<close>, \<open>onLeave\<close>,
  \<open>onEnterBack\<close> or \<open>onLeaveBack\<close> (both callbacks of a direction when a jump skips
  the inside region), and \<open>toggleActions\<close> names, in this order, the action each
  callback applies to the tween. Of the tween only where it is heading is kept: towards
  its end (the content shown) or towards its start (the from-state: hidden, offset), and
  whether it was stopped short of that.
\<close>

section \<open>ScrollTrigger\<close>

datatype st_action =
  ActPlay | ActPause | ActResume | ActReset | ActRestart | ActComplete | ActReverse | ActNone

record toggle_actions =
  on_enter :: st_action
  on_leave :: st_action
  on_enter_back :: st_action
  on_leave_back :: st_action

datatype st_callback = OnEnter | OnLeave | OnEnterBack | OnLeaveBack

datatype region = Before | Inside | After

text \<open>\<open>String.prototype.split(" ")\<close>.\<close>

fun split_on :: "char \<Rightarrow> string \<Rightarrow> string list" where
  "split_on c [] = [[]]"
| "split_on c (x # xs) =
     (if x = c then [] # split_on c xs
      else (case split_on c xs of w # ws \<Rightarrow> (x # w) # ws | [] \<Rightarrow> [[x]]))"

text \<open>An action keyword; a word that names no action does nothing.\<close>

definition parse_action :: "string \<Rightarrow> st_action" where
  "parse_action w =
     (if w = ''play'' then ActPlay else if w = ''pause'' then ActPause
      else if w = ''resume'' then ActResume else if w = ''reset'' then ActReset
      else if w = ''restart'' then ActRestart else if w = ''complete'' then ActComplete
      else if w = ''reverse'' then ActReverse else ActNone)"

definition action_at :: "string list \<Rightarrow> nat \<Rightarrow> st_action" where
  "action_at ws i = (if i < length ws then parse_action (ws ! i) else ActNone)"

text \<open>The \<open>toggleActions\<close> string: four space-separated words; a missing word does
  nothing.\<close>

definition parse_toggle :: "string \<Rightarrow> toggle_actions" where
  "parse_toggle s =
     (let ws = split_on (CHR '' '') s
      in \<lparr>on_enter = action_at ws 0, on_leave = action_at ws 1,
          on_enter_back = action_at ws 2, on_leave_back = action_at ws 3\<rparr>)"

definition action_of :: "toggle_actions \<Rightarrow> st_callback \<Rightarrow> st_action" where
  "action_of ta cb =
     (case cb of OnEnter \<Rightarrow> on_enter ta | OnLeave \<Rightarrow> on_leave ta
      | OnEnterBack \<Rightarrow> on_enter_back ta | OnLeaveBack \<Rightarrow> on_leave_back ta)"

text \<open>Where a scroll position lies: the trigger is active strictly between \<open>start\<close>
  and \<open>end\<close>.\<close>

definition region_of :: "real \<Rightarrow> real \<Rightarrow> real \<Rightarrow> region" where
  "region_of st en y = (if y \<le> st then Before else if y < en then Inside else After)"

fun st_callbacks :: "region \<Rightarrow> region \<Rightarrow> st_callback list" where
  "st_callbacks Before Inside = [OnEnter]"
| "st_callbacks Before After = [OnEnter, OnLeave]"
| "st_callbacks Inside After = [OnLeave]"
| "st_callbacks After Inside = [OnEnterBack]"
| "st_callbacks After Before = [OnEnterBack, OnLeaveBack]"
| "st_callbacks Inside Before = [OnLeaveBack]"
| "st_callbacks _ _ = []"

text \<open>The tween: heading to its end (shown) or its start, and stopped short of it.\<close>

record st_anim =
  heading_end :: bool
  stopped :: bool

definition apply_action :: "st_action \<Rightarrow> st_anim \<Rightarrow> st_anim" where
  "apply_action act a =
     (case act of
        ActPlay \<Rightarrow> \<lparr>heading_end = True, stopped = False\<rparr>
      | ActRestart \<Rightarrow> \<lparr>heading_end = True, stopped = False\<rparr>
      | ActComplete \<Rightarrow> \<lparr>heading_end = True, stopped = False\<rparr>
      | ActReverse \<Rightarrow> \<lparr>heading_end = False, stopped = False\<rparr>
      | ActReset \<Rightarrow> \<lparr>heading_end = False, stopped = False\<rparr>
      | ActPause \<Rightarrow> a\<lparr>stopped := True\<rparr>
      | ActResume \<Rightarrow> a\<lparr>stopped := False\<rparr>
      | ActNone \<Rightarrow> a)"

text \<open>A from-tween under a ScrollTrigger is created paused at its start.\<close>

definition st_init :: "region \<times> st_anim" where
  "st_init = (Before, \<lparr>heading_end = False, stopped = False\<rparr>)"

definition scroll_update ::
  "toggle_actions \<Rightarrow> real \<Rightarrow> real \<Rightarrow> region \<times> st_anim \<Rightarrow> real \<Rightarrow> region \<times> st_anim" where
  "scroll_update ta st en ra y =
     (let r' = region_of st en y
      in (r', fold apply_action (map (action_of ta) (st_callbacks (fst ra) r')) (snd ra)))"

text \<open>The trigger's refresh at the page's first scroll position, then one update per
  scroll position, in order.\<close>

definition st_run :: "toggle_actions \<Rightarrow> real \<Rightarrow> real \<Rightarrow> real list \<Rightarrow> region \<times> st_anim" where
  "st_run ta st en ys = fold (\<lambda>y ra. scroll_update ta st en ra y) ys st_init"

text \<open>\<open>start: 'top 80%'\<close> and \<open>end: 'bottom 20%'\<close> for a trigger element whose
  box spans \<open>[el_top, el_bottom]\<close> in page coordinates, in a viewport of height
  \<open>vh\<close>.\<close>

definition st_start :: "real \<Rightarrow> real \<Rightarrow> real" where
  "st_start el_top vh = el_top - 0.8 * vh"

definition st_end :: "real \<Rightarrow> real \<Rightarrow> real" where
  "st_end el_bottom vh = el_bottom - 0.2 * vh"

text \<open>The five section tweens: targets, trigger, from-values, duration, stagger and
  toggle actions, as written in \<open>initGSAPAnimations\<close>.\<close>

record section_anim =
  sa_targets :: string
  sa_trigger :: string
  sa_from :: "(string \<times> real) list"
  sa_duration :: real
  sa_stagger :: real
  sa_toggle :: string

definition section_anims :: "section_anim list" where
  "section_anims =
     [\<lparr>sa_targets = ''.market-card'', sa_trigger = ''.markets-grid'',
       sa_from = [(''y'', 60), (''opacity'', 0)], sa_duration = 0.8, sa_stagger = 0.2,
       sa_toggle = ''play none none reverse''\<rparr>,
      \<lparr>sa_targets = ''.planet-item'', sa_trigger = ''.planets-container'',
       sa_from = [(''y'', 80), (''opacity'', 0)], sa_duration = 1, sa_stagger = 0.3,
       sa_toggle = ''play none none reverse''\<rparr>,
      \<lparr>sa_targets = ''.trading-panel'', sa_trigger = ''.trading-section'',
       sa_from = [(''scale'', 0.9), (''opacity'', 0)], sa_duration = 1, sa_stagger = 0,
       sa_toggle = ''play none none reverse''\<rparr>,
      \<lparr>sa_targets = ''.contact-form'', sa_trigger = ''.contact-section'',
       sa_from = [(''x'', -100), (''opacity'', 0)], sa_duration = 0.8, sa_stagger = 0,
       sa_toggle = ''play none none reverse''\<rparr>,
      \<lparr>sa_targets = ''.contact-info .info-item'', sa_trigger = ''.contact-section'',
       sa_from = [(''x'', 100), (''opacity'', 0)], sa_duration = 0.8, sa_stagger = 0.2,
       sa_toggle = ''play none none reverse''\<rparr>]"

section \<open>IntersectionObserver\<close>

text \<open>The page's elements by address, each with its class list. \<open>querySelectorAll\<close>
  of \<open>'.market-card, .planet-item, .info-item'\<close> returns the elements carrying one
  of the three classes, in document order; each is passed to \<open>observer.observe\<close>.\<close>

type_synonym page_doc = "string list list"

definition observed_classes :: "string list" where
  "observed_classes = [''market-card'', ''planet-item'', ''info-item'']"

definition observed :: "page_doc \<Rightarrow> nat list" where
  "observed doc =
     filter (\<lambda>i. list_ex (\<lambda>c. c \<in> set (doc ! i)) observed_classes) [0..<length doc]"

text \<open>\<open>classList.add\<close> appends a class the element does not have yet.\<close>

definition add_class :: "string \<Rightarrow> string list \<Rightarrow> string list" where
  "add_class c cls = (if c \<in> set cls then cls else cls @ [c])"

record io_entry =
  io_target :: nat
  io_intersecting :: bool

text \<open>The observer's callback: \<open>entries.forEach\<close> adds \<open>in-view\<close> to each
  intersecting entry's target.\<close>

definition io_callback :: "io_entry list \<Rightarrow> page_doc \<Rightarrow> page_doc" where
  "io_callback es doc =
     fold (\<lambda>e d. if io_intersecting e then d[io_target e := add_class ''in-view'' (d ! io_target e)]
                 else d) es doc"

text \<open>The browser calls the callback with batches of entries, each entry about an
  observed element; the elements are those observed when \<open>optimizePerformance\<close>
  ran.\<close>

definition io_run :: "nat list \<Rightarrow> io_entry list list \<Rightarrow> page_doc \<Rightarrow> page_doc" where
  "io_run obs bs doc = fold (\<lambda>b d. io_callback (filter (\<lambda>e. io_target e \<in> set obs) b) d) bs doc"

text \<open>\<open>observerOptions\<close>: threshold 0.1 and a root margin that moves the bottom of
  the viewport up by 50 px.\<close>

record io_options =
  io_threshold :: real
  io_margin_bottom :: real

definition observerOptions :: io_options where
  "observerOptions = \<lparr>io_threshold = 0.1, io_margin_bottom = -50\<rparr>"

text \<open>How the browser computes an entry, after the IntersectionObserver specification,
  for an element whose box spans \<open>[top, bottom]\<close> (\<open>top < bottom\<close>) in viewport
  coordinates, in a viewport of height \<open>vh\<close>: the visible fraction, whether the box
  intersects the root (edge-adjacent counts), and which side of the threshold the
  fraction is on.\<close>

definition io_ratio :: "io_options \<Rightarrow> real \<Rightarrow> real \<times> real \<Rightarrow> real" where
  "io_ratio opts vh box =
     max 0 (min (snd box) (vh + io_margin_bottom opts) - max (fst box) 0) / (snd box - fst box)"

definition io_isect :: "io_options \<Rightarrow> real \<Rightarrow> real \<times> real \<Rightarrow> bool" where
  "io_isect opts vh box \<longleftrightarrow> max (fst box) 0 \<le> min (snd box) (vh + io_margin_bottom opts)"

definition io_tindex :: "io_options \<Rightarrow> real \<Rightarrow> nat" where
  "io_tindex opts r = (if io_threshold opts \<le> r then 1 else 0)"

text \<open>One round of notifications: an entry is queued for each observed element whose
  threshold index or intersecting flag differs from the previous round (every element on
  its first round); the new per-element record is returned.\<close>

definition io_notify ::
  "io_options \<Rightarrow> real \<Rightarrow> nat list \<Rightarrow> (nat \<Rightarrow> real \<times> real) \<Rightarrow> (nat \<Rightarrow> (nat \<times> bool) option)
     \<Rightarrow> io_entry list \<times> (nat \<Rightarrow> (nat \<times> bool) option)" where
  "io_notify opts vh obs box prev =
     (let st = (\<lambda>i. (io_tindex opts (io_ratio opts vh (box i)), io_isect opts vh (box i)))
      in (map (\<lambda>i. \<lparr>io_target = i, io_intersecting = snd (st i)\<rparr>) (filter (\<lambda>i. prev i \<noteq> Some (st i)) obs),
          \<lambda>i. if i \<in> set obs then Some (st i) else prev i))"

section \<open>Lemmas on ScrollTrigger\<close>

lemma parse_play_reverse:
  "parse_toggle ''play none none reverse'' =
     \<lparr>on_enter = ActPlay, on_leave = ActNone, on_enter_back = ActNone, on_leave_back = ActReverse\<rparr>"
  by (simp add: parse_toggle_def action_at_def parse_action_def)

lemma section_toggles: "sa \<in> set section_anims \<Longrightarrow> sa_toggle sa = ''play none none reverse''"
  by (auto simp: section_anims_def)

lemma region_of_Before: "region_of st en y = Before \<longleftrightarrow> y \<le> st"
  by (simp add: region_of_def)

lemma st_run_region: "ys \<noteq> [] \<Longrightarrow> fst (st_run ta st en ys) = region_of st en (last ys)"
proof (induction ys rule: rev_induct)
  case Nil
  then show ?case by simp
next
  case (snoc y ys)
  then show ?case by (simp add: st_run_def scroll_update_def Let_def)
qed

text \<open>The invariant of \<open>'play none none reverse'\<close>: the tween heads to its end
  exactly when the page is past the trigger's start, and is never stopped short.\<close>

definition reveal_inv :: "region \<times> st_anim \<Rightarrow> bool" where
  "reveal_inv ra \<longleftrightarrow> snd ra = \<lparr>heading_end = (fst ra \<noteq> Before), stopped = False\<rparr>"

lemma reveal_inv_update:
  assumes "ta = \<lparr>on_enter = ActPlay, on_leave = ActNone, on_enter_back = ActNone, on_leave_back = ActReverse\<rparr>"
    and "reveal_inv ra"
  shows "reveal_inv (scroll_update ta st en ra y)"
  using assms
  by (cases "fst ra"; cases "region_of st en y")
     (auto simp: reveal_inv_def scroll_update_def apply_action_def action_of_def)

lemma reveal_inv_run:
  assumes "ta = \<lparr>on_enter = ActPlay, on_leave = ActNone, on_enter_back = ActNone, on_leave_back = ActReverse\<rparr>"
    and "reveal_inv ra"
  shows "reveal_inv (fold (\<lambda>y ra. scroll_update ta st en ra y) ys ra)"
  using assms(2) by (induction ys arbitrary: ra) (simp_all add: reveal_inv_update [OF assms(1)])

section \<open>Lemmas on the IntersectionObserver\<close>

lemma set_add_class [simp]: "set (add_class c cls) = insert c (set cls)"
  by (auto simp: add_class_def)

lemma distinct_add_class [simp]: "distinct (add_class c cls) = distinct cls"
  by (simp add: add_class_def)

lemma io_callback_length [simp]: "length (io_callback es doc) = length doc"
  by (induction es arbitrary: doc) (simp_all add: io_callback_def)

lemma io_callback_Nil [simp]: "io_callback [] doc = doc"
  by (simp add: io_callback_def)

lemma io_callback_Cons:
  "io_callback (e # es) doc =
     io_callback es (if io_intersecting e then doc[io_target e := add_class ''in-view'' (doc ! io_target e)]
                     else doc)"
  by (simp add: io_callback_def)

text \<open>The callback only adds \<open>in-view\<close>, to exactly the targets of intersecting
  entries, and never duplicates a class.\<close>

lemma io_callback_classes:
  "i < length doc \<Longrightarrow>
     set (io_callback es doc ! i) =
       set (doc ! i) \<union> (if \<exists>e \<in> set es. io_intersecting e \<and> io_target e = i then {''in-view''} else {})"
proof (induction es arbitrary: doc)
  case Nil
  then show ?case by simp
next
  case (Cons e es)
  let ?d = "if io_intersecting e then doc[io_target e := add_class ''in-view'' (doc ! io_target e)] else doc"
  have "set (?d ! i) = set (doc ! i) \<union> (if io_intersecting e \<and> io_target e = i then {''in-view''} else {})"
    using Cons.prems by (auto simp: nth_list_update)
  moreover have "i < length ?d" using Cons.prems by simp
  ultimately show ?case
    using Cons.IH [of ?d] by (auto simp: io_callback_Cons)
qed

lemma io_callback_distinct:
  "i < length doc \<Longrightarrow> distinct (doc ! i) \<Longrightarrow> distinct (io_callback es doc ! i)"
proof (induction es arbitrary: doc)
  case Nil
  then show ?case by simp
next
  case (Cons e es)
  let ?d = "if io_intersecting e then doc[io_target e := add_class ''in-view'' (doc ! io_target e)] else doc"
  have "distinct (?d ! i)" using Cons.prems by (cases "io_target e = i") auto
  moreover have "i < length ?d" using Cons.prems by simp
  ultimately show ?case using Cons.IH [of ?d] by (simp add: io_callback_Cons)
qed

lemma io_run_length [simp]: "length (io_run obs bs doc) = length doc"
  by (induction bs arbitrary: doc) (simp_all add: io_run_def)

lemma io_run_classes:
  "i < length doc \<Longrightarrow>
     set (io_run obs bs doc ! i) =
       set (doc ! i) \<union> (if i \<in> set obs \<and> (\<exists>b \<in> set bs. \<exists>e \<in> set b. io_intersecting e \<and> io_target e = i)
                        then {''in-view''} else {})"
  by (induction bs arbitrary: doc) (auto simp: io_run_def io_callback_classes)

text \<open>The threshold does not decide when \<open>in-view\<close> is added: the callback tests
  \<open>isIntersecting\<close>, and an entry is delivered as soon as an observed element first
  touches the root, whatever fraction of it is visible.\<close>

lemma in_view_on_first_touch:
  assumes "i \<in> set obs" and "i < length doc" and "io_isect opts vh (box i)"
    and "\<forall>t. prev i \<noteq> Some (t, True)"
  shows "''in-view'' \<in> set (io_callback (fst (io_notify opts vh obs box prev)) doc ! i)"
proof -
  have "\<exists>e \<in> set (fst (io_notify opts vh obs box prev)). io_intersecting e \<and> io_target e = i"
    using assms(1,3,4) by (force simp: io_notify_def Let_def)
  then show ?thesis using io_callback_classes [OF assms(2)] by simp
qed

lemma in_view_below_threshold:
  "io_ratio observerOptions 800 (749, 949) < io_threshold observerOptions
   \<and> io_isect observerOptions 800 (749, 949)
   \<and> set (io_callback (fst (io_notify observerOptions 800 [0] (\<lambda>_. (749, 949)) (\<lambda>_. None))) [[''market-card'']] ! 0)
       = {''market-card'', ''in-view''}"
proof -
  have r: "io_ratio observerOptions 800 (749, 949) < io_threshold observerOptions"
    "io_isect observerOptions 800 (749, 949)"
    by (simp_all add: io_ratio_def io_isect_def observerOptions_def)
  have "set (io_callback (fst (io_notify observerOptions 800 [0] (\<lambda>_. (749, 949)) (\<lambda>_. None))) [[''market-card'']] ! 0)
      = {''market-card''} \<union> {''in-view''}"
    using io_callback_classes [of 0 "[[''market-card'']]"] r(2) by (simp add: io_notify_def Let_def insert_commute)
  with r show ?thesis by auto
qed

section \<open>Scroll-reveal property\<close>

text \<open>
  C38. Each of the five section tweens of \<open>initGSAPAnimations\<close> reveals its content
  exactly when the viewport is past the trigger's start line: after any sequence of
  scroll positions (jumps included), the tween heads to its end (content shown) if and
  only if the last position is below \<open>top 80%\<close> of its trigger, and it is never
  left stopped half-way. Scrolling past the end line keeps the content shown
  (\<open>onLeave\<close> and \<open>onEnterBack\<close> do nothing); scrolling back above the start
  hides it again (\<open>reverse\<close>).
\<close>

theorem section_reveal:
  assumes "sa \<in> set section_anims"
  shows "snd (st_run (parse_toggle (sa_toggle sa)) (st_start el_top vh) (st_end el_bottom vh) ys)
    = \<lparr>heading_end = (ys \<noteq> [] \<and> st_start el_top vh < last ys), stopped = False\<rparr>"
proof -
  let ?ta = "parse_toggle (sa_toggle sa)"
  have ta: "?ta = \<lparr>on_enter = ActPlay, on_leave = ActNone, on_enter_back = ActNone, on_leave_back = ActReverse\<rparr>"
    using section_toggles [OF assms] parse_play_reverse by simp
  have "reveal_inv st_init" by (simp add: reveal_inv_def st_init_def)
  then have i: "reveal_inv (st_run ?ta (st_start el_top vh) (st_end el_bottom vh) ys)"
    unfolding st_run_def by (rule reveal_inv_run [OF ta])
  show ?thesis
  proof (cases "ys = []")
    case True
    then show ?thesis by (simp add: st_run_def st_init_def)
  next
    case False
    with i show ?thesis by (auto simp: reveal_inv_def st_run_region region_of_Before)
  qed
qed

theorem section_reveal_witness:
  "snd (st_run (parse_toggle ''play none none reverse'') (st_start 1500 800) (st_end 2300 800)
      [0, 3000, 500]) = \<lparr>heading_end = False, stopped = False\<rparr>
   \<and> snd (st_run (parse_toggle ''play none none reverse'') (st_start 1500 800) (st_end 2300 800)
      [0, 3000, 900]) = \<lparr>heading_end = True, stopped = False\<rparr>"
proof -
  have m: "hd section_anims \<in> set section_anims" by (simp add: section_anims_def)
  have t: "sa_toggle (hd section_anims) = ''play none none reverse''" by (simp add: section_anims_def)
  show ?thesis
    using section_reveal [OF m, of 1500 800 2300 "[0, 3000, 500]"]
          section_reveal [OF m, of 1500 800 2300 "[0, 3000, 900]"] t
    by (simp add: st_start_def)
qed

end
