(* ===== verification/Lifecycle.thy ===== *)
theory Lifecycle
  imports App
begin

text \<open>
  Properties of the whole page run of \<open>App\<close> (script load, \<open>DOMContentLoaded\<close>,
  timers, frames and input events): the state invariant every event preserves (the
  scene's store references are valid and the clock never passes a pending timer) and
  progress of the timers: once the document is loaded, letting the timers fire ends the
  loading screen after a bounded number of callbacks.

  Progress is measured by \<open>fire_measure\<close>: four times the milliseconds left until
  the end of loading plus the number of callbacks already due. Each callback either runs
  at the current time (one less due) or moves the clock forward by at least 1 ms, and at
  most three callbacks are ever pending (progress interval, performance timer, loading
  timer), so the measure drops with every callback while the page is loading.
\<close>

definition app_wf :: "app_state \<Rightarrow> bool" where
  "app_wf s \<longleftrightarrow> scene_wf (scene s) \<and> sched_wf (atimers s)"

text \<open>At most one pending callback before \<open>DOMContentLoaded\<close> (the performance
  timer) and three after.\<close>

definition queue_bound :: "app_state \<Rightarrow> bool" where
  "queue_bound s \<longleftrightarrow> length (queue (atimers s)) \<le> (if dom_ready s = None then 1 else 3)"

definition due_count :: "app_state \<Rightarrow> nat" where
  "due_count s = length (filter (\<lambda>e. fst (snd e) \<le> now (atimers s)) (queue (atimers s)))"

definition fire_measure :: "nat \<Rightarrow> app_state \<Rightarrow> nat" where
  "fire_measure d s = 4 * (d + 3500 - now (atimers s)) + due_count s"

section \<open>Lemmas on the timer callbacks\<close>

lemma app_cb_run_fields [simp]:
  "now (atimers (app_cb_run cb s)) = now (atimers s)"
  "dom_ready (app_cb_run cb s) = dom_ready s"
  by (cases cb; simp add: split_beta)+

lemma app_cb_run_queue_length:
  "length (queue (atimers (app_cb_run cb s))) \<le> Suc (length (queue (atimers s)))"
  by (cases cb) (simp_all add: split_beta)

lemma app_cb_run_due:
  "filter (\<lambda>e. fst (snd e) \<le> now (atimers s)) (queue (atimers (app_cb_run cb s)))
     = filter (\<lambda>e. fst (snd e) \<le> now (atimers s)) (queue (atimers s))"
  by (cases cb) (simp_all add: split_beta)

lemma app_cb_run_sched_wf:
  "sched_wf (atimers s) \<Longrightarrow> sched_wf (atimers (app_cb_run cb s))"
  by (cases cb) (auto simp: split_beta)

section \<open>Preservation\<close>

lemma init3DScene_scene_wf: "scene_wf s \<Longrightarrow> scene_wf (fst (init3DScene g s))"
  unfolding init3DScene_def createStarfield_def createNebula_def
  by (simp add: split_beta Let_def createPlanets_wf [unfolded scene_wf_def])
     (auto simp: scene_wf_def createPlanets_def Let_def)

lemma optimize_scene_wf: "scene_wf s \<Longrightarrow> scene_wf (optimize_scene s)"
  by (auto simp: scene_wf_def optimize_scene_def Let_def split: option.splits dest: in_set_takeD)

lemma app_cb_run_scene_wf: "scene_wf (scene s) \<Longrightarrow> scene_wf (scene (app_cb_run cb s))"
  by (cases cb) (simp_all add: split_beta optimize_scene_wf, simp add: scene_wf_def)

lemma app_wf_step:
  assumes wf: "app_wf s" and st: "app_step s e = Some s'"
  shows "app_wf s'"
proof (cases e)
  case (DOMContentLoaded cvs m)
  with st have "s' = initializeApp cvs m s" by (simp split: if_splits)
  with wf show ?thesis
    by (auto simp: app_wf_def initializeApp_def split_beta Let_def scene_wf_animate init3DScene_scene_wf)
next
  case (AppWait d)
  with st have "\<forall>e \<in> set (queue (atimers s)). now (atimers s) + d \<le> fst (snd e)"
    and "s' = s\<lparr>atimers := (atimers s)\<lparr>now := now (atimers s) + d\<rparr>\<rparr>"
    by (simp_all split: if_splits)
  with wf show ?thesis by (simp add: app_wf_def sched_wf_def)
next
  case AppFire
  with st obtain cb t where pop: "pop_timer (atimers s) = Some (cb, t)"
    and s': "s' = app_cb_run cb (s\<lparr>atimers := t\<rparr>)"
    by (auto split: option.splits)
  have "sched_wf t" using sched_wf_pop_timer [OF _ pop] wf by (simp add: app_wf_def)
  with wf s' show ?thesis
    using app_cb_run_sched_wf [of "s\<lparr>atimers := t\<rparr>"] app_cb_run_scene_wf [of "s\<lparr>atimers := t\<rparr>"]
    by (simp add: app_wf_def)
next
  case AnimFrame
  with st wf show ?thesis by (auto simp: app_wf_def scene_wf_animate split: if_splits)
next
  case (AppMouse x y)
  with st wf show ?thesis by (auto simp: app_wf_def mousemove_def scene_wf_def)
next
  case (AppResize w h)
  with st wf show ?thesis by (auto simp: app_wf_def onWindowResize_def scene_wf_def split: if_splits)
qed

lemma queue_bound_step:
  assumes qb: "queue_bound s" and st: "app_step s e = Some s'"
  shows "queue_bound s'"
proof (cases e)
  case (DOMContentLoaded cvs m)
  with st qb show ?thesis
    by (auto simp: queue_bound_def initializeApp_def split_beta Let_def split: if_splits)
next
  case AppFire
  with st obtain cb t where pop: "pop_timer (atimers s) = Some (cb, t)"
    and s': "s' = app_cb_run cb (s\<lparr>atimers := t\<rparr>)"
    by (auto split: option.splits)
  have "length (queue t) = length (queue (atimers s)) - 1" by (rule pop_timer_queue_length [OF pop])
  moreover have "queue (atimers s) \<noteq> []" using pop by (auto simp: pop_timer_empty)
  ultimately show ?thesis
    using qb s' app_cb_run_queue_length [of cb "s\<lparr>atimers := t\<rparr>"]
    by (auto simp: queue_bound_def split: if_splits)
qed (use st qb in \<open>auto simp: queue_bound_def split: if_splits\<close>)

lemma app_step_fire_dom_ready:
  "app_step s AppFire = Some s' \<Longrightarrow> dom_ready s' = dom_ready s"
  by (auto split: option.splits)

lemma app_run_invariants:
  "app_run s es = Some s' \<Longrightarrow> app_wf s \<Longrightarrow> queue_bound s \<Longrightarrow> loading_timeline s \<Longrightarrow>
     app_wf s' \<and> queue_bound s' \<and> loading_timeline s'"
proof (induction es arbitrary: s)
  case Nil
  then show ?case by simp
next
  case (Cons e es)
  then obtain s1 where "app_step s e = Some s1" "app_run s1 es = Some s'"
    by (auto split: option.splits)
  with Cons show ?case by (blast intro: app_wf_step queue_bound_step timeline_step)
qed

lemma script_load_invariants:
  "app_wf (script_load w h ep g) \<and> queue_bound (script_load w h ep g)"
  by (simp add: app_wf_def queue_bound_def script_load_def scene_wf_def scene_empty_def
      sched_wf_def sched_init_def set_timeout_def)

section \<open>Progress of the timers\<close>

lemma loading_pending:
  assumes "loading_timeline s" and "dom_ready s = Some d" and "is_loading (scene s)"
  shows "now (atimers s) \<le> d + 3500
    \<and> (\<exists>e \<in> set (queue (atimers s)). fst (snd e) \<le> d + 3500)"
proof -
  from assms have "now (atimers s) \<le> d + 3500
      \<and> (\<exists>x. x \<in> set (dues HideLoading s) \<union> set (dues LoadingDone s) \<and> x \<le> d + 3500)"
    by (auto simp: loading_timeline_def Let_def)
  then show ?thesis using dues_in_queue by blast
qed

lemma due_count_le: "due_count s \<le> length (queue (atimers s))"
  by (simp add: due_count_def)

lemma fire_decreases:
  assumes lt: "loading_timeline s" and wf: "sched_wf (atimers s)" and qb: "queue_bound s"
    and d: "dom_ready s = Some d" and l: "is_loading (scene s)"
  shows "\<exists>s'. app_step s AppFire = Some s' \<and> fire_measure d s' < fire_measure d s"
proof -
  obtain x where nowd: "now (atimers s) \<le> d + 3500" and x: "x \<in> set (queue (atimers s))"
    and xd: "fst (snd x) \<le> d + 3500"
    using loading_pending [OF lt d l] by blast
  then have "queue (atimers s) \<noteq> []" by auto
  then obtain cb t where pop: "pop_timer (atimers s) = Some (cb, t)"
    by (cases "pop_timer (atimers s)") force+
  obtain e where e: "e \<in> set (queue (atimers s))" "queue t = remove1 e (queue (atimers s))"
    "now t = max (now (atimers s)) (fst (snd e))" "\<forall>e' \<in> set (queue (atimers s)). fst (snd e) \<le> fst (snd e')"
    using pop by (rule pop_timer_SomeE)
  let ?s1 = "s\<lparr>atimers := t\<rparr>"
  let ?s' = "app_cb_run cb ?s1"
  have step: "app_step s AppFire = Some ?s'" using pop by simp
  have now': "now (atimers ?s') = fst (snd e)" using e(1,3) wf by (simp add: sched_wf_def)
  have ed: "fst (snd e) \<le> d + 3500" using e(4) x xd by fastforce
  have cnt: "due_count ?s' = length (filter (\<lambda>e'. fst (snd e') \<le> fst (snd e)) (queue t))"
    using app_cb_run_due [of ?s1 cb] now' by (simp add: due_count_def)
  have "fire_measure d ?s' < fire_measure d s"
  proof (cases "fst (snd e) = now (atimers s)")
    case True
    let ?P = "\<lambda>e'. fst (snd e') \<le> now (atimers s)"
    have ef: "e \<in> set (filter ?P (queue (atimers s)))" using e(1) True by simp
    then have "length (filter ?P (queue t)) = due_count s - 1"
      using e(2) by (simp add: filter_remove1_same length_remove1 due_count_def)
    moreover have "0 < due_count s"
      using length_pos_if_in_set [OF ef] by (simp add: due_count_def)
    ultimately show ?thesis using cnt now' True by (simp add: fire_measure_def)
  next
    case False
    then have lt': "now (atimers s) < fst (snd e)" using e(1) wf by (fastforce simp: sched_wf_def)
    have "due_count ?s' \<le> length (queue t)" using cnt by simp
    also have "length (queue t) = length (queue (atimers s)) - 1"
      by (rule pop_timer_queue_length [OF pop])
    finally have "due_count ?s' \<le> 2" using qb d by (simp add: queue_bound_def)
    then show ?thesis using lt' ed now' by (simp add: fire_measure_def)
  qed
  with step show ?thesis by blast
qed

lemma fire_until_loaded:
  assumes "loading_timeline s" and "app_wf s" and "queue_bound s" and "dom_ready s = Some d"
  shows "\<exists>k s'. k \<le> fire_measure d s \<and> app_run s (replicate k AppFire) = Some s'
    \<and> \<not> is_loading (scene s')"
  using assms
proof (induction "fire_measure d s" arbitrary: s rule: less_induct)
  case less
  show ?case
  proof (cases "is_loading (scene s)")
    case False
    then show ?thesis by (rule_tac x = 0 in exI) simp
  next
    case True
    obtain s1 where st: "app_step s AppFire = Some s1" and dec: "fire_measure d s1 < fire_measure d s"
      using fire_decreases [OF less.prems(1) _ less.prems(3,4) True] less.prems(2)
      by (auto simp: app_wf_def)
    have "loading_timeline s1" "app_wf s1" "queue_bound s1" "dom_ready s1 = Some d"
      using timeline_step [OF less.prems(1) st] app_wf_step [OF less.prems(2) st]
        queue_bound_step [OF less.prems(3) st] app_step_fire_dom_ready [OF st] less.prems(4)
      by simp_all
    then obtain k s' where "k \<le> fire_measure d s1" "app_run s1 (replicate k AppFire) = Some s'"
      "\<not> is_loading (scene s')"
      using less.hyps [OF dec] by blast
    with st dec show ?thesis by (rule_tac x = "Suc k" in exI) auto
  qed
qed

section \<open>Page-run properties\<close>

text \<open>
  C39. Liveness of the loading screen: in every run of the page in which the document
  has been loaded (at time \<open>d\<close>), letting the pending timers fire ends the loading
  state, after at most \<open>4 * (d + 3500 - now) + 3\<close> callbacks. The progress interval,
  which re-arms itself every 200 ms, cannot keep the page loading forever.
\<close>

theorem loading_eventually_ends:
  assumes "app_run (script_load w h ep g) es = Some s" and "dom_ready s = Some d"
  shows "\<exists>k s'. k \<le> 4 * (d + 3500 - now (atimers s)) + 3
    \<and> app_run s (replicate k AppFire) = Some s' \<and> \<not> is_loading (scene s')"
proof -
  have i: "app_wf s" "queue_bound s" "loading_timeline s"
    using app_run_invariants [OF assms(1)] script_load_invariants timeline_script_load by auto
  have "fire_measure d s \<le> 4 * (d + 3500 - now (atimers s)) + 3"
    using due_count_le [of s] i(2) assms(2) by (simp add: fire_measure_def queue_bound_def)
  with fire_until_loaded [OF i(3,1,2) assms(2)] show ?thesis by (meson order_trans)
qed

theorem loading_eventually_ends_witness:
  "\<exists>s k s'. app_run (script_load 1280 720 0 (const_rng 0.99)) [DOMContentLoaded [] None] = Some s
     \<and> k \<le> 14003 \<and> app_run s (replicate k AppFire) = Some s' \<and> \<not> is_loading (scene s')"
proof -
  have "\<exists>s. app_run (script_load 1280 720 0 (const_rng 0.99)) [DOMContentLoaded [] None] = Some s
      \<and> dom_ready s = Some 0 \<and> now (atimers s) = 0"
    by (simp add: script_load_def initializeApp_def sched_init_def set_timeout_def Let_def split_beta)
  then obtain s where r: "app_run (script_load 1280 720 0 (const_rng 0.99)) [DOMContentLoaded [] None] = Some s"
    and d: "dom_ready s = Some 0" and n: "now (atimers s) = 0" by blast
  show ?thesis using loading_eventually_ends [OF r d] r n by auto
qed


text \<open>
  C40. The page state is well formed in every run: the \<open>planets\<close> array references
  distinct meshes of the store and every planet child of the scene a mesh of the store
  (after \<open>initializeApp\<close>, frames, input events and the mobile truncation of
  \<open>optimizePerformance\<close> alike), no pending timer is due before the clock, and at most
  three timers are pending.
\<close>

theorem app_state_wf:
  assumes "app_run (script_load w h ep g) es = Some s"
  shows "scene_wf (scene s) \<and> sched_wf (atimers s) \<and> length (queue (atimers s)) \<le> 3"
  using app_run_invariants [OF assms] script_load_invariants timeline_script_load
  by (auto simp: app_wf_def queue_bound_def split: if_splits)

theorem app_state_wf_witness:
  "\<exists>s. app_run (script_load 375 667 0 (const_rng 0.5))
      [DOMContentLoaded [] None, AnimFrame, AppMouse 10 20, AppResize 800 600] = Some s
    \<and> scene_wf (scene s) \<and> length (queue (atimers s)) \<le> 3"
proof -
  have "\<exists>s. app_run (script_load 375 667 0 (const_rng 0.5))
      [DOMContentLoaded [] None, AnimFrame, AppMouse 10 20, AppResize 800 600] = Some s"
    by (simp add: script_load_def initializeApp_def Let_def split_beta)
  then obtain s where r: "app_run (script_load 375 667 0 (const_rng 0.5))
      [DOMContentLoaded [] None, AnimFrame, AppMouse 10 20, AppResize 800 600] = Some s" by blast
  show ?thesis using app_state_wf [OF r] r by blast
qed

end
