(* ===== verification/SmoothScroll.thy ===== *)
theory SmoothScroll
  imports Utilities Navigation
begin

text \<open>
  Smooth scrolling, \<open>initSmoothScrolling\<close> in \<open>src/script.js\<close>: the Lenis instance
  with the easing of \<open>Utilities\<close>, and the \<open>raf\<close> loop that calls
  \<open>lenis.raf(time)\<close> and re-queues itself every animation frame. The callers of
  \<open>lenis.scrollTo\<close> are the anchor links (\<open>Navigation\<close>, 1.5 s) and the two
  call-to-action buttons (\<open>Interactions\<close>, 2 s).

  Lenis itself is modelled from its documented behaviour: \<open>scrollTo(target,
  {duration})\<close> clamps the target to \<open>[0, limit]\<close> and starts an animation from the
  current animated scroll position; \<open>raf(time)\<close> advances it by the time since the
  previous call (\<open>time - (this.time || time)\<close>, in milliseconds; the animation counts
  seconds), and each step sets the scroll position to
  \<open>from + (to - from) * easing(progress)\<close>, or to the target once the progress reaches 1,
  which stops the animation.
\<close>

record lenis_anim =
  la_from :: real
  la_to :: real
  la_duration :: real
  la_current :: real
  la_running :: bool

record lenis_state =
  animated_scroll :: real
  l_time :: real
  l_limit :: real
  l_anim :: lenis_anim

text \<open>\<open>new Lenis({...})\<close> on a page scrolled to \<open>y\<close> whose maximal scroll is
  \<open>limit\<close>.\<close>

definition lenis_new :: "real \<Rightarrow> real \<Rightarrow> lenis_state" where
  "lenis_new y limit =
     \<lparr>animated_scroll = y, l_time = 0, l_limit = limit,
      l_anim = \<lparr>la_from = y, la_to = y, la_duration = 1.2, la_current = 0, la_running = False\<rparr>\<rparr>"

definition clamp :: "real \<Rightarrow> real \<Rightarrow> real \<Rightarrow> real" where
  "clamp lo hi x = max lo (min hi x)"

definition lenis_scrollTo :: "real \<Rightarrow> real \<Rightarrow> lenis_state \<Rightarrow> lenis_state" where
  "lenis_scrollTo target dur s =
     s\<lparr>l_anim := \<lparr>la_from = animated_scroll s, la_to = clamp 0 (l_limit s) target,
                   la_duration = dur, la_current = 0, la_running = True\<rparr>\<rparr>"

text \<open>One step of the animation by \<open>dt\<close> seconds: the new scroll value, if the
  animation is running.\<close>

definition anim_advance :: "real \<Rightarrow> lenis_anim \<Rightarrow> real option \<times> lenis_anim" where
  "anim_advance dt a =
     (if \<not> la_running a then (None, a)
      else
        (let cur = la_current a + dt;
             p = clamp 0 1 (cur / la_duration a);
             completed = 1 \<le> p;
             e = (if completed then 1 else lenis_easing p)
         in (Some (la_from a + (la_to a - la_from a) * e),
             a\<lparr>la_current := cur, la_running := \<not> completed\<rparr>)))"

definition lenis_raf :: "real \<Rightarrow> lenis_state \<Rightarrow> lenis_state" where
  "lenis_raf time s =
     (let dt = time - (if l_time s = 0 then time else l_time s);
          (v, a) = anim_advance (dt * 0.001) (l_anim s)
      in s\<lparr>l_time := time, l_anim := a,
           animated_scroll := (case v of None \<Rightarrow> animated_scroll s | Some x \<Rightarrow> x)\<rparr>)"

text \<open>The \<open>raf\<close> loop: the number of queued \<open>raf\<close> callbacks and the Lenis
  instance. An animation frame at \<open>time\<close> runs every queued callback; each calls
  \<open>lenis.raf(time)\<close> and queues itself again.\<close>

record raf_loop =
  raf_queued :: nat
  lenis :: lenis_state

definition initSmoothScrolling :: "real \<Rightarrow> real \<Rightarrow> raf_loop" where
  "initSmoothScrolling y limit = \<lparr>raf_queued = 1, lenis = lenis_new y limit\<rparr>"

definition raf_frame :: "real \<Rightarrow> raf_loop \<Rightarrow> raf_loop" where
  "raf_frame time r = r\<lparr>lenis := (lenis_raf time ^^ raf_queued r) (lenis r)\<rparr>"

definition raf_frames :: "real list \<Rightarrow> raf_loop \<Rightarrow> raf_loop" where
  "raf_frames ts r = fold raf_frame ts r"

text \<open>A \<open>scrollTo\<close> request recorded by a click handler: a selector or section id,
  resolved to its scroll offset, and a duration in seconds.\<close>

definition scroll_request :: "(string \<Rightarrow> real) \<Rightarrow> string \<times> real \<Rightarrow> raf_loop \<Rightarrow> raf_loop" where
  "scroll_request offset req r =
     r\<lparr>lenis := lenis_scrollTo (offset (fst req)) (snd req) (lenis r)\<rparr>"

text \<open>The invariant of a glide started at frame time \<open>t0\<close> from \<open>from\<close>
  to \<open>tgt\<close>: the scroll position stays between the two (\<open>between\<close> of
  \<open>Prelude\<close>), the animation's clock is the frame clock since \<open>t0\<close>, and a
  stopped glide sits at its target.\<close>

definition glide_inv :: "real \<Rightarrow> real \<Rightarrow> real \<Rightarrow> real \<Rightarrow> lenis_state \<Rightarrow> bool" where
  "glide_inv t0 from tgt dur s \<longleftrightarrow>
     t0 \<le> l_time s \<and> la_to (l_anim s) = tgt \<and> between from tgt (animated_scroll s)
     \<and> (la_running (l_anim s) \<longrightarrow> la_from (l_anim s) = from \<and> la_duration (l_anim s) = dur
          \<and> la_current (l_anim s) = (l_time s - t0) * 0.001 \<and> la_current (l_anim s) < dur)
     \<and> (\<not> la_running (l_anim s) \<longrightarrow> animated_scroll s = tgt)"

section \<open>Lemmas\<close>

lemma lenis_easing_unit: "0 \<le> p \<Longrightarrow> 0 \<le> lenis_easing p \<and> lenis_easing p \<le> 1"
  using powr_neg_le_one [of p] by (simp add: lenis_easing_def)

lemma clamp_unit: "0 \<le> clamp 0 1 x" "1 \<le> clamp 0 1 x \<longleftrightarrow> 1 \<le> x"
  by (auto simp: clamp_def)

lemma anim_advance_running:
  assumes "la_running a" and "la_current a + dt = cur"
  shows "anim_advance dt a =
    (Some (la_from a + (la_to a - la_from a)
             * (if 1 \<le> cur / la_duration a then 1 else lenis_easing (clamp 0 1 (cur / la_duration a)))),
     a\<lparr>la_current := cur, la_running := \<not> 1 \<le> cur / la_duration a\<rparr>)"
  using assms by (simp add: anim_advance_def Let_def clamp_unit)

lemma lenis_raf_advance:
  assumes "l_time s \<noteq> 0" and "anim_advance ((time - l_time s) * 0.001) (l_anim s) = (v, a)"
  shows "lenis_raf time s =
    s\<lparr>l_time := time, l_anim := a, animated_scroll := (case v of None \<Rightarrow> animated_scroll s | Some x \<Rightarrow> x)\<rparr>"
  using assms by (simp add: lenis_raf_def Let_def)

lemma glide_inv_raf:
  assumes inv: "glide_inv t0 from tgt dur s" and t0: "0 < t0" and le: "l_time s \<le> time"
  shows "glide_inv t0 from tgt dur (lenis_raf time s)"
proof (cases "la_running (l_anim s)")
  case False
  with inv le show ?thesis
    by (simp add: glide_inv_def lenis_raf_def anim_advance_def Let_def)
next
  case True
  let ?a = "l_anim s"
  have nz: "l_time s \<noteq> 0" using inv t0 by (auto simp: glide_inv_def)
  have run: "la_from ?a = from" "la_duration ?a = dur" "la_current ?a = (l_time s - t0) * 0.001"
    "la_current ?a < dur" "la_to ?a = tgt"
    using inv True by (simp_all add: glide_inv_def)
  define cur where "cur = (time - t0) * 0.001"
  have cur: "la_current ?a + (time - l_time s) * 0.001 = cur"
    unfolding cur_def run(3) by (simp only: left_diff_distrib)
  have "t0 \<le> l_time s" using inv by (simp add: glide_inv_def)
  then have "0 \<le> la_current ?a" using run(3) by simp
  with run(4) have pos: "0 < dur" by linarith
  have r: "lenis_raf time s =
    s\<lparr>l_time := time, l_anim := ?a\<lparr>la_current := cur, la_running := \<not> 1 \<le> cur / dur\<rparr>,
      animated_scroll := from + (tgt - from)
        * (if 1 \<le> cur / dur then 1 else lenis_easing (clamp 0 1 (cur / dur)))\<rparr>"
    using lenis_raf_advance [OF nz anim_advance_running [OF True cur]] run by simp
  show ?thesis
  proof (cases "1 \<le> cur / dur")
    case True
    then show ?thesis using r inv le run by (simp add: glide_inv_def)
  next
    case False
    then have "cur < dur" using pos by (simp add: field_simps)
    moreover have "between from tgt (from + (tgt - from) * lenis_easing (clamp 0 1 (cur / dur)))"
      using lenis_easing_unit [OF clamp_unit(1)] by (blast intro: between_interp)
    ultimately show ?thesis
      using r False inv le run \<open>la_running ?a\<close> by (simp add: glide_inv_def cur_def)
  qed
qed

lemma lenis_raf_fields [simp]:
  "l_time (lenis_raf t s) = t" "l_limit (lenis_raf t s) = l_limit s"
  by (simp_all add: lenis_raf_def split_beta Let_def)

lemma glide_inv_frames:
  "glide_inv t0 from tgt dur s \<Longrightarrow> 0 < t0 \<Longrightarrow> sorted (l_time s # ts) \<Longrightarrow>
     glide_inv t0 from tgt dur (fold lenis_raf ts s)"
proof (induction ts arbitrary: s)
  case Nil
  then show ?case by simp
next
  case (Cons t ts)
  have "glide_inv t0 from tgt dur (lenis_raf t s)"
    using glide_inv_raf [OF Cons.prems(1,2)] Cons.prems(3) by simp
  moreover have "sorted (l_time (lenis_raf t s) # ts)"
    using Cons.prems(3) by simp
  ultimately show ?case using Cons.IH Cons.prems(2) by simp
qed

lemma l_time_frames: "ts \<noteq> [] \<Longrightarrow> l_time (fold lenis_raf ts s) = last ts"
  by (induction ts arbitrary: s rule: rev_induct) simp_all

lemma glide_inv_scrollTo:
  "0 \<le> tgt \<Longrightarrow> tgt \<le> l_limit s \<Longrightarrow> 0 < dur \<Longrightarrow>
     glide_inv (l_time s) (animated_scroll s) tgt dur (lenis_scrollTo tgt dur s)"
  by (simp add: glide_inv_def lenis_scrollTo_def clamp_def between_def)

text \<open>A glide started at a frame time \<open>t0 > 0\<close> never leaves the segment between
  its start and its target, and has reached the target and stopped once a frame at least
  \<open>dur\<close> seconds later has run.\<close>

lemma glide_arrives:
  assumes "0 < l_time s" "0 < dur" "0 \<le> tgt" "tgt \<le> l_limit s" "sorted (l_time s # ts)"
  shows "between (animated_scroll s) tgt (animated_scroll (fold lenis_raf ts (lenis_scrollTo tgt dur s)))
    \<and> (ts \<noteq> [] \<longrightarrow> l_time s + 1000 * dur \<le> last ts \<longrightarrow>
         animated_scroll (fold lenis_raf ts (lenis_scrollTo tgt dur s)) = tgt
         \<and> \<not> la_running (l_anim (fold lenis_raf ts (lenis_scrollTo tgt dur s))))"
proof -
  let ?s = "fold lenis_raf ts (lenis_scrollTo tgt dur s)"
  have i: "glide_inv (l_time s) (animated_scroll s) tgt dur ?s"
    using glide_inv_frames [OF glide_inv_scrollTo [OF assms(3,4,2)] assms(1)] assms(5)
    by (simp add: lenis_scrollTo_def)
  have "ts \<noteq> [] \<Longrightarrow> l_time s + 1000 * dur \<le> last ts \<Longrightarrow> \<not> la_running (l_anim ?s)"
  proof
    assume ne: "ts \<noteq> []" and late: "l_time s + 1000 * dur \<le> last ts" and r: "la_running (l_anim ?s)"
    have "l_time ?s = last ts" using l_time_frames [OF ne] by (simp add: lenis_scrollTo_def)
    then have "la_current (l_anim ?s) = (last ts - l_time s) * 0.001" "la_current (l_anim ?s) < dur"
      using i r by (simp_all add: glide_inv_def)
    with late show False by simp
  qed
  with i show ?thesis by (auto simp: glide_inv_def)
qed

lemma raf_frames_single:
  "raf_queued r = 1 \<Longrightarrow> raf_frames ts r = r\<lparr>lenis := fold lenis_raf ts (lenis r)\<rparr>"
  by (induction ts arbitrary: r) (simp_all add: raf_frames_def raf_frame_def)

section \<open>Requests from the click handlers\<close>

text \<open>The links are those of \<open>a[href^="#"]\<close>: their \<open>href\<close> starts with
  \<open>#\<close>.\<close>

lemma anchor_click_request:
  assumes "anchor_click ids (CHR ''#'' # name) ns = Inr ns'"
    and "scroll_requests ns' \<noteq> scroll_requests ns"
  shows "scroll_requests ns' = scroll_requests ns @ [(name, 1.5)] \<and> name \<in> set ids"
  using assms by (auto simp: anchor_click_def query_hash_def split: if_splits)

text \<open>A request served by the \<open>raf\<close> loop: the page glides towards the
  requested offset without passing it, and is there once the request's duration has
  passed in frame time.\<close>

lemma request_glide:
  assumes "raf_queued r = 1" and "0 < l_time (lenis r)" and "0 < snd req"
    and "0 \<le> offset (fst req)" and "offset (fst req) \<le> l_limit (lenis r)"
    and "sorted (l_time (lenis r) # ts)"
  shows "between (animated_scroll (lenis r)) (offset (fst req))
      (animated_scroll (lenis (raf_frames ts (scroll_request offset req r))))
    \<and> (ts \<noteq> [] \<longrightarrow> l_time (lenis r) + 1000 * snd req \<le> last ts \<longrightarrow>
         animated_scroll (lenis (raf_frames ts (scroll_request offset req r))) = offset (fst req))"
proof -
  have "raf_frames ts (scroll_request offset req r) =
      (scroll_request offset req r)\<lparr>lenis := fold lenis_raf ts (lenis_scrollTo (offset (fst req)) (snd req) (lenis r))\<rparr>"
    using raf_frames_single [of "scroll_request offset req r" ts] assms(1)
    by (simp add: scroll_request_def)
  then show ?thesis
    using glide_arrives [OF assms(2,3,4,5,6)] by simp
qed

section \<open>Link clicks and smooth scrolling\<close>

text \<open>
  C33. A click on an in-page link whose target section exists starts a 1.5 s Lenis glide
  served by the \<open>raf\<close> loop of \<open>initSmoothScrolling\<close>: over any sequence of
  later frames the page moves towards the section's offset without passing it, and it
  is exactly at the section once a frame at least 1500 ms after the click has run.
\<close>

theorem anchor_glide:
  assumes "anchor_click ids (CHR ''#'' # name) ns = Inr ns'"
    and "scroll_requests ns' \<noteq> scroll_requests ns"
    and "raf_queued r = 1" and "0 < l_time (lenis r)"
    and "0 \<le> offset name" and "offset name \<le> l_limit (lenis r)"
    and "sorted (l_time (lenis r) # ts)"
  shows "between (animated_scroll (lenis r)) (offset name)
      (animated_scroll (lenis (raf_frames ts (scroll_request offset (last (scroll_requests ns')) r))))
    \<and> (ts \<noteq> [] \<longrightarrow> l_time (lenis r) + 1500 \<le> last ts \<longrightarrow>
         animated_scroll (lenis (raf_frames ts (scroll_request offset (last (scroll_requests ns')) r)))
           = offset name)"
proof -
  have "last (scroll_requests ns') = (name, 1.5)"
    using anchor_click_request [OF assms(1,2)] by simp
  then show ?thesis
    using request_glide [of r "(name, 1.5)" offset ts] assms(3-7) by simp
qed

theorem anchor_glide_witness:
  "animated_scroll (lenis (raf_frames [32, 1000, 1600]
      (scroll_request (\<lambda>_. 1200) (''markets'', 1.5)
        \<lparr>raf_queued = 1, lenis = (lenis_new 0 5000)\<lparr>l_time := 16\<rparr>\<rparr>))) = 1200"
proof -
  let ?ns = "\<lparr>menu_active = False, toggle_active = False, links = [], scroll_requests = []\<rparr>"
  let ?r = "\<lparr>raf_queued = 1, lenis = (lenis_new 0 5000)\<lparr>l_time := 16\<rparr>\<rparr>"
  have i: "css_ident ''markets''" by (simp add: ident_start_def ident_char_def)
  have c: "anchor_click [''markets''] (CHR ''#'' # ''markets'') ?ns = Inr (?ns\<lparr>scroll_requests := [(''markets'', 1.5)]\<rparr>)"
    using i by (simp add: anchor_click_def query_hash_def)
  show ?thesis
    using anchor_glide [OF c, of ?r "\<lambda>_. 1200" "[32, 1000, 1600]"]
    by (simp add: lenis_new_def)
qed

text \<open>
  C34. From a link to its section and back: a click on the in-page link of section
  \<open>k\<close>, served by the \<open>raf\<close> loop until a frame at least 1500 ms later, leaves
  the page scrolled to the section's top, and the scroll listener of
  \<open>initNavigation\<close> then highlights exactly the links to that section, the clicked
  one among them. This needs the sections in document order, the section's top within
  the scrollable range, and the next section more than the 200 px margin further down
  (otherwise the highlight goes to that next section).
\<close>

theorem anchor_roundtrip:
  assumes click: "anchor_click ids (CHR ''#'' # sec_id (secs ! k)) ns = Inr ns'"
    and moved: "scroll_requests ns' \<noteq> scroll_requests ns"
    and so: "sorted (map sec_top secs)" and k: "k < length secs"
    and gap: "Suc k < length secs \<longrightarrow> sec_top (secs ! k) + 200 < sec_top (secs ! Suc k)"
    and off: "offset (sec_id (secs ! k)) = sec_top (secs ! k)"
    and lim: "0 \<le> sec_top (secs ! k)" "sec_top (secs ! k) \<le> l_limit (lenis r)"
    and raf: "raf_queued r = 1" "0 < l_time (lenis r)"
    and ts: "sorted (l_time (lenis r) # ts)" "ts \<noteq> []" "l_time (lenis r) + 1500 \<le> last ts"
  shows "links (on_scroll (animated_scroll (lenis (raf_frames ts
             (scroll_request offset (last (scroll_requests ns')) r)))) secs ns')
    = map (\<lambda>l. l\<lparr>link_active := (link_href l = CHR ''#'' # sec_id (secs ! k))\<rparr>) (links ns')"
proof -
  let ?name = "sec_id (secs ! k)"
  have "last (scroll_requests ns') = (?name, 1.5)"
    using anchor_click_request [OF click moved] by simp
  then have y: "animated_scroll (lenis (raf_frames ts (scroll_request offset (last (scroll_requests ns')) r)))
      = sec_top (secs ! k)"
    using request_glide [of r "(?name, 1.5)" offset ts] raf lim off ts by simp
  have f: "filter (\<lambda>sec. sec_top sec - 200 \<le> sec_top (secs ! k)) secs = take (Suc k) secs"
    using filter_reached_section [OF so k] gap by blast
  have "take (Suc k) secs \<noteq> []" "last (take (Suc k) secs) = secs ! k"
    using k by (auto simp: take_Suc_conv_app_nth)
  then have "(case take (Suc k) secs of [] \<Rightarrow> [] | xs \<Rightarrow> sec_id (last xs)) = ?name"
    by (cases "take (Suc k) secs") auto
  then have "current_section (sec_top (secs ! k)) secs [] = ?name"
    using f by (simp add: current_section_last)
  then show ?thesis using y by (simp add: on_scroll_def)
qed

theorem anchor_roundtrip_witness:
  "links (on_scroll (animated_scroll (lenis (raf_frames [32, 1000, 1600]
      (scroll_request (\<lambda>_. 800) (''markets'', 1.5)
        \<lparr>raf_queued = 1, lenis = (lenis_new 0 5000)\<lparr>l_time := 16\<rparr>\<rparr>))))
      [\<lparr>sec_id = ''home'', sec_top = 0\<rparr>, \<lparr>sec_id = ''markets'', sec_top = 800\<rparr>,
       \<lparr>sec_id = ''planets'', sec_top = 1600\<rparr>]
      \<lparr>menu_active = False, toggle_active = False,
       links = [\<lparr>link_href = ''#home'', link_active = True\<rparr>,
                \<lparr>link_href = ''#markets'', link_active = False\<rparr>],
       scroll_requests = [(''markets'', 1.5)]\<rparr>)
   = [\<lparr>link_href = ''#home'', link_active = False\<rparr>, \<lparr>link_href = ''#markets'', link_active = True\<rparr>]"
proof -
  let ?secs = "[\<lparr>sec_id = ''home'', sec_top = 0\<rparr>, \<lparr>sec_id = ''markets'', sec_top = 800\<rparr>,
       \<lparr>sec_id = ''planets'', sec_top = (1600::real)\<rparr>]"
  let ?ns = "\<lparr>menu_active = False, toggle_active = False,
       links = [\<lparr>link_href = ''#home'', link_active = True\<rparr>,
                \<lparr>link_href = ''#markets'', link_active = False\<rparr>],
       scroll_requests = []\<rparr>"
  let ?r = "\<lparr>raf_queued = 1, lenis = (lenis_new 0 5000)\<lparr>l_time := 16\<rparr>\<rparr>"
  have i: "css_ident ''markets''" by (simp add: ident_start_def ident_char_def)
  have c: "anchor_click [''home'', ''markets'', ''planets''] (CHR ''#'' # sec_id (?secs ! 1)) ?ns
      = Inr (?ns\<lparr>scroll_requests := [(''markets'', 1.5)]\<rparr>)"
    using i by (simp add: anchor_click_def query_hash_def)
  show ?thesis
    using anchor_roundtrip [OF c, of "\<lambda>_. 800" ?r "[32, 1000, 1600]"]
    by (simp add: lenis_new_def)
qed

end
