(* ===== verification/Shaders.thy ===== *)
theory Shaders
  imports Scene "HOL-Library.Word"
begin

unbundle bit_operations_syntax

text \<open>
  The two GLSL programs of \<open>src/script.js\<close> and the uniforms the script gives them:
  the atmosphere glow of each planet (\<open>createPlanets\<close>) and the nebula plane
  (\<open>createNebula\<close>), with the colours built by \<open>new THREE.Color(hex)\<close>.

  GLSL is modelled after the GLSL ES 1.0 specification on real numbers: \<open>vec2\<close> and
  \<open>vec3\<close> are pairs and triples, \<open>normalize\<close> of the zero vector and \<open>pow(x, y)\<close>
  for \<open>x < 0\<close>, or \<open>x = 0\<close> and \<open>y \<le> 0\<close>, are undefined (the value \<open>None\<close>),
  \<open>fract(x) = x - floor(x)\<close> and \<open>mix(a, b, t) = a * (1 - t) + b * t\<close>. The matrices
  three.js supplies (\<open>normalMatrix\<close>) and the mesh attributes (\<open>normal\<close>,
  \<open>uv\<close>) are inputs. \<open>THREE.Color(hex)\<close> decodes the channels with 32-bit
  JavaScript bit operations: \<open>(hex >> 16 & 255) / 255\<close> and so on.
\<close>

type_synonym vec2 = "real \<times> real"
type_synonym vec3 = "real \<times> real \<times> real"
type_synonym mat3 = "vec3 \<times> vec3 \<times> vec3"

section \<open>GLSL built-ins\<close>

fun dot3 :: "vec3 \<Rightarrow> vec3 \<Rightarrow> real" where
  "dot3 (a1, a2, a3) (b1, b2, b3) = a1 * b1 + a2 * b2 + a3 * b3"

fun scale3 :: "real \<Rightarrow> vec3 \<Rightarrow> vec3" where
  "scale3 k (a1, a2, a3) = (k * a1, k * a2, k * a3)"

fun add3 :: "vec3 \<Rightarrow> vec3 \<Rightarrow> vec3" where
  "add3 (a1, a2, a3) (b1, b2, b3) = (a1 + b1, a2 + b2, a3 + b3)"

definition length3 :: "vec3 \<Rightarrow> real" where
  "length3 v = sqrt (dot3 v v)"

definition unit3 :: "vec3 \<Rightarrow> vec3" where
  "unit3 v = scale3 (1 / length3 v) v"

definition normalize3 :: "vec3 \<Rightarrow> vec3 option" where
  "normalize3 v = (if length3 v = 0 then None else Some (unit3 v))"

text \<open>A matrix as its three rows.\<close>

fun mat_vec :: "mat3 \<Rightarrow> vec3 \<Rightarrow> vec3" where
  "mat_vec (r1, r2, r3) v = (dot3 r1 v, dot3 r2 v, dot3 r3 v)"

definition glsl_pow :: "real \<Rightarrow> real \<Rightarrow> real option" where
  "glsl_pow x y = (if x < 0 \<or> (x = 0 \<and> y \<le> 0) then None else Some (x powr y))"

definition glsl_fract :: "real \<Rightarrow> real" where
  "glsl_fract x = x - of_int \<lfloor>x\<rfloor>"

definition mix3 :: "vec3 \<Rightarrow> vec3 \<Rightarrow> real \<Rightarrow> vec3" where
  "mix3 a b t = add3 (scale3 (1 - t) a) (scale3 t b)"

fun dot2 :: "vec2 \<Rightarrow> vec2 \<Rightarrow> real" where
  "dot2 (a1, a2) (b1, b2) = a1 * b1 + a2 * b2"

section \<open>Colours\<close>

text \<open>\<open>new THREE.Color(hex)\<close>: \<open>setHex\<close> on the 32-bit integer of \<open>hex\<close>.\<close>

definition three_color :: "nat \<Rightarrow> vec3" where
  "three_color hex =
     (let w = word_of_nat hex :: 32 word
      in (real (unat (signed_drop_bit 16 w AND 255)) / 255,
          real (unat (signed_drop_bit 8 w AND 255)) / 255,
          real (unat (w AND 255)) / 255))"

section \<open>Planet glow\<close>

record glow_uniforms =
  g_c :: real
  g_p :: real
  glow_color :: vec3
  view_vector :: vec3

text \<open>The uniforms of one planet's glow material: \<open>c = 0.3\<close>, \<open>p = 1.4\<close>, the
  planet's colour, and \<open>viewVector = camera.position\<close>.\<close>

definition glow_material :: "nat \<Rightarrow> vec3 \<Rightarrow> glow_uniforms" where
  "glow_material col campos =
     \<lparr>g_c = 0.3, g_p = 1.4, glow_color = three_color col, view_vector = campos\<rparr>"

text \<open>The vertex shader's \<open>intensity\<close> for a vertex with normal \<open>normal\<close>, under
  the normal matrix \<open>nm\<close>.\<close>

definition glow_vertex :: "glow_uniforms \<Rightarrow> mat3 \<Rightarrow> vec3 \<Rightarrow> real option" where
  "glow_vertex u nm normal =
     (case (normalize3 (mat_vec nm normal), normalize3 (mat_vec nm (view_vector u))) of
        (Some vNormal, Some vNormel) \<Rightarrow> glsl_pow (g_c u - dot3 vNormal vNormel) (g_p u)
      | _ \<Rightarrow> None)"

text \<open>The fragment shader: \<open>gl_FragColor = vec4(glowColor * intensity, 1.0)\<close>.\<close>

definition glow_fragment :: "glow_uniforms \<Rightarrow> real \<Rightarrow> vec3 \<times> real" where
  "glow_fragment u intensity = (scale3 intensity (glow_color u), 1)"

section \<open>Nebula\<close>

record nebula_uniforms =
  n_time :: real
  color1 :: vec3
  color2 :: vec3

definition nebula_material :: nebula_uniforms where
  "nebula_material = \<lparr>n_time = 0, color1 = three_color 54527, color2 = three_color 16739179\<rparr>"

definition noise :: "vec2 \<Rightarrow> real" where
  "noise p = glsl_fract (sin (dot2 p (127.1, 311.7)) * 43758.5453123)"

text \<open>The fragment shader at texture coordinate \<open>uv\<close>:
  \<open>p = vUv * 8.0 + time * 0.1\<close> (the float is added to each component), three octaves of
  noise, and the colour \<open>mix(color1, color2, n)\<close> with alpha \<open>n * 0.3\<close>.\<close>

definition nebula_fragment :: "nebula_uniforms \<Rightarrow> vec2 \<Rightarrow> vec3 \<times> real" where
  "nebula_fragment u uv =
     (let p = (fst uv * 8 + n_time u * 0.1, snd uv * 8 + n_time u * 0.1);
          n = noise p * 0.5 + noise (2 * fst p, 2 * snd p) * 0.25
              + noise (4 * fst p, 4 * snd p) * 0.125
      in (mix3 (color1 u) (color2 u) n, n * 0.3))"

text \<open>The nebula as the scene shows it: the material's colours and the \<open>time\<close>
  uniform \<open>animate\<close> last wrote.\<close>

definition nebula_of_scene :: "scene_state \<Rightarrow> nebula_uniforms" where
  "nebula_of_scene sc = nebula_material\<lparr>n_time := nebula_time sc\<rparr>"

section \<open>Lemmas on vectors\<close>

lemma dot3_self_nonneg: "0 \<le> dot3 v v"
  by (cases v) auto

lemma dot3_self_zero: "dot3 v v = 0 \<longleftrightarrow> v = (0, 0, 0)"
proof (cases v)
  case (fields a b c)
  have "a * a + b * b + c * c = 0 \<longleftrightarrow> a = 0 \<and> b = 0 \<and> c = 0"
    using zero_le_square [of a] zero_le_square [of b] zero_le_square [of c]
    by (simp add: add_nonneg_eq_0_iff)
  with fields show ?thesis by simp
qed

lemma length3_zero: "length3 v = 0 \<longleftrightarrow> v = (0, 0, 0)"
  by (simp add: length3_def dot3_self_zero)

lemma normalize3_nonzero: "v \<noteq> (0, 0, 0) \<Longrightarrow> normalize3 v = Some (unit3 v)"
  by (simp add: normalize3_def length3_zero)

lemma dot3_scale3: "dot3 (scale3 k a) (scale3 k b) = k * k * dot3 a b"
  by (cases a; cases b) (simp add: algebra_simps)

lemma unit3_unit: "v \<noteq> (0, 0, 0) \<Longrightarrow> dot3 (unit3 v) (unit3 v) = 1"
proof -
  assume v: "v \<noteq> (0, 0, 0)"
  have pos: "0 < dot3 v v" using dot3_self_nonneg [of v] dot3_self_zero [of v] v by linarith
  have "length3 v * length3 v = dot3 v v"
    using dot3_self_nonneg [of v] by (simp add: length3_def)
  then show ?thesis using pos by (simp add: unit3_def dot3_scale3)
qed

text \<open>The dot product of two unit vectors lies in \<open>[-1, 1]\<close>: expand the squared
  length of their difference and of their sum.\<close>

lemma dot3_unit_bounds:
  assumes "dot3 a a = 1" and "dot3 b b = 1"
  shows "-1 \<le> dot3 a b \<and> dot3 a b \<le> 1"
proof -
  obtain a1 a2 a3 b1 b2 b3 where ab: "a = (a1, a2, a3)" "b = (b1, b2, b3)" by (cases a, cases b) auto
  have d: "0 \<le> (a1 - b1)\<^sup>2 + (a2 - b2)\<^sup>2 + (a3 - b3)\<^sup>2" and s: "0 \<le> (a1 + b1)\<^sup>2 + (a2 + b2)\<^sup>2 + (a3 + b3)\<^sup>2"
    by simp_all
  have "(a1 - b1)\<^sup>2 + (a2 - b2)\<^sup>2 + (a3 - b3)\<^sup>2 = dot3 a a + dot3 b b - 2 * dot3 a b"
    "(a1 + b1)\<^sup>2 + (a2 + b2)\<^sup>2 + (a3 + b3)\<^sup>2 = dot3 a a + dot3 b b + 2 * dot3 a b"
    using ab by (simp_all add: power2_eq_square algebra_simps)
  with d s assms show ?thesis by linarith
qed

lemma glow_vertex_nonzero:
  "mat_vec nm normal \<noteq> (0, 0, 0) \<Longrightarrow> mat_vec nm (view_vector u) \<noteq> (0, 0, 0) \<Longrightarrow>
     glow_vertex u nm normal =
       glsl_pow (g_c u - dot3 (unit3 (mat_vec nm normal)) (unit3 (mat_vec nm (view_vector u)))) (g_p u)"
  by (simp add: glow_vertex_def normalize3_nonzero)

section \<open>Lemmas on the nebula\<close>

lemma glsl_fract_unit: "0 \<le> glsl_fract x \<and> glsl_fract x < 1"
  using frac_ge_0 [of x] frac_lt_1 [of x] by (simp add: glsl_fract_def frac_def)

lemma noise_unit: "0 \<le> noise p \<and> noise p < 1"
  by (simp add: noise_def glsl_fract_unit)

lemma mix3_between:
  assumes "0 \<le> t" and "t \<le> 1"
  shows "between (fst a) (fst b) (fst (mix3 a b t))
    \<and> between (fst (snd a)) (fst (snd b)) (fst (snd (mix3 a b t)))
    \<and> between (snd (snd a)) (snd (snd b)) (snd (snd (mix3 a b t)))"
proof -
  obtain a1 a2 a3 b1 b2 b3 where ab: "a = (a1, a2, a3)" "b = (b1, b2, b3)" by (cases a, cases b) auto
  have "\<And>x y :: real. (1 - t) * x + t * y = x + (y - x) * t" by (simp add: algebra_simps)
  then show ?thesis using between_interp [OF assms] ab by (simp add: mix3_def)
qed

text \<open>The nebula's noise value \<open>n\<close> lies in \<open>[0, 0.875)\<close>: each colour channel
  lies between the channels of \<open>color1\<close> and \<open>color2\<close>, and the alpha stays below
  0.2625, whatever the time and the texture coordinate.\<close>

lemma nebula_fragment_bounds:
  "between (fst (color1 u)) (fst (color2 u)) (fst (fst (nebula_fragment u uv)))
   \<and> between (fst (snd (color1 u))) (fst (snd (color2 u))) (fst (snd (fst (nebula_fragment u uv))))
   \<and> between (snd (snd (color1 u))) (snd (snd (color2 u))) (snd (snd (fst (nebula_fragment u uv))))
   \<and> 0 \<le> snd (nebula_fragment u uv) \<and> snd (nebula_fragment u uv) < 0.2625"
proof -
  define p where "p = (fst uv * 8 + n_time u * 0.1, snd uv * 8 + n_time u * 0.1)"
  define n where "n = noise p * 0.5 + noise (2 * fst p, 2 * snd p) * 0.25 + noise (4 * fst p, 4 * snd p) * 0.125"
  have f: "nebula_fragment u uv = (mix3 (color1 u) (color2 u) n, n * 0.3)"
    by (simp add: nebula_fragment_def p_def n_def Let_def)
  have e: "(0.5::real) = 1/2" "(0.25::real) = 1/4" "(0.125::real) = 1/8" "(0.875::real) = 7/8"
    by simp_all
  have "0 \<le> n \<and> n < 0.875"
    using noise_unit [of p] noise_unit [of "(2 * fst p, 2 * snd p)"] noise_unit [of "(4 * fst p, 4 * snd p)"]
    unfolding n_def e by linarith
  then show ?thesis using mix3_between [of n "color1 u" "color2 u"] f by simp
qed

lemma three_color_page:
  "three_color 54527 = (0, 212 / 255, 1)" "three_color 16739179 = (1, 107 / 255, 107 / 255)"
  by (simp_all add: three_color_def)

lemma unat_and_255: "0 \<le> real (unat (x AND (255 :: 32 word))) \<and> real (unat (x AND (255 :: 32 word))) \<le> 255"
proof -
  have z: "0 \<le> real (unat (x AND (255 :: 32 word)))" by (rule of_nat_0_le_iff)
  have "unat (x AND 255) \<le> unat (255 :: 32 word)"
    by (rule word_and_le1 [THEN word_le_nat_alt [THEN iffD1]])
  then have "real (unat (x AND 255)) \<le> real (unat (255 :: 32 word))" by (rule of_nat_mono)
  then show ?thesis using z by simp
qed

lemma three_color_unit:
  "0 \<le> fst (three_color hex) \<and> fst (three_color hex) \<le> 1
   \<and> 0 \<le> fst (snd (three_color hex)) \<and> fst (snd (three_color hex)) \<le> 1
   \<and> 0 \<le> snd (snd (three_color hex)) \<and> snd (snd (three_color hex)) \<le> 1"
  using unat_and_255 [of "signed_drop_bit 16 (word_of_nat hex)"]
    unat_and_255 [of "signed_drop_bit 8 (word_of_nat hex)"] unat_and_255 [of "word_of_nat hex"]
  by (simp add: three_color_def Let_def)

text \<open>On the page, at any time uniform \<open>animate\<close> wrote, the nebula's red channel
  lies in \<open>[0, 1]\<close>, its green between 107/255 and 212/255, its blue between 107/255
  and 1, and its alpha below 0.2625: the plane stays a faint cyan-to-coral veil.\<close>

lemma nebula_scene_colours:
  "between 0 1 (fst (fst (nebula_fragment (nebula_of_scene sc) uv)))
   \<and> between (212 / 255) (107 / 255) (fst (snd (fst (nebula_fragment (nebula_of_scene sc) uv))))
   \<and> between 1 (107 / 255) (snd (snd (fst (nebula_fragment (nebula_of_scene sc) uv))))
   \<and> snd (nebula_fragment (nebula_of_scene sc) uv) < 0.2625"
  using nebula_fragment_bounds [of "nebula_of_scene sc" uv] three_color_page
  by (simp add: nebula_of_scene_def nebula_material_def)

section \<open>Shader properties\<close>

text \<open>
  C10. The planets' glow shader computes \<open>pow(c - dot(vNormal, vNormel), p)\<close> with
  \<open>c = 0.3\<close>: the intensity is undefined in GLSL exactly where the view-space normal and
  the normalised camera position make an angle whose cosine exceeds 0.3 (the part of the
  glow sphere facing the camera), and elsewhere it lies in \<open>[0, 1.3^1.4]\<close>, so a
  channel of \<open>glowColor * intensity\<close> can exceed 1.
\<close>

theorem glow_intensity:
  assumes "mat_vec nm normal \<noteq> (0, 0, 0)" and "mat_vec nm campos \<noteq> (0, 0, 0)"
  shows "(glow_vertex (glow_material col campos) nm normal = None
            \<longleftrightarrow> 0.3 < dot3 (unit3 (mat_vec nm normal)) (unit3 (mat_vec nm campos)))
    \<and> (\<forall>i. glow_vertex (glow_material col campos) nm normal = Some i \<longrightarrow> 0 \<le> i \<and> i \<le> 1.3 powr 1.4)"
proof -
  let ?d = "dot3 (unit3 (mat_vec nm normal)) (unit3 (mat_vec nm campos))"
  have b: "-1 \<le> ?d \<and> ?d \<le> 1" by (rule dot3_unit_bounds [OF unit3_unit [OF assms(1)] unit3_unit [OF assms(2)]])
  have g: "glow_vertex (glow_material col campos) nm normal = glsl_pow (0.3 - ?d) 1.4"
    using glow_vertex_nonzero [of nm normal "glow_material col campos"] assms by (simp add: glow_material_def)
  have "(0.3 - ?d) powr 1.4 \<le> 1.3 powr 1.4" if "0 \<le> 0.3 - ?d"
    using b that by (intro powr_mono2) auto
  then show ?thesis using g b by (auto simp: glsl_pow_def)
qed

theorem glow_intensity_witness:
  "glow_vertex (glow_material 54527 (0, 0, 1)) ((1, 0, 0), (0, 1, 0), (0, 0, 1)) (0, 0, 1) = None
   \<and> glow_vertex (glow_material 54527 (0, 0, 1)) ((1, 0, 0), (0, 1, 0), (0, 0, 1)) (1, 0, 0) \<noteq> None"
proof -
  have u: "unit3 (0, 0, 1) = (0, 0, 1)" "unit3 (1, 0, 0) = (1, 0, 0)"
    by (simp_all add: unit3_def length3_def)
  show ?thesis
    using glow_intensity [of "((1, 0, 0), (0, 1, 0), (0, 0, 1))" "(0, 0, 1)" "(0, 0, 1)" 54527]
      glow_intensity [of "((1, 0, 0), (0, 1, 0), (0, 0, 1))" "(1, 0, 0)" "(0, 0, 1)" 54527] u
    by simp
qed

end
