(* ===== verification/TopLevel.thy ===== *)
theory TopLevel
  imports Prelude
begin

text \<open>
  The top level of \<open>src/script.js\<close> as a host runs it: the global declarations, the
  \<open>DOMContentLoaded\<close> and \<open>mousemove\<close> listeners, \<open>setTimeout(optimizePerformance,
  1000)\<close>, the \<open>visibilitychange\<close> listener and the CommonJS export, in this order. A
  host may lack \<open>document\<close>, \<open>window\<close> or \<open>module\<close>: reading an undeclared global
  throws a \<open>ReferenceError\<close>, which stops the script (an error value here), while
  \<open>typeof module\<close> does not throw.
\<close>

record host =
  has_document :: bool
  has_window :: bool
  has_module :: bool

datatype ref_error = ReferenceError string

datatype top_stmt =
    DeclareGlobals
  | DocumentListener string
  | WindowListener string
  | TopSetTimeout nat
  | ModuleExport "string list"

record load_state =
  doc_listeners :: "string list"
  win_listeners :: "string list"
  top_timers :: "nat list"
  exports :: "string list option"

definition load_init :: load_state where
  "load_init = \<lparr>doc_listeners = [], win_listeners = [], top_timers = [], exports = None\<rparr>"

text \<open>The script's top-level statements, in source order.\<close>

definition script_top :: "top_stmt list" where
  "script_top =
     [DeclareGlobals, DocumentListener ''DOMContentLoaded'', WindowListener ''mousemove'',
      TopSetTimeout 1000, DocumentListener ''visibilitychange'',
      ModuleExport [''initializeApp'', ''createParticleExplosion'', ''renderChart'']]"

text \<open>One statement: \<open>if (typeof module !== 'undefined' && module.exports)\<close>
  guards the export (\<open>module.exports\<close> is an object, hence truthy, in a CommonJS
  host).\<close>

fun exec_top :: "host \<Rightarrow> top_stmt \<Rightarrow> load_state \<Rightarrow> ref_error + load_state" where
  "exec_top h DeclareGlobals s = Inr s"
| "exec_top h (DocumentListener ev) s =
     (if has_document h then Inr (s\<lparr>doc_listeners := doc_listeners s @ [ev]\<rparr>)
      else Inl (ReferenceError ''document''))"
| "exec_top h (WindowListener ev) s =
     (if has_window h then Inr (s\<lparr>win_listeners := win_listeners s @ [ev]\<rparr>)
      else Inl (ReferenceError ''window''))"
| "exec_top h (TopSetTimeout d) s = Inr (s\<lparr>top_timers := top_timers s @ [d]\<rparr>)"
| "exec_top h (ModuleExport names) s =
     (if has_module h then Inr (s\<lparr>exports := Some names\<rparr>) else Inr s)"

fun run_top :: "host \<Rightarrow> top_stmt list \<Rightarrow> load_state \<Rightarrow> ref_error + load_state" where
  "run_top h [] s = Inr s"
| "run_top h (st # sts) s =
     (case exec_top h st s of Inl e \<Rightarrow> Inl e | Inr s' \<Rightarrow> run_top h sts s')"

section \<open>Lemmas\<close>

text \<open>In a browser page (a \<open>document\<close> and a \<open>window\<close>, no \<open>module\<close>) the script
  registers its three listeners and the performance timer, and exports nothing.\<close>

lemma load_in_browser:
  "run_top \<lparr>has_document = True, has_window = True, has_module = False\<rparr> script_top load_init =
     Inr \<lparr>doc_listeners = [''DOMContentLoaded'', ''visibilitychange''], win_listeners = [''mousemove''],
          top_timers = [1000], exports = None\<rparr>"
  by (simp add: script_top_def load_init_def)

text \<open>The export is reached only in a host that also has \<open>document\<close> and
  \<open>window\<close> (a browser bundle); whenever the script loads without error, it has
  registered all its listeners.\<close>

lemma load_exports:
  "run_top h script_top load_init = Inr s \<Longrightarrow>
     has_document h \<and> has_window h \<and> (exports s \<noteq> None \<longleftrightarrow> has_module h)"
  by (auto simp: script_top_def load_init_def split: if_splits)

text \<open>Under Node's CommonJS loader (\<open>module\<close>, no \<open>document\<close>), the script throws at
  its first listener: \<open>require\<close> fails and nothing is exported.\<close>

lemma load_in_node:
  "run_top \<lparr>has_document = False, has_window = False, has_module = True\<rparr> script_top load_init =
     Inl (ReferenceError ''document'')"
  by (simp add: script_top_def load_init_def)

end
