(* ===== verification/Spec2Isabelle.thy ===== *)
theory Spec2Isabelle
  imports Prelude Canvas Charts Scene Frames Particles Forms Loading App Navigation Interactions
    Utilities ScrollAnimations Reveal Lifecycle SmoothScroll Shaders TopLevel
begin

text \<open>
  Verification model of the Cosmic Economy website script, \<open>src/script.js\<close>: one file
  of browser JavaScript, about 930 lines. The script has no server and no persistence.
  Its behaviour is what it draws and animates, the timers it sets, and how it reacts
  to the user's events. The libraries it calls (three.js, GSAP with ScrollTrigger,
  Lenis) and the browser APIs are modelled only as far as the script depends on them,
  from their documented behaviour; those definitions are marked as modelled from the
  specification in the manifest.

  \<^bold>\<open>Parts of the program and where they are modelled.\<close>

  \<^item> \<open>Prelude\<close>: the JavaScript runtime the components share.
    \<^item> Numbers are \<open>real\<close>s. Where \<open>NaN\<close> matters they are \<open>jsnum\<close>, with
      \<open>js_add\<close>, \<open>js_sub\<close>, \<open>js_mul\<close> and \<open>to_number\<close>.
    \<^item> \<open>Math.random\<close> is an explicit stream of draws (\<open>rng\<close>,
      \<open>math_random\<close>); \<open>draws_ok\<close> says the next \<open>n\<close> draws lie in \<open>[0, 1)\<close>.
    \<^item> \<open>setTimeout\<close>/\<open>clearTimeout\<close> run on a virtual-time scheduler
      (\<open>sched\<close>, \<open>set_timeout\<close>, \<open>clear_timeout\<close>, \<open>pop_timer\<close>). The
      earliest due timer runs first, ties in the order they were set. \<open>sched_wf\<close>
      says no timer is due in the past.
  \<^item> \<open>Canvas\<close>: the 2D context as a command language (\<open>cmd\<close>), interpreted by
    \<open>run_canvas\<close> into the picture it paints.
  \<^item> \<open>Charts\<close>: \<open>renderChart\<close>, \<open>renderTradingChart\<close> and \<open>initCharts\<close>,
    each a function from a canvas and the random stream to the commands it issues.
  \<^item> \<open>Scene\<close>: \<open>init3DScene\<close> with \<open>createStarfield\<close>, \<open>createPlanets\<close> and
    \<open>createNebula\<close>, plus the per-frame \<open>animate\<close>, the \<open>mousemove\<close> listener,
    \<open>onWindowResize\<close> and the scene half of \<open>optimizePerformance\<close>. The
    \<open>planets\<close> array and the scene graph share meshes, so meshes live in an explicit
    store (\<open>meshes\<close>) addressed by both.
  \<^item> \<open>Frames\<close>: how often \<open>animate\<close> runs, driven by the
    \<open>requestAnimationFrame\<close> chain and by the renderer loop that the
    \<open>visibilitychange\<close> listener attaches.
  \<^item> \<open>Particles\<close>: \<open>createParticleExplosion\<close> and \<open>createSuccessParticles\<close>.
    The page body is a store of particle nodes, with the GSAP tweens whose
    \<open>onComplete\<close> removes them.
  \<^item> \<open>Forms\<close>: \<open>initFormHandling\<close>, i.e. the focus and blur handlers and the
    simulated submission with its two timers. \<open>phase_of\<close> abstracts it to the
    spec's Idle/Sending/Sent machine.
  \<^item> \<open>Loading\<close>: the progress interval of \<open>initLoadingScreen\<close> and
    \<open>hideLoadingScreen\<close>.
  \<^item> \<open>App\<close>: the start-up timeline that joins the above. The script's top level
    (globals and \<open>setTimeout(optimizePerformance, 1000)\<close>) is \<open>script_load\<close>;
    \<open>DOMContentLoaded\<close> runs \<open>initializeApp\<close>. The four timer callbacks are
    \<open>app_cb\<close> values, and a run (\<open>app_run\<close>) is a list of events: document
    loaded, time passing, a timer firing, an animation frame, \<open>mousemove\<close>,
    \<open>resize\<close>.
  \<^item> \<open>Navigation\<close>: \<open>initNavigation\<close>, i.e. the menu toggle, the in-page link
    handler with \<open>querySelector\<close>'s \<open>SyntaxError\<close> as an error value, and the
    scroll listener that highlights the current section.
  \<^item> \<open>Interactions\<close>: \<open>initInteractiveElements\<close>. Each hover handler is the GSAP
    tween it starts, and \<open>settle\<close> gives the value a property rests at under GSAP 3's
    non-overwriting tweens. Also the two call-to-action clicks.
  \<^item> \<open>Utilities\<close>: \<open>debounce\<close>, as an inductive step relation (\<open>deb_step\<close>)
    and an equivalent step function (\<open>deb_exec\<close>, run over events by
    \<open>deb_run\<close>), and the Lenis easing of \<open>initSmoothScrolling\<close>. Its reference
    is declarative: \<open>deb_drive\<close> turns calls with pauses into events, and
    \<open>leading_calls\<close> and \<open>trailing_calls\<close> list the calls \<open>func\<close> should
    receive.
  \<^item> \<open>ScrollAnimations\<close>: from \<open>initGSAPAnimations\<close>, the hero timeline's
    schedule and the number counters, with \<open>parseInt\<close> and \<open>toLocaleString\<close>
    (en-US) modelled from their specifications.
  \<^item> \<open>Reveal\<close>: what is revealed on scroll.
    \<^item> The five section tweens of \<open>initGSAPAnimations\<close> (\<open>section_anims\<close>),
      with their \<open>top 80%\<close>/\<open>bottom 20%\<close> lines (\<open>st_start\<close>,
      \<open>st_end\<close>) and \<open>toggleActions\<close> strings.
    \<^item> ScrollTrigger, from its documentation: regions, callbacks, parsed toggle
      actions, tween direction.
    \<^item> The IntersectionObserver of \<open>optimizePerformance\<close>: the observed elements
      (\<open>observed\<close>), the callback that adds \<open>in-view\<close>
      (\<open>io_callback\<close>), and, after the IntersectionObserver specification, the
      entries the browser delivers under \<open>observerOptions\<close> (\<open>io_notify\<close>).
      \<open>in_view_below_threshold\<close> shows an element marked while less than the 10%
      threshold of it is visible.
  \<^item> \<open>SmoothScroll\<close>: \<open>initSmoothScrolling\<close>, i.e. the Lenis instance and the
    \<open>raf\<close> loop calling \<open>lenis.raf\<close> every frame. Lenis's \<open>scrollTo\<close> and
    animation step are modelled from its documentation, and the \<open>scrollTo\<close>
    requests of the link and button handlers are served by them.
  \<^item> \<open>Lifecycle\<close>: invariants and progress of the page run of \<open>App\<close>.
  \<^item> \<open>Shaders\<close>: the two GLSL programs of \<open>createPlanets\<close> (atmosphere glow)
    and \<open>createNebula\<close>, with the uniforms the script passes. GLSL is modelled on
    reals after the GLSL ES specification, and an undefined \<open>pow\<close> or
    \<open>normalize\<close> is \<open>None\<close>. \<open>THREE.Color(hex)\<close> decodes the channels
    with 32-bit words (\<open>signed_drop_bit\<close>, \<open>AND\<close>).
  \<^item> \<open>TopLevel\<close>: the script's top-level statements as a host runs them, up to
    the CommonJS export. An undeclared \<open>document\<close> or \<open>window\<close> throws a
    \<open>ReferenceError\<close>, an error value here. \<open>load_in_node\<close> shows that the
    export is never reached under Node (lemmas only).

  \<^bold>\<open>What the lemmas show.\<close> Each theory ends with its properties, in the order
  of the manifest, as listed below: C37 is in this theory, C10 in \<open>Shaders\<close> and
  C33 and C34 in \<open>SmoothScroll\<close>.
  \<^item> Charts (C1 to C4): well-formed candles chained from 100, the data polyline's
    extent, the exact picture \<open>renderChart\<close> paints (five grid lines where the spec
    says four), and candle bodies inside their wicks.
  \<^item> Scene (C5 to C9, C11):
    \<^item> nothing moves while loading;
    \<^item> the per-planet update;
    \<^item> the camera becomes \<open>NaN\<close> forever if no \<open>mousemove\<close> came first, and
      otherwise pursues its target geometrically;
    \<^item> planets cut from the array by \<open>optimizePerformance\<close> freeze but stay
      visible;
    \<^item> \<open>init3DScene\<close> on any well-formed scene: the four planets of
      \<open>planet_data\<close> at the next four mesh addresses, the children in the order
      the script adds them, the nebula found by its time uniform, positive speeds, and
      the store invariant kept.
  \<^item> Frames (C12, C13): one \<open>animate\<close> per frame normally, and \<open>p + k + 1\<close>
    calls at frame \<open>k\<close> after a hide/show cycle.
  \<^item> Particles (C14, C15): every particle is removed once its tween completes, in
    any order, and each goes to its angle and distance.
  \<^item> Forms (C16 to C19):
    \<^item> the label sequence of a submission;
    \<^item> refinement of the Idle/Sending/Sent machine under the discipline of pressing
      only while idle;
    \<^item> the stuck label after a double press;
    \<^item> labels and underlines stay in step.
  \<^item> Loading (C20 to C22): the bar is monotone within \<open>[0, 100]\<close>; the interval
    stops once the draws are bounded below; it fires at least seven times.
  \<^item> App (C23, C24): \<open>isLoading\<close> is cleared exactly 3.5 s after
    \<open>DOMContentLoaded\<close> in every run, whatever else happens; if the document loads
    after 1 s, the mobile downscale never happens. Both are proved through invariants of
    the timeline (\<open>loading_timeline\<close>, \<open>perf_timeline\<close>) preserved by every
    event.
  \<^item> Navigation (C25, C26): the scroll-spy fold equals the declarative choice of the
    last section reached and is monotone in the scroll position; the link handler
    behaves as stated on every branch, the \<open>SyntaxError\<close> included.
  \<^item> Interactions (C27 to C29): buttons rest where the pointer left them; a
    planet left within 0.2 s stays enlarged; the planet turns only on its first hover.
    No claim is made about the market cards: their \<open>y\<close> is also driven by the
    ScrollTrigger reveal tween, which the hover model leaves out (a finding).
  \<^item> Utilities (C30 to C32):
    \<^item> \<open>debounce\<close> keeps at most one timer, proved by rule induction over the
      reachable states;
    \<^item> over any calls and pauses from a fresh debounced function, \<open>func\<close>
      receives exactly the leading-edge (\<open>immediate\<close>) or trailing-edge calls of
      the reference, by computation induction on \<open>trailing_calls\<close>;
    \<^item> a burst calls \<open>func\<close> exactly once.
    That the step function and the relation agree is a lemma
    (\<open>deb_exec_equiv\<close>).
    The easing's bounds are lemmas here (\<open>lenis_easing_bounds\<close>), used by
    \<open>SmoothScroll\<close>.
  \<^item> ScrollAnimations (C35, C36): counters stop at a thousands separator, and a non-numeric target is an error; the hero
    schedule, whose first tween starts 3.5 s after start-up, when C23 clears the
    loading flag. The counters' parse/print round trip is a lemma
    (\<open>counter_roundtrip\<close>) about the model's en-US formatting.
  \<^item> Across components (C37, this theory): in a run of the page with no
    \<open>mousemove\<close>, the first frame after loading ends sets the camera to \<open>NaN\<close>.
    It composes the timeline of \<open>App\<close> with \<open>animate\<close> of \<open>Scene\<close>.
  \<^item> Reveal (C38): each section tween heads to its revealed state exactly when the
    last scroll position is past its start line, after any scroll history, jumps
    included. The proof is an invariant of \<open>'play none none reverse'\<close> kept by
    every scroll update.
  \<^item> Lifecycle (C39, C40):
    \<^item> liveness: once the document is loaded, firing the pending timers ends
      loading within a bounded number of callbacks;
    \<^item> type: the scene store's references stay valid, no timer is overdue, and at
      most three timers are pending, in every run.
    Both rest on invariants that every event preserves (\<open>app_wf\<close>,
    \<open>queue_bound\<close>, with \<open>loading_timeline\<close> of \<open>App\<close>).
  \<^item> SmoothScroll (C33, C34):
    \<^item> the \<open>raf\<close> loop calls \<open>lenis.raf\<close> once per frame;
    \<^item> a glide never leaves the segment from its start to its target, and has
      arrived and stopped once its duration has passed in frame time
      (\<open>glide_arrives\<close>, by an invariant of each frame step);
    \<^item> C33: after a click on an in-page link, the page glides towards the section
      without passing it and is there 1500 ms later. This composes
      \<open>Navigation\<close> with Lenis;
    \<^item> C34: the round trip link, glide, scroll spy: once the glide has ended, the
      scroll listener highlights the links to the clicked section, when the next
      section starts more than 200 px below it.
  \<^item> Shaders (C10):
    \<^item> C10: the glow intensity is undefined exactly where the view-space normal faces
      the camera direction with cosine above 0.3, and otherwise lies in
      \<open>[0, 1.3^1.4]\<close>;
    \<^item> the nebula's colour stays between its two colours and its alpha below
      0.2625, at any time uniform;
    \<^item> decoded colour channels lie in \<open>[0, 1]\<close>, and the page's colours decode
      exactly.

  \<^bold>\<open>Bounds and fuel.\<close>
  \<^item> The loading interval may in principle run forever (\<open>Math.random\<close> may keep
    returning 0), so \<open>progress_run n\<close> runs at most \<open>n\<close> ticks. C21 states how
    many ticks suffice when the draws are at least \<open>\<delta>\<close>: \<open>\<lceil>100 / (15 \<delta>)\<rceil>\<close>.
  \<^item> C39 bounds the callbacks until loading ends by
    \<open>fire_measure = 4 * (d + 3500 - now) + due\<close>, where \<open>due\<close> counts the
    callbacks due now. A callback due now lowers \<open>due\<close> by one; any other moves the
    clock by at least 1 ms, and at most three callbacks are pending, so the measure
    drops with every callback while loading.
  \<^item> Every other loop of the script is a bounded \<open>for\<close> or \<open>forEach\<close>, modelled
    by structural recursion.
  \<^item> Runs of events are finite lists. A run that waits past a due timer, or fires
    with none pending, is not a run of the page and yields \<open>None\<close>.

  \<^bold>\<open>Not modelled.\<close>
  \<^item> Drawing by three.js and WebGL: geometry, the Phong material, rasterisation
    and blending. The model counts renders, tracks the transforms the script writes,
    and computes the shaders' values per vertex and fragment. The matrices and mesh
    attributes three.js supplies are inputs.
  \<^item> Float32 precision on the GPU: the shaders are evaluated on reals.
  \<^item> The interpolated values of GSAP tweens over time and their easing: only when
    tweens start and end, which way they head, and what values they leave are
    modelled.
  \<^item> Lenis's wheel and touch handling: only programmatic \<open>scrollTo\<close> and the
    frame step are modelled, with page offsets given as a function.
  \<^item> Page layout: the element boxes seen by the observer and by the triggers, and
    the page offsets of scroll targets, are inputs.
  \<^item> Failing initialisers: \<open>initializeApp\<close> is modelled with every \<open>init*\<close>
    returning. A missing element or library would throw and skip \<open>animate()\<close>
    and the hide timer; the spec's start-up contract assumes the page is complete.
  \<^item> The user's locale: \<open>toLocaleString()\<close> is modelled in \<open>en-US\<close>.
\<close>

section \<open>Properties across components\<close>

lemma app_run_append:
  "app_run s (xs @ ys) = (case app_run s xs of None \<Rightarrow> None | Some s' \<Rightarrow> app_run s' ys)"
  by (induction xs arbitrary: s) (auto split: option.splits)

lemma mouse_x_init3DScene [simp]: "mouse_x (fst (init3DScene g s)) = mouse_x s"
  by (simp add: init3DScene_def createStarfield_def createPlanets_def createNebula_def split_beta Let_def)

lemma mouse_x_optimize_scene [simp]: "mouse_x (optimize_scene s) = mouse_x s"
  by (simp add: optimize_scene_def Let_def split: option.splits)

lemma app_step_mouse_x:
  assumes "app_step s e = Some s'" and "\<forall>x y. e \<noteq> AppMouse x y"
  shows "mouse_x (scene s') = mouse_x (scene s)"
proof (cases e)
  case AppFire
  with assms(1) obtain cb t where "s' = app_cb_run cb (s\<lparr>atimers := t\<rparr>)"
    by (auto split: option.splits)
  then show ?thesis by (cases cb) (simp_all add: split_beta)
qed (use assms in \<open>auto simp: initializeApp_def split_beta Let_def onWindowResize_def
       split: if_splits\<close>)

lemma app_run_mouse_x:
  "app_run s es = Some s' \<Longrightarrow> \<forall>x y. AppMouse x y \<notin> set es \<Longrightarrow> mouse_x (scene s') = mouse_x (scene s)"
proof (induction es arbitrary: s)
  case Nil
  then show ?case by simp
next
  case (Cons e es)
  then obtain s1 where "app_step s e = Some s1" "app_run s1 es = Some s'"
    by (auto split: option.splits)
  with Cons.IH [of s1] Cons.prems(2) app_step_mouse_x [of s e s1] show ?case by auto
qed

text \<open>
  C37. Defect across the start-up timeline and the scene: \<open>window.mouseX\<close> is only
  set by the \<open>mousemove\<close> listener. In any run of the page in which the pointer has
  not moved, the first animation frame after \<open>isLoading\<close> is cleared computes the
  parallax from \<open>undefined\<close> and sets \<open>camera.position.x\<close> to \<open>NaN\<close> (and by
  C7 it stays \<open>NaN\<close> forever).
\<close>

theorem nan_camera_without_mouse:
  assumes "app_run (script_load w h ep g) (es @ [AnimFrame]) = Some s"
    and "\<forall>x y. AppMouse x y \<notin> set es" and "\<not> is_loading (scene s)"
  shows "cam_x (cam (scene s)) = NaN"
proof -
  obtain s1 where r: "app_run (script_load w h ep g) es = Some s1" and f: "app_step s1 AnimFrame = Some s"
    using assms(1) by (auto simp: app_run_append split: option.splits)
  have s: "s = s1\<lparr>scene := animate (epoch s1 + real (now (atimers s1))) (scene s1)\<rparr>"
    using f by (simp split: if_splits)
  have m: "mouse_x (scene s1) = None"
    using app_run_mouse_x [OF r assms(2)] by (simp add: script_load_def scene_empty_def)
  have "\<not> is_loading (scene s1)" using assms(3) s by simp
  with s m show ?thesis by (simp add: animate_cam_x)
qed

theorem nan_camera_without_mouse_witness:
  "\<exists>s. app_run (script_load 1280 720 0 (const_rng 0.99))
      [AppWait 100, DOMContentLoaded [] None, AppFire, AppFire, AppFire, AppFire, AppFire,
       AppFire, AppFire, AppFire, AppFire, AppFire, AppWait 100, AnimFrame] = Some s
    \<and> \<not> is_loading (scene s) \<and> cam_x (cam (scene s)) = NaN"
proof -
  have "\<exists>s. app_run (script_load 1280 720 0 (const_rng 0.99))
      ([AppWait 100, DOMContentLoaded [] None, AppFire, AppFire, AppFire, AppFire, AppFire,
       AppFire, AppFire, AppFire, AppFire, AppFire, AppWait 100] @ [AnimFrame]) = Some s
      \<and> \<not> is_loading (scene s)"
    by (simp add: script_load_def initializeApp_def sched_init_def set_timeout_def pop_timer_def
        progress_tick_eq const_rng_def Let_def split_beta loading_init_def initCharts_def)
  then obtain s where r: "app_run (script_load 1280 720 0 (const_rng 0.99))
      ([AppWait 100, DOMContentLoaded [] None, AppFire, AppFire, AppFire, AppFire, AppFire,
       AppFire, AppFire, AppFire, AppFire, AppFire, AppWait 100] @ [AnimFrame]) = Some s"
    and l: "\<not> is_loading (scene s)" by blast
  have m: "\<forall>x y. AppMouse x y \<notin> set [AppWait 100, DOMContentLoaded [] None, AppFire, AppFire,
       AppFire, AppFire, AppFire, AppFire, AppFire, AppFire, AppFire, AppFire, AppWait 100]"
    by simp
  show ?thesis using nan_camera_without_mouse [OF r m l] r l by auto
qed
end
